(* ===== verification/Prelude.thy ===== *)
theory Prelude
  imports Main "HOL-Library.AList" "HOL-Library.Char_ord" "HOL-Library.List_Lexorder"
    "HOL-Library.Sublist"
begin

text \<open>
  Shared vocabulary of the development: the model of Go's maps, the collections of facts the
  component theories share, and generic lemmas on lists and association lists.

  A Go map is \<open>None\<close> when it is nil and \<open>Some\<close> of its entries otherwise. The entries are an
  association list with distinct keys; the order of the list is the order in which one \<open>range\<close>
  statement visits them. The language leaves that order open, so the model does not choose one:
  every theorem is about all entry lists, hence about all orders. Reading a nil map gives no
  value; writing to a nil map panics in Go, so a definition writes to an entry list only, after
  the nil check the source makes, or returns an error value for the panic.
\<close>

section \<open>Fact collections\<close>

named_theorems entries_simps "facts on entry lists"
named_theorems defaulting "facts on operations that fill missing values"
named_theorems preserves "facts stating that an operation keeps a part of the state"

section \<open>Go maps\<close>

type_synonym 'v entries = "(string \<times> 'v) list"
type_synonym 'v gomap = "'v entries option"

abbreviation keys_of :: "'v entries \<Rightarrow> string set" where
  "keys_of es \<equiv> fst ` set es"

abbreviation keys_distinct :: "'v entries \<Rightarrow> bool" where
  "keys_distinct es \<equiv> distinct (map fst es)"

text \<open>Reading: a nil map has no entries.\<close>

definition mentries :: "'v gomap \<Rightarrow> 'v entries" where
  "mentries m = (case m of None \<Rightarrow> [] | Some es \<Rightarrow> es)"

definition mget :: "'v gomap \<Rightarrow> string \<Rightarrow> 'v option" where
  "mget m k = map_of (mentries m) k"

definition mhas :: "'v gomap \<Rightarrow> string \<Rightarrow> bool" where
  "mhas m k \<longleftrightarrow> mget m k \<noteq> None"

definition mlen :: "'v gomap \<Rightarrow> nat" where
  "mlen m = length (mentries m)"

text \<open>The entries after \<open>if m == nil { m = make(...) }\<close>.\<close>

definition mmake :: "'v gomap \<Rightarrow> 'v entries" where
  "mmake m = mentries m"

text \<open>Writing to and deleting from the entries of a map that is not nil.\<close>

definition put :: "string \<Rightarrow> 'v \<Rightarrow> 'v entries \<Rightarrow> 'v entries" where
  "put k v es = AList.update k v es"

definition del :: "string \<Rightarrow> 'v entries \<Rightarrow> 'v entries" where
  "del k es = AList.delete k es"

definition mwf :: "'v gomap \<Rightarrow> bool" where
  "mwf m \<longleftrightarrow> keys_distinct (mentries m)"

lemma mentries_simps [simp]:
  "mentries None = []" "mentries (Some es) = es"
  by (simp_all add: mentries_def)

lemma mget_simps [simp]:
  "mget None k = None" "mget (Some es) k = map_of es k"
  by (simp_all add: mget_def)

lemma mlen_simps [simp]: "mlen None = 0" "mlen (Some es) = length es"
  by (simp_all add: mlen_def)

lemma mmake_simps [simp]: "mmake None = []" "mmake (Some es) = es"
  by (simp_all add: mmake_def)

lemma mwf_simps [simp]: "mwf None" "mwf (Some es) \<longleftrightarrow> keys_distinct es"
  by (simp_all add: mwf_def)

lemma map_of_put [simp, entries_simps]: "map_of (put k v es) = (map_of es)(k \<mapsto> v)"
  by (simp add: put_def update_conv')

lemma map_of_del [simp, entries_simps]: "map_of (del k es) = (map_of es)(k := None)"
  by (simp add: del_def delete_conv')

lemma keys_of_put [simp, entries_simps]: "keys_of (put k v es) = insert k (keys_of es)"
  by (simp add: put_def dom_update)

lemma keys_of_del [simp, entries_simps]: "keys_of (del k es) = keys_of es - {k}"
  by (auto simp: del_def AList.delete_eq)

lemma distinct_put [simp, intro, entries_simps]:
  "keys_distinct es \<Longrightarrow> keys_distinct (put k v es)"
  by (simp add: put_def distinct_update)

lemma distinct_del [simp, intro, entries_simps]:
  "keys_distinct es \<Longrightarrow> keys_distinct (del k es)"
  by (simp add: del_def distinct_delete)

lemma length_put_in [simp]: "k \<in> keys_of es \<Longrightarrow> length (put k v es) = length es"
proof (induction es)
  case (Cons e es)
  then show ?case by (cases e) (auto simp: put_def)
qed simp

lemma length_put_new [simp]: "k \<notin> keys_of es \<Longrightarrow> length (put k v es) = Suc (length es)"
proof (induction es)
  case (Cons e es)
  then show ?case by (cases e) (auto simp: put_def)
qed (simp add: put_def)

lemma put_new: "k \<notin> keys_of es \<Longrightarrow> put k v es = es @ [(k, v)]"
proof (induction es)
  case (Cons e es)
  then show ?case by (cases e) (auto simp: put_def)
qed (simp add: put_def)

lemma map_put: "map fst (put k v es) = (if k \<in> keys_of es then map fst es else map fst es @ [k])"
proof (induction es)
  case (Cons e es)
  then show ?case by (cases e) (auto simp: put_def)
qed (simp add: put_def)

lemma map_of_None_iff [entries_simps]: "map_of es k = None \<longleftrightarrow> k \<notin> keys_of es"
  by (rule map_of_eq_None_iff)

lemma mget_in_keys: "mget m k = Some v \<Longrightarrow> k \<in> keys_of (mentries m)"
  by (force simp: mget_def dest: map_of_SomeD)

lemma length_card_keys: "keys_distinct es \<Longrightarrow> length es = card (keys_of es)"
  by (metis distinct_card length_map list.set_map)

text \<open>Reordering the entries, as another \<open>range\<close> over the same map may, changes no lookup.\<close>

lemma map_of_reorder:
  assumes "keys_distinct es" "keys_distinct es'" "set es = set es'"
  shows "map_of es = map_of es'"
  using assms by (metis map_of_inject_set)

section \<open>The interface of a keyed store\<close>

text \<open>
  What the operator relies on when it merges one Go map into another: a lookup after an insert,
  and an invariant every insert keeps. The loops of the source that copy entries are folds over
  the entries of the source map; their laws are proved here once.
\<close>

locale keyed_store =
  fixes lookup :: "'m \<Rightarrow> 'k \<Rightarrow> 'v option"
    and insert_at :: "'k \<Rightarrow> 'v \<Rightarrow> 'm \<Rightarrow> 'm"
    and invar :: "'m \<Rightarrow> bool"
  assumes lookup_insert: "lookup (insert_at k v m) = (lookup m)(k \<mapsto> v)"
    and invar_insert: "invar m \<Longrightarrow> invar (insert_at k v m)"
begin

text \<open>Copying every entry, a later one over an earlier one.\<close>

lemma lookup_copy_all:
  "lookup (fold (\<lambda>(k, v). insert_at k v) es m) = lookup m ++ map_of (rev es)"
proof (induction es arbitrary: m)
  case (Cons e es)
  then show ?case
    by (cases e) (auto simp: fun_eq_iff map_add_def lookup_insert split: option.splits)
qed simp

text \<open>Copying the entries whose key is missing.\<close>

lemma lookup_copy_missing:
  "lookup (fold (\<lambda>(k, v) d. if lookup d k = None then insert_at k v d else d) es m)
     = map_of es ++ lookup m"
proof (induction es arbitrary: m)
  case (Cons e es)
  then show ?case
    by (cases e) (auto simp: fun_eq_iff map_add_def lookup_insert split: option.splits)
qed simp

text \<open>Copying the entries a filter accepts.\<close>

lemma lookup_copy_accepted:
  "lookup (fold (\<lambda>(k, v) d. if ok k v then insert_at k v d else d) es m)
     = lookup m ++ map_of (rev (filter (\<lambda>(k, v). ok k v) es))"
proof (induction es arbitrary: m)
  case (Cons e es)
  then show ?case
    by (cases e) (auto simp: fun_eq_iff map_add_def lookup_insert split: option.splits)
qed simp

lemma invar_copy:
  "invar m \<Longrightarrow> invar (fold (\<lambda>(k, v) d. if ok k v d then insert_at k v d else d) es m)"
  by (induction es arbitrary: m) (auto simp: invar_insert)

lemma invar_copy_all: "invar m \<Longrightarrow> invar (fold (\<lambda>(k, v). insert_at k v) es m)"
  by (induction es arbitrary: m) (auto simp: invar_insert)

end

interpretation entries: keyed_store map_of put keys_distinct
  by unfold_locales (auto simp: fun_eq_iff)

lemma map_of_rev_distinct:
  assumes "keys_distinct es"
  shows "map_of (rev es) = map_of es"
  by (rule map_of_reorder) (use assms in \<open>simp_all add: rev_map [symmetric]\<close>)

lemma keys_distinct_filter: "keys_distinct es \<Longrightarrow> keys_distinct (filter P es)"
  by (induction es) auto

lemma map_of_filter_distinct:
  "keys_distinct es \<Longrightarrow>
   map_of (filter (\<lambda>(k, v). ok k v) es) k = (case map_of es k of Some v \<Rightarrow> if ok k v then Some v else None | None \<Rightarrow> None)"
proof (induction es)
  case (Cons e es)
  then have "fst e \<notin> keys_of es" by simp
  then have "map_of es (fst e) = None" by (simp add: map_of_None_iff)
  with Cons show ?case by (cases e) (auto split: option.splits)
qed simp

section \<open>Ranging over a map and writing each entry back\<close>

text \<open>
  \<open>for k, v := range m { f(k, &v); m[k] = v }\<close>: every entry is replaced in place. \<open>None\<close> when
  one of the calls does not return.
\<close>

fun update_each :: "(string \<Rightarrow> 'v \<Rightarrow> 'v option) \<Rightarrow> 'v entries \<Rightarrow> 'v entries option" where
  "update_each f [] = Some []"
| "update_each f ((k, v) # es) =
     (case f k v of
        None \<Rightarrow> None
      | Some v' \<Rightarrow> map_option (\<lambda>es'. (k, v') # es') (update_each f es))"

lemma update_each_keys: "update_each f es = Some es' \<Longrightarrow> map fst es' = map fst es"
  by (induction es arbitrary: es') (auto split: option.splits)

lemma update_each_lookup:
  "update_each f es = Some es' \<Longrightarrow>
   (case map_of es k of None \<Rightarrow> map_of es' k = None
    | Some v \<Rightarrow> \<exists>v'. f k v = Some v' \<and> map_of es' k = Some v')"
  by (induction es arbitrary: es') (auto split: option.splits)

lemma update_each_range:
  "update_each f es = Some es' \<Longrightarrow> (k, v') \<in> set es' \<Longrightarrow> \<exists>v. (k, v) \<in> set es \<and> f k v = Some v'"
proof (induction es arbitrary: es')
  case (Cons e es)
  obtain a b where e: "e = (a, b)" by (cases e)
  with Cons.prems(1) obtain b' z where "f a b = Some b'" "update_each f es = Some z" "es' = (a, b') # z"
    by (auto split: option.splits)
  with Cons e show ?case by (cases "(k, v') = (a, b')") (fastforce, force)
qed simp

lemma update_each_length: "update_each f es = Some es' \<Longrightarrow> length es' = length es"
  by (metis length_map update_each_keys)

lemma update_each_total:
  "\<forall>(k, v) \<in> set es. f k v \<noteq> None \<Longrightarrow> \<exists>es'. update_each f es = Some es'"
  by (induction es) auto

lemma update_each_map:
  "\<forall>(k, v) \<in> set es. f k v = Some (g k v) \<Longrightarrow>
   update_each f es = Some (map (\<lambda>(k, v). (k, g k v)) es)"
  by (induction es) auto

section \<open>Lists\<close>

lemma fold_invariant:
  assumes "P s" "\<And>x s. x \<in> set xs \<Longrightarrow> P s \<Longrightarrow> P (f x s)"
  shows "P (fold f xs s)"
  using assms by (induction xs arbitrary: s) auto

lemma find_SomeD: "find P xs = Some x \<Longrightarrow> x \<in> set xs \<and> P x"
  by (induction xs) (auto split: if_splits)

lemma find_append: "find P (xs @ ys) = (case find P xs of Some x \<Rightarrow> Some x | None \<Rightarrow> find P ys)"
  by (induction xs) auto

lemma dropWhile_hd: "dropWhile P xs \<noteq> [] \<Longrightarrow> \<not> P (hd (dropWhile P xs))"
  by (rule hd_dropWhile)

end
