(* ===== verification/Go_Strings.thy ===== *)
theory Go_Strings
  imports Prelude
begin

text \<open>
  The parts of Go's \<open>strings\<close>, \<open>strconv\<close>, \<open>fmt\<close> and \<open>regexp\<close> packages the operator uses, on
  strings as lists of bytes. Separators are the single bytes the source passes. Case mapping
  is that of ASCII; bytes above 127 are left alone.
\<close>

section \<open>Split and Join\<close>

text \<open>\<open>strings.Split(s, sep)\<close> for a one-byte separator: never empty, \<open>[""]\<close> for the empty string.\<close>

fun go_split :: "char \<Rightarrow> string \<Rightarrow> string list" where
  "go_split c [] = [[]]"
| "go_split c (x # xs) =
     (if x = c then [] # go_split c xs
      else (case go_split c xs of [] \<Rightarrow> [[x]] | p # ps \<Rightarrow> (x # p) # ps))"

text \<open>\<open>strings.Join(parts, sep)\<close>.\<close>

fun go_join :: "string \<Rightarrow> string list \<Rightarrow> string" where
  "go_join sep [] = []"
| "go_join sep [p] = p"
| "go_join sep (p # q # ps) = p @ sep @ go_join sep (q # ps)"

lemma go_split_nonempty [simp]: "go_split c s \<noteq> []"
  by (cases s) (auto split: list.splits)

lemma go_join_Cons: "ps \<noteq> [] \<Longrightarrow> go_join sep (p # ps) = p @ sep @ go_join sep ps"
  by (cases ps) auto

lemma go_join_split: "go_join [c] (go_split c s) = s"
proof (induction s)
  case (Cons x s)
  obtain p ps where s: "go_split c s = p # ps"
    by (cases "go_split c s") auto
  show ?case
  proof (cases "x = c")
    case True
    then show ?thesis using Cons s by (simp add: go_join_Cons)
  next
    case False
    then show ?thesis using Cons s by (cases ps) auto
  qed
qed simp

lemma go_split_parts: "p \<in> set (go_split c s) \<Longrightarrow> c \<notin> set p"
proof (induction s arbitrary: p)
  case (Cons x s)
  then show ?case by (auto split: list.splits if_splits)
qed simp

lemma go_split_no_sep: "c \<notin> set s \<Longrightarrow> go_split c s = [s]"
  by (induction s) auto

lemma go_split_append:
  "c \<notin> set p \<Longrightarrow> go_split c (p @ c # s) = p # go_split c s"
  by (induction p) auto

lemma go_split_join:
  "ps \<noteq> [] \<Longrightarrow> \<forall>p \<in> set ps. c \<notin> set p \<Longrightarrow> go_split c (go_join [c] ps) = ps"
proof (induction ps)
  case (Cons p ps)
  then show ?case
    by (cases ps) (auto simp: go_split_no_sep go_split_append)
qed simp

lemma length_go_split: "length (go_split c s) = Suc (count_list s c)"
proof (induction s)
  case (Cons x s)
  then show ?case by (cases "go_split c s") auto
qed simp

lemma go_split_inject: "go_split c s = go_split c t \<Longrightarrow> s = t"
  by (metis go_join_split)

lemma go_split_append_sep: "go_split c (p @ c # s) = go_split c p @ go_split c s"
proof (induction p)
  case (Cons x p)
  then show ?case by (cases "go_split c p") auto
qed simp

lemma last_go_split_append:
  "c \<notin> set s \<Longrightarrow> last (go_split c (p @ c # s)) = s"
  by (simp add: go_split_append_sep go_split_no_sep)

section \<open>Trim and the expression \<open>//+\<close>\<close>

text \<open>\<open>strings.Trim(s, c)\<close> for a one-byte cut set.\<close>

definition trim_char :: "char \<Rightarrow> string \<Rightarrow> string" where
  "trim_char c s = rev (dropWhile ((=) c) (rev (dropWhile ((=) c) s)))"

text \<open>\<open>regexp.MustCompile("cc+").ReplaceAllString(s, "c")\<close>: runs of \<open>c\<close> become one \<open>c\<close>.\<close>

fun squeeze :: "char \<Rightarrow> string \<Rightarrow> string" where
  "squeeze c [] = []"
| "squeeze c [x] = [x]"
| "squeeze c (x # y # s) = (if x = c \<and> y = c then squeeze c (y # s) else x # squeeze c (y # s))"

text \<open>A string with no two adjacent \<open>c\<close>.\<close>

fun no_double :: "char \<Rightarrow> string \<Rightarrow> bool" where
  "no_double c (x # y # s) \<longleftrightarrow> \<not> (x = c \<and> y = c) \<and> no_double c (y # s)"
| "no_double c _ \<longleftrightarrow> True"

lemma hd_squeeze [simp]: "s \<noteq> [] \<Longrightarrow> hd (squeeze c s) = hd s"
  by (induction c s rule: squeeze.induct) auto

lemma squeeze_Nil_iff [simp]: "squeeze c s = [] \<longleftrightarrow> s = []"
  by (induction c s rule: squeeze.induct) auto

lemma no_double_Cons: "no_double c (x # s) \<longleftrightarrow> no_double c s \<and> (s = [] \<or> \<not> (x = c \<and> hd s = c))"
  by (cases s) auto

lemma no_double_squeeze: "no_double c (squeeze c s)"
  by (induction c s rule: squeeze.induct) (auto simp: no_double_Cons)

lemma squeeze_id: "no_double c s \<Longrightarrow> squeeze c s = s"
  by (induction c s rule: squeeze.induct) auto

lemma length_squeeze_le: "length (squeeze c s) \<le> length s"
  by (induction c s rule: squeeze.induct) auto

lemma squeeze_length_eq: "length (squeeze c s) = length s \<Longrightarrow> squeeze c s = s"
proof (induction c s rule: squeeze.induct)
  case (3 c x y s)
  then show ?case
    using length_squeeze_le [of c "y # s"] by (auto split: if_splits)
qed auto

lemma no_double_suffix: "no_double c (p @ s) \<Longrightarrow> no_double c s"
  by (induction p) (auto simp: no_double_Cons)

lemma no_double_prefix: "no_double c (p @ s) \<Longrightarrow> no_double c p"
proof (induction p)
  case (Cons x p)
  then show ?case by (cases p) auto
qed simp

lemma dropWhile_suffix: "\<exists>p. s = p @ dropWhile P s"
  by (metis takeWhile_dropWhile_id)

lemma trim_char_infix: "\<exists>p q. s = p @ trim_char c s @ q"
proof -
  obtain p where p: "s = p @ dropWhile ((=) c) s"
    using dropWhile_suffix by blast
  obtain q where q: "rev (dropWhile ((=) c) s) = q @ rev (trim_char c s)"
    using dropWhile_suffix [of "rev (dropWhile ((=) c) s)" "(=) c"] by (auto simp: trim_char_def)
  then have "dropWhile ((=) c) s = trim_char c s @ rev q"
    by (metis rev_append rev_rev_ident)
  with p show ?thesis by metis
qed

lemma no_double_trim: "no_double c s \<Longrightarrow> no_double c (trim_char c s)"
  by (metis trim_char_infix no_double_prefix no_double_suffix)

lemma trim_char_last: "trim_char c s \<noteq> [] \<Longrightarrow> last (trim_char c s) \<noteq> c"
  unfolding trim_char_def
  by (metis (mono_tags) hd_dropWhile last_rev rev_is_Nil_conv)

lemma trim_char_hd: "trim_char c s \<noteq> [] \<Longrightarrow> hd (trim_char c s) \<noteq> c"
proof -
  assume ne: "trim_char c s \<noteq> []"
  let ?d = "dropWhile ((=) c) s"
  obtain q where q: "rev ?d = q @ rev (trim_char c s)"
    using dropWhile_suffix [of "rev ?d" "(=) c"] by (auto simp: trim_char_def)
  then have d: "?d = trim_char c s @ rev q"
    by (metis rev_append rev_rev_ident)
  with ne have "?d \<noteq> []" by auto
  then have "hd ?d \<noteq> c" by (metis (full_types) hd_dropWhile)
  with d ne show ?thesis by simp
qed

lemma trim_char_id:
  assumes "s = [] \<or> (hd s \<noteq> c \<and> last s \<noteq> c)"
  shows "trim_char c s = s"
proof (cases "s = []")
  case False
  with assms have "dropWhile ((=) c) s = s" "dropWhile ((=) c) (rev s) = rev s"
    by (auto simp add: dropWhile_eq_self_iff hd_rev)
  then show ?thesis by (simp add: trim_char_def)
qed (simp add: trim_char_def)

lemma length_trim_le: "length (trim_char c s) \<le> length s"
  by (metis trim_char_infix length_append le_add1 le_add2 order_trans)

lemma trim_length_eq: "length (trim_char c s) = length s \<Longrightarrow> trim_char c s = s"
proof -
  assume l: "length (trim_char c s) = length s"
  obtain p q where s: "s = p @ trim_char c s @ q"
    using trim_char_infix by blast
  then have "length s = length p + length (trim_char c s) + length q"
    by (metis length_append add.assoc)
  with l have "p = []" "q = []" by auto
  with s show ?thesis by simp
qed

section \<open>Case and containment\<close>

definition lower_char :: "char \<Rightarrow> char" where
  "lower_char c =
     (let n = (of_char c :: nat) in if 65 \<le> n \<and> n \<le> 90 then char_of (n + 32) else c)"

definition to_lower :: "string \<Rightarrow> string" where
  "to_lower s = map lower_char s"

text \<open>\<open>strings.EqualFold\<close>\<close>

definition equal_fold :: "string \<Rightarrow> string \<Rightarrow> bool" where
  "equal_fold s t \<longleftrightarrow> to_lower s = to_lower t"

text \<open>\<open>strings.Contains(s, sub)\<close>\<close>

fun contains :: "string \<Rightarrow> string \<Rightarrow> bool" where
  "contains [] sub \<longleftrightarrow> sub = []"
| "contains (x # s) sub \<longleftrightarrow> prefix sub (x # s) \<or> contains s sub"

lemma contains_iff_sublist: "contains s sub \<longleftrightarrow> sublist sub s"
  by (induction s) (auto simp: sublist_Cons_right)

lemma contains_infix: "contains s sub \<longleftrightarrow> (\<exists>p q. s = p @ sub @ q)"
  by (simp add: contains_iff_sublist sublist_def)

section \<open>Replacement\<close>

text \<open>\<open>strings.ReplaceAll(s, old, new)\<close> for a non-empty \<open>old\<close>; the source passes literals.\<close>

function replace_all :: "string \<Rightarrow> string \<Rightarrow> string \<Rightarrow> string" where
  "replace_all old new s =
     (if old = [] \<or> s = [] then s
      else if prefix old s then new @ replace_all old new (drop (length old) s)
      else hd s # replace_all old new (tl s))"
  by pat_completeness auto
termination
  by (relation "measure (\<lambda>(old, new, s). length s)") auto

declare replace_all.simps [simp del]

text \<open>
  \<open>strings.NewReplacer(pairs...).Replace(s)\<close>: at each position the pairs are tried in argument
  order, a replacement is not scanned again. The source's patterns are not empty.
\<close>

fun match_pair :: "(string \<times> string) list \<Rightarrow> string \<Rightarrow> (string \<times> string) option" where
  "match_pair [] s = None"
| "match_pair ((old, new) # ps) s =
     (if old \<noteq> [] \<and> prefix old s then Some (old, new) else match_pair ps s)"

lemma match_pair_Some: "match_pair ps s = Some (old, new) \<Longrightarrow> old \<noteq> [] \<and> prefix old s"
  by (induction ps s rule: match_pair.induct) (auto split: if_splits)

function replacer :: "(string \<times> string) list \<Rightarrow> string \<Rightarrow> string" where
  "replacer ps s =
     (if s = [] then []
      else (case match_pair ps s of
              Some (old, new) \<Rightarrow> new @ replacer ps (drop (length old) s)
            | None \<Rightarrow> hd s # replacer ps (tl s)))"
  by pat_completeness auto
termination
proof (relation "measure (\<lambda>(ps, s). length s)")
  fix ps :: "(string \<times> string) list" and s x and old new :: string
  assume "s \<noteq> []" "match_pair ps s = Some x" "(old, new) = x"
  then show "((ps, drop (length old) s), ps, s) \<in> measure (\<lambda>(ps, s). length s)"
    using match_pair_Some [of ps s old new] by (auto simp: prefix_def)
qed auto

declare replacer.simps [simp del]

section \<open>FieldsFunc\<close>

text \<open>\<open>strings.FieldsFunc(s, f)\<close>: the maximal runs of bytes that do not satisfy \<open>f\<close>.\<close>

function fields_func :: "(char \<Rightarrow> bool) \<Rightarrow> string \<Rightarrow> string list" where
  "fields_func f s =
     (case dropWhile f s of
        [] \<Rightarrow> []
      | t \<Rightarrow> takeWhile (\<lambda>c. \<not> f c) t # fields_func f (dropWhile (\<lambda>c. \<not> f c) t))"
  by pat_completeness auto
termination
proof (relation "measure (\<lambda>(f, s). length s)")
  fix f :: "char \<Rightarrow> bool" and s x xs
  assume d: "dropWhile f s = x # xs"
  then have "\<not> f x" by (metis hd_dropWhile list.distinct(1) list.sel(1))
  then have "length (dropWhile (\<lambda>c. \<not> f c) (x # xs)) \<le> length xs"
    by (simp add: length_dropWhile_le)
  moreover have "length (x # xs) \<le> length s"
    by (metis d length_dropWhile_le)
  ultimately show "((f, dropWhile (\<lambda>c. \<not> f c) (x # xs)), f, s) \<in> measure (\<lambda>(f, s). length s)"
    by simp
qed simp

declare fields_func.simps [simp del]

lemma fields_func_nonempty: "p \<in> set (fields_func f s) \<Longrightarrow> p \<noteq> [] \<and> (\<forall>c \<in> set p. \<not> f c)"
proof (induction f s rule: fields_func.induct)
  case (1 f s)
  show ?case
  proof (cases "dropWhile f s")
    case Nil
    with 1(2) show ?thesis by (simp add: fields_func.simps [of f s])
  next
    case (Cons x xs)
    then have "\<not> f x" by (metis hd_dropWhile list.distinct(1) list.sel(1))
    let ?rest = "dropWhile (\<lambda>c. \<not> f c) (x # xs)"
    have "fields_func f s = takeWhile (\<lambda>c. \<not> f c) (x # xs) # fields_func f ?rest"
      by (subst fields_func.simps) (simp only: Cons list.case)
    with 1(2) have "p = takeWhile (\<lambda>c. \<not> f c) (x # xs) \<or> p \<in> set (fields_func f ?rest)"
      by (simp del: takeWhile.simps dropWhile.simps)
    then show ?thesis
    proof
      assume "p = takeWhile (\<lambda>c. \<not> f c) (x # xs)"
      then show ?thesis using \<open>\<not> f x\<close> by (auto dest: set_takeWhileD)
    next
      assume "p \<in> set (fields_func f ?rest)"
      then show ?thesis by (rule "1.IH" [OF Cons])
    qed
  qed
qed

section \<open>Decimal numbers\<close>

fun digits :: "nat \<Rightarrow> string" where
  "digits n = (if n < 10 then [char_of (n + 48)] else digits (n div 10) @ [char_of (n mod 10 + 48)])"

declare digits.simps [simp del]

text \<open>\<open>strconv.Itoa\<close>, and \<open>%d\<close> of \<open>fmt\<close>.\<close>

definition itoa :: "int \<Rightarrow> string" where
  "itoa i = (if i < 0 then ''-'' @ digits (nat (- i)) else digits (nat i))"

definition is_digit :: "char \<Rightarrow> bool" where
  "is_digit c \<longleftrightarrow> 48 \<le> (of_char c :: nat) \<and> (of_char c :: nat) \<le> 57"

definition digit_val :: "char \<Rightarrow> nat" where
  "digit_val c = of_char c - 48"

definition dec_val :: "string \<Rightarrow> nat" where
  "dec_val s = foldl (\<lambda>n c. n * 10 + digit_val c) 0 s"

definition max_int :: int where "max_int = 9223372036854775807"
definition min_int :: int where "min_int = - 9223372036854775808"

datatype num_error = ErrSyntax | ErrRange

text \<open>
  \<open>strconv.Atoi\<close> on a 64-bit platform: the value and the error, both, as Go returns them. The
  value next to \<open>ErrSyntax\<close> is 0, next to \<open>ErrRange\<close> the nearest \<open>int\<close>.
\<close>

definition atoi :: "string \<Rightarrow> int \<times> num_error option" where
  "atoi s =
     (let neg = (s \<noteq> [] \<and> hd s = CHR ''-'');
          body = (if s \<noteq> [] \<and> (hd s = CHR ''-'' \<or> hd s = CHR ''+'') then tl s else s)
      in if body = [] \<or> \<not> list_all is_digit body then (0, Some ErrSyntax)
         else let v = (if neg then - int (dec_val body) else int (dec_val body))
              in if max_int < v then (max_int, Some ErrRange)
                 else if v < min_int then (min_int, Some ErrRange)
                 else (v, None))"

lemma of_char_digit: "n < 10 \<Longrightarrow> (of_char (char_of (n + 48) :: char) :: nat) = n + 48"
  by simp

lemma digits_nonempty [simp]: "digits n \<noteq> []"
  by (subst digits.simps) simp

lemma digits_all: "list_all is_digit (digits n)"
proof (induction n rule: digits.induct)
  case (1 n)
  then show ?case
    by (cases "n < 10") (simp_all add: digits.simps [of n] is_digit_def)
qed

lemma dec_val_snoc: "dec_val (s @ [c]) = dec_val s * 10 + digit_val c"
  by (simp add: dec_val_def)

lemma dec_val_digits [simp]: "dec_val (digits n) = n"
proof (induction n rule: digits.induct)
  case (1 n)
  show ?case
  proof (cases "n < 10")
    case True
    then show ?thesis by (simp add: digits.simps [of n] dec_val_def digit_val_def)
  next
    case False
    then have "digit_val (char_of (n mod 10 + 48)) = n mod 10"
      by (simp add: digit_val_def)
    with 1 False show ?thesis
      by (simp add: digits.simps [of n] dec_val_snoc)
  qed
qed

lemma digits_inject: "digits m = digits n \<Longrightarrow> m = n"
  by (metis dec_val_digits)

lemma digit_not_dash: "is_digit c \<Longrightarrow> c \<noteq> CHR ''-'' \<and> c \<noteq> CHR ''+'' \<and> c \<noteq> CHR ''/''"
  by (auto simp: is_digit_def)

lemma digits_no_dash: "CHR ''-'' \<notin> set (digits n)" "CHR ''/'' \<notin> set (digits n)"
  using digits_all [of n] by (auto simp: list_all_iff dest: digit_not_dash)

lemma hd_digits: "is_digit (hd (digits n))"
  using digits_all [of n] by (simp add: list_all_iff)

lemma atoi_digits: "int n \<le> max_int \<Longrightarrow> atoi (digits n) = (int n, None)"
  using digits_all [of n] digit_not_dash [OF hd_digits [of n]]
  by (auto simp: atoi_def Let_def max_int_def min_int_def)

lemma atoi_itoa:
  assumes "min_int \<le> i" "i \<le> max_int"
  shows "atoi (itoa i) = (i, None)"
proof (cases "i < 0")
  case True
  then show ?thesis
    using assms digits_all [of "nat (- i)"]
    by (auto simp: atoi_def itoa_def Let_def max_int_def min_int_def)
next
  case False
  then show ?thesis using assms atoi_digits [of "nat i"] by (simp add: itoa_def)
qed

lemma itoa_inject: "itoa i = itoa j \<Longrightarrow> i = j"
proof -
  assume eq: "itoa i = itoa j"
  have nd: "hd (digits n) \<noteq> CHR ''-''" for n
    using digit_not_dash [OF hd_digits] by blast
  show ?thesis
  proof (cases "i < 0"; cases "j < 0")
    assume "i < 0" "j < 0"
    with eq have "nat (- i) = nat (- j)"
      by (auto simp: itoa_def dest: digits_inject)
    with \<open>i < 0\<close> \<open>j < 0\<close> show ?thesis by simp
  next
    assume "i < 0" "\<not> j < 0"
    with eq nd [of "nat j"] show ?thesis
      by (metis append_Cons itoa_def list.sel(1))
  next
    assume "\<not> i < 0" "j < 0"
    with eq nd [of "nat i"] show ?thesis
      by (metis append_Cons itoa_def list.sel(1))
  next
    assume "\<not> i < 0" "\<not> j < 0"
    with eq have "nat i = nat j"
      by (auto simp: itoa_def dest: digits_inject)
    with \<open>\<not> i < 0\<close> \<open>\<not> j < 0\<close> show ?thesis by simp
  qed
qed

lemma itoa_nat: "0 \<le> i \<Longrightarrow> itoa i = digits (nat i)"
  by (simp add: itoa_def)

text \<open>Names built as \<open>prefix-number\<close> differ when the numbers differ.\<close>

definition dashed :: "string \<Rightarrow> int \<Rightarrow> string" where
  "dashed p i = p @ ''-'' @ itoa i"

lemma dashed_inject [simp]: "dashed p i = dashed p j \<longleftrightarrow> i = j"
  by (auto simp: dashed_def dest: itoa_inject)

end
