(* ===== verification/Pkg_Util.thy ===== *)
theory Pkg_Util
  imports Go_Strings "HOL-Library.Word"
begin

unbundle bit_operations_syntax

text \<open>
  The helpers of \<open>pkg/util\<close>: arrays (\<open>array.go\<close>), string maps (\<open>map.go\<close>), booleans written as
  strings (\<open>string.go\<close>), paths (\<open>dir.go\<close>), the integer hash of \<open>hash.go\<close> and the indented
  line of \<open>print.go\<close>. \<open>None\<close> is a run-time panic (index or rows bounds). SHA-1, \<open>filepath.Abs\<close>
  and the file system are parameters.
\<close>

section \<open>Arrays\<close>

fun in_array :: "string \<Rightarrow> string list \<Rightarrow> bool" where
  "in_array needle [] \<longleftrightarrow> False"
| "in_array needle (item # haystack) \<longleftrightarrow> (if item = needle then True else in_array needle haystack)"

fun remove_from_array :: "string \<Rightarrow> string list \<Rightarrow> string list" where
  "remove_from_array needle [] = []"
| "remove_from_array needle (item # haystack) =
     (if item = needle then remove_from_array needle haystack
      else item # remove_from_array needle haystack)"

lemma in_array_iff [simp]: "in_array needle haystack \<longleftrightarrow> needle \<in> set haystack"
  by (induction haystack) auto

lemma remove_from_array_eq: "remove_from_array needle haystack = filter (\<lambda>x. x \<noteq> needle) haystack"
  by (induction haystack) auto

text \<open>
  A value of a \<open>map[string]interface{}\<close>: of a basic type, a slice of one, a slice of interfaces, or
  of another type. The texts are those \<open>fmt.Sprint\<close> gives.
\<close>

datatype any_value = BasicValue string | TypedSlice "string list" | AnySlice "string list" | OtherValue

text \<open>
  \<open>CastToSliceOfStrings\<close>: the branch for slices asserts \<open>[]interface{}\<close> for all of them, which panics
  (\<open>None\<close>) for a slice of a basic type.
\<close>

fun cast_value :: "any_value \<Rightarrow> string list option" where
  "cast_value (BasicValue v) = Some [v]"
| "cast_value (TypedSlice vs) = None"
| "cast_value (AnySlice vs) = Some vs"
| "cast_value OtherValue = Some []"

fun cast_entries :: "(string \<Rightarrow> any_value option) \<Rightarrow> string list \<Rightarrow> string list option" where
  "cast_entries m [] = Some []"
| "cast_entries m (key # keys) =
     (case m key of
        None \<Rightarrow> cast_entries m keys
      | Some v \<Rightarrow>
          (case (cast_value v, cast_entries m keys) of
             (Some vs, Some rest) \<Rightarrow> Some (key # vs @ rest)
           | _ \<Rightarrow> None))"

definition cast_to_slice_of_strings :: "any_value entries \<Rightarrow> string list option" where
  "cast_to_slice_of_strings m = cast_entries (map_of m) (sort (map fst m))"

lemma cast_panics:
  assumes "(k, TypedSlice vs) \<in> set m" "keys_distinct m"
  shows "cast_to_slice_of_strings m = None"
proof -
  have "map_of m k = Some (TypedSlice vs)" using assms by simp
  then have "cast_entries (map_of m) ks = None" if "k \<in> set ks" for ks
    using that by (induction ks) (auto simp del: map_of_eq_Some_iff split: option.splits)
  moreover have "k \<in> set (sort (map fst m))" using assms(1) by force
  ultimately show ?thesis by (simp add: cast_to_slice_of_strings_def)
qed

text \<open>\<open>Unzip\<close>: both columns start with \<open>len(slice)\<close> empty strings, as \<open>make([]string, n)\<close> gives.\<close>

fun unzip_loop :: "string list list \<Rightarrow> string list \<Rightarrow> string list \<Rightarrow> (string list \<times> string list) option" where
  "unzip_loop [] col1 col2 = Some (col1, col2)"
| "unzip_loop ([] # rows) col1 col2 = None"
| "unzip_loop ((a # rest) # rows) col1 col2 =
     unzip_loop rows (col1 @ [a]) (case rest of [] \<Rightarrow> col2 | b # _ \<Rightarrow> col2 @ [b])"

definition unzip :: "string list list \<Rightarrow> (string list \<times> string list) option" where
  "unzip rows = unzip_loop rows (replicate (length rows) []) (replicate (length rows) [])"

lemma unzip_loop_eq:
  "\<forall>r \<in> set rows. r \<noteq> [] \<Longrightarrow>
   unzip_loop rows c d =
     Some (c @ map hd rows, d @ map (\<lambda>r. r ! 1) (filter (\<lambda>r. 1 < length r) rows))"
proof (induction rows arbitrary: c d)
  case (Cons r rows)
  then obtain a rest where "r = a # rest" by (cases r) auto
  with Cons show ?case by (cases rest) auto
qed simp

section \<open>Printing\<close>

definition newline :: string where
  "newline = [CHR 0x0A]"

definition quote_char :: string where
  "quote_char = [CHR 0x22]"

text \<open>\<open>fmt\<close>'s \<open>%ns\<close> of a single blank: \<open>n\<close> blanks.\<close>

definition blanks :: "nat \<Rightarrow> string" where
  "blanks n = replicate n (CHR '' '')"

text \<open>\<open>Iline(w, indent, format, a...)\<close> with the format already applied: what it appends to \<open>w\<close>.\<close>

definition iline :: "nat \<Rightarrow> string \<Rightarrow> string" where
  "iline indent text = (if 0 < indent then blanks indent else []) @ text @ newline"

definition slice2string :: "string \<Rightarrow> string list \<Rightarrow> string" where
  "slice2string name rows =
     name @ '' ('' @ digits (length rows) @ ''):'' @ newline
     @ concat (map (\<lambda>s. ''  - '' @ s @ newline) rows)"

section \<open>String maps\<close>

text \<open>\<open>dst\<close> is a map that is not nil, as the callers make it.\<close>

definition include_non_empty :: "string entries \<Rightarrow> string \<Rightarrow> string \<Rightarrow> string entries" where
  "include_non_empty dst key src = (if src = [] then dst else put key src dst)"

definition merge_string_maps :: "string gomap \<Rightarrow> string gomap \<Rightarrow> string list \<Rightarrow> string gomap" where
  "merge_string_maps dst src keys =
     (case src of
        None \<Rightarrow> dst
      | Some es \<Rightarrow>
          (if keys = [] then Some (fold (\<lambda>(k, v). put k v) es (mmake dst))
           else Some (fold (\<lambda>k d. case map_of es k of Some v \<Rightarrow> put k v d | None \<Rightarrow> d) keys (mmake dst))))"

definition map_has_keys :: "string gomap \<Rightarrow> string list \<Rightarrow> bool" where
  "map_has_keys m keys \<longleftrightarrow> list_all (\<lambda>needle. list_ex (\<lambda>(key, _). key = needle) (mentries m)) keys"

definition map2string :: "string \<Rightarrow> string gomap \<Rightarrow> string" where
  "map2string name m =
     name @ '' ('' @ digits (mlen m) @ ''):'' @ newline
     @ concat (map (\<lambda>key. ''  - ['' @ key @ '']='' @ (case mget m key of Some v \<Rightarrow> v | None \<Rightarrow> []) @ newline)
                   (sort (map fst (mentries m))))"

lemma map_of_include_non_empty [simp]:
  "map_of (include_non_empty dst key src) = (if src = [] then map_of dst else (map_of dst)(key \<mapsto> src))"
  by (simp add: include_non_empty_def)

lemma merge_string_maps_all:
  "mwf src \<Longrightarrow> mget (merge_string_maps dst src []) k =
     (case mget src k of Some v \<Rightarrow> Some v | None \<Rightarrow> mget dst k)"
  by (cases dst; cases src)
    (auto simp: merge_string_maps_def entries.lookup_copy_all map_of_rev_distinct map_add_def
      split: option.splits)

lemma merge_selected_lookup:
  "map_of (fold (\<lambda>k d. case map_of es k of Some v \<Rightarrow> put k v d | None \<Rightarrow> d) keys d) k =
     (if k \<in> set keys \<and> map_of es k \<noteq> None then map_of es k else map_of d k)"
  by (induction keys arbitrary: d) (auto split: option.splits)

lemma merge_string_maps_selected:
  "keys \<noteq> [] \<Longrightarrow> mget (merge_string_maps dst src keys) k =
     (if k \<in> set keys \<and> mget src k \<noteq> None then mget src k else mget dst k)"
  by (cases dst; cases src) (auto simp: merge_string_maps_def merge_selected_lookup)

lemma map_has_keys_iff: "map_has_keys m keys \<longleftrightarrow> (\<forall>k \<in> set keys. mhas m k)"
proof -
  have "list_ex (\<lambda>(key, _). key = needle) (mentries m) \<longleftrightarrow> mhas m needle" for needle
    by (force simp: mhas_def mget_def map_of_None_iff list_ex_iff)
  then show ?thesis by (simp add: map_has_keys_def list_all_iff)
qed

section \<open>Booleans as strings\<close>

definition is_string_bool_false :: "string \<Rightarrow> bool" where
  "is_string_bool_false str \<longleftrightarrow>
     to_lower str \<in> set [''0'', ''false'', ''no'', ''off'', ''disabled'']"

definition is_string_bool_true :: "string \<Rightarrow> bool" where
  "is_string_bool_true str \<longleftrightarrow>
     to_lower str \<in> set [''1'', ''true'', ''yes'', ''on'', ''enabled'']"

definition is_string_bool :: "string \<Rightarrow> bool" where
  "is_string_bool str \<longleftrightarrow>
     to_lower str \<in> set [''0'', ''1'', ''false'', ''true'', ''no'', ''yes'', ''off'', ''on'',
                        ''disabled'', ''enabled'']"

definition cast_string_bool_to_01 :: "string \<Rightarrow> bool \<Rightarrow> string" where
  "cast_string_bool_to_01 str default_value =
     (if is_string_bool_true str then ''1''
      else if is_string_bool_false str then ''0''
      else if default_value then ''1'' else ''0'')"

definition cast_string_bool_to_true_false :: "string \<Rightarrow> bool \<Rightarrow> string" where
  "cast_string_bool_to_true_false str default_value =
     (if is_string_bool_true str then ''true''
      else if is_string_bool_false str then ''false''
      else if default_value then ''true'' else ''false'')"

lemma is_string_bool_iff: "is_string_bool s \<longleftrightarrow> is_string_bool_true s \<or> is_string_bool_false s"
  by (auto simp: is_string_bool_def is_string_bool_true_def is_string_bool_false_def)

lemma string_bool_disjoint: "\<not> (is_string_bool_true s \<and> is_string_bool_false s)"
  by (auto simp: is_string_bool_true_def is_string_bool_false_def)

lemma cast_true_false_range:
  "cast_string_bool_to_true_false s d = ''true'' \<or> cast_string_bool_to_true_false s d = ''false''"
  by (simp add: cast_string_bool_to_true_false_def)

section \<open>Identifiers\<close>

definition create_string_id :: "(string \<Rightarrow> string) \<Rightarrow> string \<Rightarrow> int \<Rightarrow> string option" where
  "create_string_id sha1_hex str max_hash_len =
     (let hash = sha1_hex str in
      if max_hash_len = 0 then Some hash
      else if int (length hash) \<le> max_hash_len then Some hash
      else if max_hash_len < 0 then None
      else Some (drop (length hash - nat max_hash_len) hash))"

definition string_head :: "string \<Rightarrow> int \<Rightarrow> string option" where
  "string_head str max_head_len =
     (if int (length str) \<le> max_head_len then Some str
      else if max_head_len < 0 then None
      else Some (take (nat max_head_len) str))"

text \<open>\<open>HashIntoInt\<close>: FNV-1a on 32 bits, read as a 64-bit \<open>int\<close>.\<close>

definition fnv32a :: "8 word list \<Rightarrow> 32 word" where
  "fnv32a b = foldl (\<lambda>h x. (h XOR ucast x) * 16777619) 2166136261 b"

definition hash_into_int :: "8 word list \<Rightarrow> int" where
  "hash_into_int b = uint (fnv32a b)"

text \<open>\<open>%\<close> of Go truncates; its left operand is not negative here. A zero divisor panics.\<close>

definition hash_into_int_topped :: "8 word list \<Rightarrow> int \<Rightarrow> int option" where
  "hash_into_int_topped b limit = (if limit = 0 then None else Some (hash_into_int b mod \<bar>limit\<bar>))"

lemma hash_into_int_bounds: "0 \<le> hash_into_int b \<and> hash_into_int b < 4294967296"
  using uint_lt2p [of "fnv32a b"] by (simp add: hash_into_int_def)

lemma hash_into_int_topped_bounds:
  "hash_into_int_topped b limit = Some r \<Longrightarrow> 0 \<le> r \<and> r < \<bar>limit\<bar>"
  by (auto simp: hash_into_int_topped_def split: if_splits)

section \<open>Paths\<close>

text \<open>
  \<open>abs_path\<close> is \<open>filepath.Abs\<close> (an error is \<open>None\<close>), \<open>is_dir\<close> is \<open>IsDirOk\<close>; both read the
  environment. A path is absolute when it starts with a slash.
\<close>

definition relative_to_base_path :: "(string \<Rightarrow> string option) \<Rightarrow> string \<Rightarrow> string \<Rightarrow> string" where
  "relative_to_base_path abs_path base_path relative_path =
     (if base_path = [] then relative_path
      else (case abs_path (base_path @ ''/'' @ relative_path) of Some p \<Rightarrow> p | None \<Rightarrow> []))"

definition is_abs :: "string \<Rightarrow> bool" where
  "is_abs path \<longleftrightarrow> prefix ''/'' path"

definition prepare_path ::
  "(string \<Rightarrow> string option) \<Rightarrow> (string \<Rightarrow> bool) \<Rightarrow> string \<Rightarrow> string \<Rightarrow> string \<Rightarrow> string" where
  "prepare_path abs_path is_dir path base_path default_relative_path =
     (let p = (if path = [] then relative_to_base_path abs_path base_path default_relative_path
               else if is_abs path then path
               else relative_to_base_path abs_path base_path path)
      in if p \<noteq> [] \<and> \<not> is_dir p then [] else p)"

lemma prepare_path_dir: "prepare_path ab d p b r \<noteq> [] \<Longrightarrow> d (prepare_path ab d p b r)"
  by (auto simp: prepare_path_def Let_def split: if_splits)

text \<open>
  \<open>ReadFilesIntoMap\<close>: \<open>files\<close> lists the directory as \<open>filepath.Glob(path + "/*")\<close> does, each
  file with its base name and its content (\<open>None\<close> when it cannot be read).
\<close>

definition read_files_into_map ::
  "(string \<Rightarrow> (string \<times> string \<times> string option) list) \<Rightarrow> string \<Rightarrow> (string \<Rightarrow> bool) \<Rightarrow> string gomap" where
  "read_files_into_map glob path is_our_file =
     (if path = [] then None
      else let files = fold (\<lambda>(file, base, content) m.
                 if is_our_file file then
                   (case content of
                      Some c \<Rightarrow> if c \<noteq> [] then Some (put base c (mmake m)) else m
                    | None \<Rightarrow> m)
                 else m) (glob path) None
           in if 0 < mlen files then files else None)"

text \<open>\<open>stat\<close> is \<open>os.Stat\<close>: whether the path is a directory, or \<open>None\<close> for an error.\<close>

definition is_dir_ok :: "(string \<Rightarrow> bool option) \<Rightarrow> string \<Rightarrow> bool" where
  "is_dir_ok stat path = (case stat path of Some is_dir \<Rightarrow> is_dir | None \<Rightarrow> False)"

text \<open>\<open>filepath.Ext\<close>: from the last dot of the last path element on.\<close>

definition file_ext :: "string \<Rightarrow> string" where
  "file_ext file =
     (let base = last (go_split (CHR ''/'') file);
          parts = go_split (CHR ''.'') base
      in if length parts = 1 then [] else ''.'' @ last parts)"

definition ext_to_lower :: "string \<Rightarrow> string" where
  "ext_to_lower file = to_lower (file_ext file)"

end
