(* ===== verification/Sha256.thy ===== *)
theory Sha256
  imports Pkg_Util
begin

text \<open>
  \<open>crypto/sha256\<close> and \<open>encoding/hex\<close> of the Go library, which the normalizer uses to replace a
  password by its digest: FIPS 180-4 on 32-bit words. Strings are lists of bytes.
\<close>

type_synonym w32 = "32 word"

definition round_constants :: "w32 list" where
  "round_constants = [
    1116352408, 1899447441, 3049323471, 3921009573, 961987163, 1508970993, 2453635748,
    2870763221, 3624381080, 310598401, 607225278, 1426881987, 1925078388, 2162078206, 2614888103,
    3248222580, 3835390401, 4022224774, 264347078, 604807628, 770255983, 1249150122, 1555081692,
    1996064986, 2554220882, 2821834349, 2952996808, 3210313671, 3336571891, 3584528711,
    113926993, 338241895, 666307205, 773529912, 1294757372, 1396182291, 1695183700, 1986661051,
    2177026350, 2456956037, 2730485921, 2820302411, 3259730800, 3345764771, 3516065817,
    3600352804, 4094571909, 275423344, 430227734, 506948616, 659060556, 883997877, 958139571,
    1322822218, 1537002063, 1747873779, 1955562222, 2024104815, 2227730452, 2361852424,
    2428436474, 2756734187, 3204031479, 3329325298]"

definition initial_hash :: "w32 list" where
  "initial_hash = [
    1779033703, 3144134277, 1013904242, 2773480762, 1359893119, 2600822924, 528734635, 1541459225]"

text \<open>Padding: a one bit, zeros, and the bit length in eight bytes, up to a multiple of 64 bytes.\<close>

definition be_bytes :: "nat \<Rightarrow> int \<Rightarrow> 8 word list" where
  "be_bytes n x = map (\<lambda>i. of_int (x div 256 ^ (n - 1 - i))) [0..<n]"

definition sha_pad :: "8 word list \<Rightarrow> 8 word list" where
  "sha_pad m = m @ [128] @ replicate ((119 - length m mod 64) mod 64) 0 @ be_bytes 8 (8 * int (length m))"

definition be_word :: "8 word list \<Rightarrow> w32" where
  "be_word bs = foldl (\<lambda>acc b. acc * 256 + ucast b) 0 bs"

fun chunks :: "nat \<Rightarrow> nat \<Rightarrow> 'a list \<Rightarrow> 'a list list" where
  "chunks 0 k xs = []"
| "chunks (Suc n) k xs = take k xs # chunks n k (drop k xs)"

definition sigma :: "nat \<Rightarrow> nat \<Rightarrow> nat \<Rightarrow> w32 \<Rightarrow> w32" where
  "sigma a b s x = word_rotr a x XOR word_rotr b x XOR drop_bit s x"

definition big_sigma :: "nat \<Rightarrow> nat \<Rightarrow> nat \<Rightarrow> w32 \<Rightarrow> w32" where
  "big_sigma a b c x = word_rotr a x XOR word_rotr b x XOR word_rotr c x"

text \<open>The schedule, extended word by word.\<close>

definition extend_schedule :: "w32 list \<Rightarrow> w32 list" where
  "extend_schedule w =
     (let t = length w
      in w @ [sigma 17 19 10 (w ! (t - 2)) + w ! (t - 7) + sigma 7 18 3 (w ! (t - 15)) + w ! (t - 16)])"

definition schedule :: "8 word list \<Rightarrow> w32 list" where
  "schedule block = (extend_schedule ^^ 48) (map be_word (chunks 16 4 block))"

fun sha_round :: "w32 \<times> w32 \<Rightarrow> w32 list \<Rightarrow> w32 list" where
  "sha_round (k, w) [a, b, c, d, e, f, g, h] =
     (let t1 = h + big_sigma 6 11 25 e + ((e AND f) XOR (NOT e AND g)) + k + w;
          t2 = big_sigma 2 13 22 a + ((a AND b) XOR (a AND c) XOR (b AND c))
      in [t1 + t2, a, b, c, d + t1, e, f, g])"
| "sha_round _ s = s"

definition compress :: "8 word list \<Rightarrow> w32 list \<Rightarrow> w32 list" where
  "compress block st = map2 (+) st (fold sha_round (zip round_constants (schedule block)) st)"

definition sum256 :: "8 word list \<Rightarrow> 8 word list" where
  "sum256 m =
     (let p = sha_pad m
      in concat (map (\<lambda>w. be_bytes 4 (uint w)) (fold compress (chunks (length p div 64) 64 p) initial_hash)))"

definition hex_digit :: "nat \<Rightarrow> char" where
  "hex_digit n = ''0123456789abcdef'' ! n"

definition hex_encode :: "8 word list \<Rightarrow> string" where
  "hex_encode bs = concat (map (\<lambda>b. [hex_digit (unat b div 16), hex_digit (unat b mod 16)]) bs)"

definition bytes_of :: "string \<Rightarrow> 8 word list" where
  "bytes_of s = map (\<lambda>c. word_of_int (of_char c)) s"

definition sha256_hex :: "string \<Rightarrow> string" where
  "sha256_hex s = hex_encode (sum256 (bytes_of s))"

lemma length_sha_pad: "length (sha_pad m) mod 64 = 0"
proof -
  have "(length m + 1 + (119 - length m mod 64) mod 64 + 8) mod 64 = 0"
  proof -
    define r where "r = length m mod 64"
    have "(length m + 1 + (119 - r) mod 64 + 8) mod 64 = ((119 - r) mod 64 + (length m + 9)) mod 64"
      by (simp add: ac_simps)
    also have "\<dots> = ((119 - r) + (r + 9)) mod 64"
      unfolding r_def by (simp only: mod_add_left_eq) (metis mod_add_left_eq mod_add_right_eq)
    also have "(119 - r) + (r + 9) = 128" by (simp add: r_def)
    finally show ?thesis by (simp add: r_def ac_simps)
  qed
  then show ?thesis by (simp add: sha_pad_def be_bytes_def ac_simps)
qed

lemma length_compress [simp]: "length (compress b st) = length st"
proof -
  have "length (sha_round x s) = length s" for x s
    by (cases "(x, s)" rule: sha_round.cases) (auto simp: Let_def)
  then have "length (fold sha_round xs s) = length s" for xs s
    by (induction xs arbitrary: s) simp_all
  then show ?thesis by (simp add: compress_def)
qed

lemma length_sum256 [simp]: "length (sum256 m) = 32"
proof -
  have len: "length (fold compress bs st) = length st" for bs st
    by (induction bs arbitrary: st) simp_all
  have "sum_list (map (\<lambda>w. length (be_bytes 4 (uint (w :: w32)))) ws) = 4 * length ws" for ws
    by (induction ws) (simp_all add: be_bytes_def)
  then show ?thesis by (simp add: sum256_def Let_def length_concat o_def len initial_hash_def)
qed

lemma length_hex_encode [simp]: "length (hex_encode bs) = 2 * length bs"
  by (induction bs) (simp_all add: hex_encode_def)

text \<open>A digest always has 64 characters, so it is never mistaken for a missing password.\<close>

lemma length_sha256_hex [simp]: "length (sha256_hex s) = 64"
  by (simp add: sha256_hex_def)

section \<open>Other texts in hexadecimal\<close>

text \<open>
  \<open>HashIntoString\<close>, with SHA-1 as a parameter, and \<open>RandomString\<close>, with the three bytes the random
  source gives as a parameter.
\<close>

definition hash_into_string :: "(8 word list \<Rightarrow> 8 word list) \<Rightarrow> 8 word list \<Rightarrow> string" where
  "hash_into_string sha1 b = hex_encode (sha1 b)"

definition random_string :: "(nat \<Rightarrow> 8 word list) \<Rightarrow> string" where
  "random_string random = hex_encode (random 3)"

lemma length_random_string: "(\<And>n. length (random n) = n) \<Longrightarrow> length (random_string random) = 6"
  by (simp add: random_string_def)

end
