(* ===== verification/Daisy_Db.thy ===== *)
theory Daisy_Db
  imports Go_Strings
begin

text \<open>
  \<open>pkg/daisy\<close>: connection parameters, lazily opened connections and their pool. The database
  driver is a parameter: \<open>dr_connect\<close> is \<open>sql.Open\<close> followed by \<open>Ping\<close>, \<open>dr_exec\<close> and \<open>dr_query\<close>
  run a statement; errors are their texts. A connection is identified by its DSN; what it holds is
  whether it has been opened. The two \<open>sync.Map\<close>s of \<open>pool.go\<close>, a field of the pool and a
  variable of the package, are kept apart as the code does.
\<close>

section \<open>Connection parameters\<close>

record ch_params =
  ch_hostname :: string
  ch_username :: string
  ch_password :: string
  ch_port :: int
  ch_dsn :: string
  ch_dsn_hidden :: string

definition make_username_password :: "string \<Rightarrow> string \<Rightarrow> bool \<Rightarrow> string" where
  "make_username_password username password hidden =
     (if hidden then ''***:***@''
      else if username = [] \<and> password = [] then []
      else if password = [] then username @ ''@''
      else username @ '':'' @ password @ ''@'')"

definition make_dsn :: "string \<Rightarrow> string \<Rightarrow> string \<Rightarrow> int \<Rightarrow> bool \<Rightarrow> string" where
  "make_dsn hostname username password port hide =
     ''http://'' @ make_username_password username password hide @ hostname @ '':'' @ itoa port @ ''/''"

definition new_ch_connection_params :: "string \<Rightarrow> string \<Rightarrow> string \<Rightarrow> int \<Rightarrow> ch_params" where
  "new_ch_connection_params hostname username password port =
     \<lparr>ch_hostname = hostname, ch_username = username, ch_password = password, ch_port = port,
      ch_dsn = make_dsn hostname username password port False,
      ch_dsn_hidden = make_dsn hostname username password port True\<rparr>"

definition get_dsn :: "ch_params \<Rightarrow> string" where
  "get_dsn c = ch_dsn c"

definition get_dsn_with_hidden_credentials :: "ch_params \<Rightarrow> string" where
  "get_dsn_with_hidden_credentials c = ch_dsn_hidden c"

section \<open>Connections\<close>

record 'd driver =
  dr_connect :: "string \<Rightarrow> 'd \<Rightarrow> bool \<times> 'd"
  dr_exec :: "string \<Rightarrow> string \<Rightarrow> 'd \<Rightarrow> string option \<times> 'd"
  dr_query :: "string \<Rightarrow> string \<Rightarrow> 'd \<Rightarrow> (string + (string \<times> string) option list) \<times> 'd"

record 'd db_state =
  db_world :: 'd
  db_struct_pool :: "bool entries"
  db_global_pool :: "bool entries"

definition is_connected :: "ch_params \<Rightarrow> 'd db_state \<Rightarrow> bool" where
  "is_connected c s \<longleftrightarrow> map_of (db_global_pool s) (ch_dsn c) = Some True"

definition ensure_connected :: "'d driver \<Rightarrow> ch_params \<Rightarrow> 'd db_state \<Rightarrow> bool \<times> 'd db_state" where
  "ensure_connected dr c s =
     (if is_connected c s then (True, s)
      else case dr_connect dr (ch_dsn c) (db_world s) of
             (ok, d) \<Rightarrow> (ok, s\<lparr>db_world := d,
                db_global_pool := (if ok then put (ch_dsn c) True (db_global_pool s) else db_global_pool s)\<rparr>))"

text \<open>\<open>Exec\<close>: \<open>None\<close> is a nil error.\<close>

definition conn_exec :: "'d driver \<Rightarrow> ch_params \<Rightarrow> string \<Rightarrow> 'd db_state \<Rightarrow> string option \<times> 'd db_state" where
  "conn_exec dr c sql s =
     (if length sql = 0 then (None, s)
      else case ensure_connected dr c s of
             (False, s1) \<Rightarrow> (Some (''FAILED connect('' @ ch_dsn_hidden c @ '') for SQL: '' @ sql), s1)
           | (True, s1) \<Rightarrow>
               (case dr_exec dr (ch_dsn c) sql (db_world s1) of
                  (err, d) \<Rightarrow> (err, s1\<lparr>db_world := d\<rparr>)))"

text \<open>\<open>Query\<close>: the rows, each \<open>None\<close> when it cannot be scanned; an empty query has none.\<close>

definition conn_query ::
  "'d driver \<Rightarrow> ch_params \<Rightarrow> string \<Rightarrow> 'd db_state \<Rightarrow> (string + (string \<times> string) option list) \<times> 'd db_state" where
  "conn_query dr c sql s =
     (if length sql = 0 then (Inr [], s)
      else case ensure_connected dr c s of
             (False, s1) \<Rightarrow> (Inl (''FAILED connect('' @ ch_dsn_hidden c @ '') for SQL: '' @ sql), s1)
           | (True, s1) \<Rightarrow>
               (case dr_query dr (ch_dsn c) sql (db_world s1) of
                  (r, d) \<Rightarrow> (r, s1\<lparr>db_world := d\<rparr>)))"

section \<open>The pool\<close>

definition make_pool_key :: "ch_params \<Rightarrow> string" where
  "make_pool_key c = ch_dsn c"

text \<open>
  \<open>GetPooledDBConnection\<close>: looks into the field, then into the variable, and stores into the
  variable. The connection it returns is the one stored under the key.
\<close>

definition get_pooled :: "ch_params \<Rightarrow> 'd db_state \<Rightarrow> 'd db_state" where
  "get_pooled c s =
     (if map_of (db_struct_pool s) (make_pool_key c) \<noteq> None then s
      else if map_of (db_global_pool s) (make_pool_key c) \<noteq> None then s
      else s\<lparr>db_global_pool := put (make_pool_key c) False (db_global_pool s)\<rparr>)"

text \<open>\<open>DropHost\<close> is still to be written: its body is empty.\<close>

definition drop_host :: "string \<Rightarrow> 'd db_state \<Rightarrow> 'd db_state" where
  "drop_host host s = s"

section \<open>Queries\<close>

text \<open>
  \<open>Close\<close> of a query, nil or not: the rows are closed and the context is cancelled, each once.
  \<open>close_rows\<close> and \<open>cancel\<close> are the effects on the driver; a failed close is only logged.
\<close>

record 'r query =
  qu_rows :: "'r option"
  qu_cancel :: bool

definition close_query ::
  "('r \<Rightarrow> 'd \<Rightarrow> 'd) \<Rightarrow> ('d \<Rightarrow> 'd) \<Rightarrow> 'r query option \<Rightarrow> 'd \<Rightarrow> 'r query option \<times> 'd" where
  "close_query close_rows cancel q d =
     (case q of
        None \<Rightarrow> (None, d)
      | Some x \<Rightarrow>
          (let d1 = (case qu_rows x of None \<Rightarrow> d | Some rows \<Rightarrow> close_rows rows d)
           in (Some (x\<lparr>qu_rows := None, qu_cancel := False\<rparr>), if qu_cancel x then cancel d1 else d1)))"

lemma close_query_twice:
  "close_query close_rows cancel q d = (q1, d1) \<Longrightarrow> close_query close_rows cancel q1 d1 = (q1, d1)"
  by (auto simp: close_query_def Let_def split: option.splits if_splits)

section \<open>The fake connection of the tests\<close>

text \<open>It counts the statements it is given and answers queries from a cache.\<close>

record 'r fake_connection =
  fc_result_cache :: "'r query gomap"
  fc_tracker :: "nat entries"

definition new_fake_connection :: "'r fake_connection" where
  "new_fake_connection = \<lparr>fc_result_cache = Some [], fc_tracker = []\<rparr>"

definition fake_exec :: "string \<Rightarrow> 'r fake_connection \<Rightarrow> 'r fake_connection" where
  "fake_exec sql f = f\<lparr>fc_tracker :=
     put sql ((case map_of (fc_tracker f) sql of Some n \<Rightarrow> n | None \<Rightarrow> 0) + 1) (fc_tracker f)\<rparr>"

definition fake_query :: "string \<Rightarrow> 'r fake_connection \<Rightarrow> (string + 'r query) \<times> 'r fake_connection" where
  "fake_query sql f =
     (if 0 < length sql
      then (Inr (case mget (fc_result_cache f) sql of Some q \<Rightarrow> q | None \<Rightarrow> \<lparr>qu_rows = None, qu_cancel = False\<rparr>),
            fake_exec sql f)
      else (Inl ''sql is empty'', f))"

definition add_query_result :: "string \<Rightarrow> 'r query \<Rightarrow> 'r fake_connection \<Rightarrow> 'r fake_connection" where
  "add_query_result sql q f = f\<lparr>fc_result_cache := Some (put sql q (mmake (fc_result_cache f)))\<rparr>"

text \<open>Its pool makes the connection when there is none.\<close>

record 'r fake_pool =
  fp_conn :: "'r fake_connection option"

definition fake_get_pooled :: "'r fake_pool \<Rightarrow> 'r fake_connection \<times> 'r fake_pool" where
  "fake_get_pooled p =
     (case fp_conn p of
        Some c \<Rightarrow> (c, p)
      | None \<Rightarrow> (new_fake_connection, p\<lparr>fp_conn := Some new_fake_connection\<rparr>))"

lemma fake_query_added:
  "sql \<noteq> [] \<Longrightarrow> fst (fake_query sql (add_query_result sql q f)) = Inr q"
  by (simp add: fake_query_def add_query_result_def)

section \<open>Lemmas\<close>

lemma get_pooled_idem: "get_pooled c (get_pooled c s) = get_pooled c s"
  by (auto simp: get_pooled_def)

lemma get_pooled_keeps:
  "map_of (db_global_pool s) k = Some b \<Longrightarrow> map_of (db_global_pool (get_pooled c s)) k = Some b"
  by (auto simp: get_pooled_def)

lemma struct_pool_unused: "db_struct_pool (get_pooled c s) = db_struct_pool s"
  by (simp add: get_pooled_def)

text \<open>What is logged or returned as an error does not depend on the credentials.\<close>

lemma hidden_dsn: "ch_dsn_hidden (new_ch_connection_params h u p n) = ch_dsn_hidden (new_ch_connection_params h u' p' n)"
  by (simp add: new_ch_connection_params_def make_dsn_def make_username_password_def)

end
