(* ===== verification/Settings.thy ===== *)
theory Settings
  imports Pkg_Util
begin

text \<open>
  \<open>api/v1/type_settings.go\<close>: the values of one configuration section. \<open>Settings\<close> is a Go map
  from paths such as \<open>admin/password\<close> to scalar or vector settings; it may be nil. The map
  holds pointers, which no operation writes through, so the model stores the settings.
\<close>

section \<open>Settings and their accessors\<close>

record setting =
  scaler_type :: bool
  scalar_value :: string
  vector_value :: "string list"

type_synonym settings = "setting gomap"

definition new_scalar_setting :: "string \<Rightarrow> setting" where
  "new_scalar_setting scalar = \<lparr>scaler_type = True, scalar_value = scalar, vector_value = []\<rparr>"

definition new_vector_setting :: "string list \<Rightarrow> setting" where
  "new_vector_setting vector = \<lparr>scaler_type = False, scalar_value = [], vector_value = vector\<rparr>"

definition is_scalar :: "setting \<Rightarrow> bool" where
  "is_scalar s \<longleftrightarrow> scaler_type s"

definition is_vector :: "setting \<Rightarrow> bool" where
  "is_vector s \<longleftrightarrow> \<not> scaler_type s"

definition setting_scalar :: "setting \<Rightarrow> string" where
  "setting_scalar s = scalar_value s"

definition setting_vector :: "setting \<Rightarrow> string list" where
  "setting_vector s = vector_value s"

definition as_vector :: "setting \<Rightarrow> string list" where
  "as_vector s = (if scaler_type s then [scalar_value s] else vector_value s)"

definition setting_string :: "setting \<Rightarrow> string" where
  "setting_string s = (if scaler_type s then scalar_value s else go_join '','' (vector_value s))"

definition new_settings :: settings where
  "new_settings = Some []"

section \<open>JSON\<close>

text \<open>
  What \<open>json.Unmarshal\<close> puts into an \<open>interface{}\<close>. A finite \<open>float64\<close> is a dyadic rational;
  \<open>JNum m k\<close> stands for the value \<open>m / 2 ^ k\<close>.
\<close>

datatype json = JNull | JBool bool | JNum int nat | JStr string | JArr "json list"
  | JObj "(string \<times> json) list"

text \<open>\<open>math.Modf\<close>: the integral part, rounded towards zero, and the numerator of the fraction.\<close>

definition modf :: "int \<Rightarrow> nat \<Rightarrow> int \<times> int" where
  "modf m k = (let whole = sgn m * (\<bar>m\<bar> div 2 ^ k) in (whole, m - whole * 2 ^ k))"

text \<open>
  \<open>ignoreThreshold\<close> is the \<open>float64\<close> next to 0.001, which is \<open>4611686018427388 / 2 ^ 62\<close>.
\<close>

definition above_threshold :: "int \<Rightarrow> nat \<Rightarrow> bool" where
  "above_threshold frac k \<longleftrightarrow> 4611686018427388 * 2 ^ k < frac * 2 ^ 62"

text \<open>\<open>int64(f)\<close>; out of range the amd64 conversion gives the least \<open>int64\<close>.\<close>

definition to_int64 :: "int \<Rightarrow> int" where
  "to_int64 i = (if min_int \<le> i \<and> i \<le> max_int then i else min_int)"

text \<open>\<open>%f\<close>: six decimals, the exact value rounded to the nearest, ties to even.\<close>

definition round6 :: "nat \<Rightarrow> nat \<Rightarrow> nat" where
  "round6 m k = (let n = m * 1000000; q = n div 2 ^ k; r = n mod 2 ^ k
                 in if 2 * r > 2 ^ k \<or> (2 * r = 2 ^ k \<and> odd q) then q + 1 else q)"

definition format_f :: "int \<Rightarrow> nat \<Rightarrow> string" where
  "format_f m k =
     (let q = round6 (nat \<bar>m\<bar>) k; d = digits (q mod 1000000)
      in (if m < 0 then ''-'' else []) @ digits (q div 1000000) @ ''.''
         @ replicate (6 - length d) (CHR ''0'') @ d)"

text \<open>\<open>None\<close> is the result \<open>("", false)\<close>.\<close>

fun unmarshal_scalar :: "json \<Rightarrow> string option" where
  "unmarshal_scalar JNull = None"
| "unmarshal_scalar (JBool b) = Some (if b then ''true'' else ''false'')"
| "unmarshal_scalar (JStr s) = Some s"
| "unmarshal_scalar (JNum m k) =
     (case modf m k of (whole, frac) \<Rightarrow>
        if above_threshold frac k then Some (format_f m k) else Some (itoa (to_int64 whole)))"
| "unmarshal_scalar (JArr _) = None"
| "unmarshal_scalar (JObj _) = None"

fun unmarshal_vector :: "json \<Rightarrow> string list option" where
  "unmarshal_vector (JArr xs) = Some (List.map_filter unmarshal_scalar xs)"
| "unmarshal_vector _ = None"

text \<open>\<open>UnmarshalJSON\<close>; the outer \<open>None\<close> is a decoding error. \<open>null\<close> decodes to a nil map.\<close>

definition unmarshal_entry :: "string \<times> json \<Rightarrow> setting entries \<Rightarrow> setting entries" where
  "unmarshal_entry e settings =
     (case e of (name, untyped) \<Rightarrow>
        (case unmarshal_scalar untyped of
           Some scalar \<Rightarrow> put name (new_scalar_setting scalar) settings
         | None \<Rightarrow>
             (case unmarshal_vector untyped of
                Some vector \<Rightarrow>
                  if 0 < length vector then put name (new_vector_setting vector) settings
                  else settings
              | None \<Rightarrow> settings)))"

definition unmarshal_json :: "settings \<Rightarrow> json \<Rightarrow> settings option" where
  "unmarshal_json settings data =
     (case data of
        JObj raw \<Rightarrow> Some (Some (fold unmarshal_entry raw (mmake settings)))
      | JNull \<Rightarrow> Some (Some (mmake settings))
      | _ \<Rightarrow> None)"

definition marshal_json :: "settings \<Rightarrow> json" where
  "marshal_json settings =
     JObj (map (\<lambda>(name, s). (name, if scaler_type s then JStr (scalar_value s)
                                   else JArr (map JStr (vector_value s)))) (mentries settings))"

section \<open>Typed reads\<close>

definition get_value_as_scalar :: "settings \<Rightarrow> string \<Rightarrow> string option" where
  "get_value_as_scalar settings name =
     (case mget settings name of
        None \<Rightarrow> None
      | Some s \<Rightarrow> if is_scalar s then Some (scalar_value s) else None)"

definition get_value_as_vector :: "settings \<Rightarrow> string \<Rightarrow> string list option" where
  "get_value_as_vector settings name =
     (case mget settings name of
        None \<Rightarrow> None
      | Some s \<Rightarrow> if is_scalar s then None else Some (vector_value s))"

definition get_value_as_int :: "settings \<Rightarrow> string \<Rightarrow> int" where
  "get_value_as_int settings name =
     (case get_value_as_scalar settings name of
        None \<Rightarrow> 0
      | Some value \<Rightarrow> (case atoi value of (i, None) \<Rightarrow> i | (_, Some _) \<Rightarrow> 0))"

text \<open>\<open>int32(i)\<close> keeps the low 32 bits.\<close>

definition fetch_port :: "settings \<Rightarrow> string \<Rightarrow> 32 word" where
  "fetch_port settings name = word_of_int (get_value_as_int settings name)"

definition get_tcp_port :: "settings \<Rightarrow> 32 word" where
  "get_tcp_port settings = fetch_port settings ''tcp_port''"

definition get_http_port :: "settings \<Rightarrow> 32 word" where
  "get_http_port settings = fetch_port settings ''http_port''"

definition get_interserver_http_port :: "settings \<Rightarrow> 32 word" where
  "get_interserver_http_port settings = fetch_port settings ''interserver_http_port''"

section \<open>Merging\<close>

definition merge_from :: "settings \<Rightarrow> settings \<Rightarrow> settings" where
  "merge_from settings src =
     (case src of
        None \<Rightarrow> settings
      | Some es \<Rightarrow> Some (fold (\<lambda>(key, value) d. if map_of d key = None then put key value d else d)
                             es (mmake settings)))"

definition merge_from_cb :: "settings \<Rightarrow> settings \<Rightarrow> (string \<Rightarrow> setting \<Rightarrow> bool) \<Rightarrow> settings" where
  "merge_from_cb settings src accept =
     (case src of
        None \<Rightarrow> settings
      | Some es \<Rightarrow> Some (fold (\<lambda>(key, value) d. if accept key value then put key value d else d)
                             es (mmake settings)))"

section \<open>Sections of a path\<close>

datatype settings_section = SectionEmpty | SectionCommon | SectionUsers | SectionHost

datatype path_error = NoSectionSpecified | UnknownSection string | NoFilenameSpecified

definition common_config_dir :: string where "common_config_dir = ''config.d''"
definition users_config_dir :: string where "users_config_dir = ''users.d''"
definition host_config_dir :: string where "host_config_dir = ''conf.d''"

definition string2section :: "string \<Rightarrow> path_error + settings_section" where
  "string2section section =
     (if equal_fold section ''COMMON'' \<or> equal_fold section common_config_dir then Inr SectionCommon
      else if equal_fold section ''USERS'' \<or> equal_fold section users_config_dir then Inr SectionUsers
      else if equal_fold section ''HOST'' \<or> equal_fold section host_config_dir then Inr SectionHost
      else Inl (UnknownSection section))"

definition get_section_from_path :: "string \<Rightarrow> path_error + settings_section" where
  "get_section_from_path path =
     (let parts = go_split (CHR ''/'') path
      in if length parts < 2 then Inl NoSectionSpecified else string2section (parts ! 0))"

definition get_filename_from_path :: "string \<Rightarrow> path_error + string" where
  "get_filename_from_path path =
     (let parts = go_split (CHR ''/'') path
      in if length parts < 1 then Inl NoFilenameSpecified
         else let filename = parts ! (length parts - 1)
              in if filename = [] then Inl NoFilenameSpecified else Inr filename)"

text \<open>The three tests that decide whether \<open>GetSectionStringMap\<close> keeps a path.\<close>

definition section_wanted :: "settings_section \<Rightarrow> bool \<Rightarrow> string \<Rightarrow> bool" where
  "section_wanted section include_unspecified path =
     (case get_section_from_path path of
        Inr s \<Rightarrow> s = section
      | Inl NoSectionSpecified \<Rightarrow> include_unspecified
      | Inl _ \<Rightarrow> False)"

definition get_section_string_map :: "settings \<Rightarrow> settings_section \<Rightarrow> bool \<Rightarrow> string entries" where
  "get_section_string_map settings section include_unspecified =
     fold (\<lambda>(path, _) m.
        if section_wanted section include_unspecified path then
          (case get_filename_from_path path of
             Inl _ \<Rightarrow> m
           | Inr filename \<Rightarrow>
               (case get_value_as_scalar settings path of
                  Some scalar \<Rightarrow> put filename scalar m
                | None \<Rightarrow> m))
        else m) (mentries settings) []"

fun in_array_section :: "settings_section \<Rightarrow> settings_section list \<Rightarrow> bool" where
  "in_array_section needle [] \<longleftrightarrow> False"
| "in_array_section needle (item # haystack) \<longleftrightarrow>
     (if item = needle then True else in_array_section needle haystack)"

text \<open>\<open>None\<close> for a nil section list.\<close>

definition filter_keeps ::
  "settings_section list option \<Rightarrow> settings_section list option \<Rightarrow> bool \<Rightarrow> string \<Rightarrow> bool" where
  "filter_keeps include_sections exclude_sections include_unspecified path =
     (case get_section_from_path path of
        Inr s \<Rightarrow>
          (case include_sections of None \<Rightarrow> True | Some l \<Rightarrow> in_array_section s l)
          \<and> \<not> (case exclude_sections of None \<Rightarrow> False | Some l \<Rightarrow> in_array_section s l)
      | Inl NoSectionSpecified \<Rightarrow> include_unspecified
      | Inl _ \<Rightarrow> False)"

definition settings_filter ::
  "settings \<Rightarrow> settings_section list option \<Rightarrow> settings_section list option \<Rightarrow> bool \<Rightarrow> setting entries" where
  "settings_filter settings include_sections exclude_sections include_unspecified =
     fold (\<lambda>(path, s) res.
        if filter_keeps include_sections exclude_sections include_unspecified path
        then put path s res else res) (mentries settings) []"

definition as_sorted_slice_of_strings :: "settings \<Rightarrow> string list" where
  "as_sorted_slice_of_strings settings =
     concat (map (\<lambda>key. [key, (case mget settings key of Some s \<Rightarrow> setting_string s | None \<Rightarrow> [])])
                 (sort (map fst (mentries settings))))"

section \<open>Normalizing paths\<close>

definition normalize_key :: "string \<Rightarrow> string" where
  "normalize_key path = trim_char (CHR ''/'') (squeeze (CHR ''/'') path)"

definition needs_normalizing :: "string \<Rightarrow> bool" where
  "needs_normalizing path \<longleftrightarrow> length (normalize_key path) \<noteq> length path"

text \<open>
  First the paths to normalize are collected, then their values are added under the normalized
  paths in the order they were collected, then the paths are deleted. The receiver is not nil.
\<close>

fun add_normalized :: "string list \<Rightarrow> setting entries \<Rightarrow> setting entries" where
  "add_normalized [] es = es"
| "add_normalized (p # ps) es =
     add_normalized ps (case map_of es p of Some v \<Rightarrow> put (normalize_key p) v es | None \<Rightarrow> es)"

definition normalize_paths :: "setting entries \<Rightarrow> setting entries" where
  "normalize_paths es =
     (let todo = filter needs_normalizing (map fst es)
      in fold del todo (add_normalized todo es))"

definition settings_normalize :: "setting entries \<Rightarrow> setting entries" where
  "settings_normalize es = normalize_paths es"

section \<open>Lemmas: merging\<close>

lemma mget_merge_from [simp]:
  "mget (merge_from d s) k = (case mget d k of Some v \<Rightarrow> Some v | None \<Rightarrow> mget s k)"
  by (cases d; cases s)
    (auto simp: merge_from_def entries.lookup_copy_missing map_add_def split: option.splits)

lemma mwf_merge_from [simp, intro]: "mwf d \<Longrightarrow> mwf (merge_from d s)"
  using entries.invar_copy [of "mmake d" "\<lambda>k v d. map_of d k = None"]
  by (cases d; cases s) (auto simp: merge_from_def)

lemma merge_from_nil [simp]: "merge_from d None = d"
  by (simp add: merge_from_def)

lemma merge_from_not_nil: "merge_from d s = None \<longleftrightarrow> d = None \<and> s = None"
  by (auto simp: merge_from_def split: option.splits)

lemma mget_merge_from_cb:
  assumes "mwf src"
  shows "mget (merge_from_cb d src accept) k =
    (case mget src k of
       Some v \<Rightarrow> if accept k v then Some v else mget d k
     | None \<Rightarrow> mget d k)"
proof (cases src)
  case None
  then show ?thesis by (simp add: merge_from_cb_def)
next
  case (Some es)
  have "map_of (rev (filter (\<lambda>(k, v). accept k v) es)) k
      = (case map_of es k of Some v \<Rightarrow> if accept k v then Some v else None | None \<Rightarrow> None)"
    using assms Some
    by (simp add: map_of_rev_distinct keys_distinct_filter map_of_filter_distinct)
  then show ?thesis
    using Some
    by (cases d)
      (auto simp: merge_from_cb_def entries.lookup_copy_accepted map_add_def split: option.splits if_splits)
qed

lemma mwf_merge_from_cb [simp, intro]: "mwf d \<Longrightarrow> mwf (merge_from_cb d s f)"
  using entries.invar_copy [of "mmake d" "\<lambda>k v d. f k v"]
  by (cases d; cases s) (auto simp: merge_from_cb_def)

lemma map_of_settings_filter:
  assumes "mwf settings"
  shows "map_of (settings_filter settings i e u) p = (if filter_keeps i e u p then mget settings p else None)"
proof -
  have "keys_distinct (mentries settings)" using assms by (simp add: mwf_def)
  then have "map_of (rev (filter (\<lambda>(k, v). filter_keeps i e u k) (mentries settings))) p
      = (case mget settings p of Some v \<Rightarrow> if filter_keeps i e u p then Some v else None | None \<Rightarrow> None)"
    by (simp add: map_of_rev_distinct keys_distinct_filter map_of_filter_distinct mget_def)
  then show ?thesis
    using entries.lookup_copy_accepted [of "\<lambda>k v. filter_keeps i e u k" "mentries settings" "[]"]
    by (auto simp: settings_filter_def split: option.splits)
qed

section \<open>Lemmas: JSON\<close>

definition canonical_setting :: "setting \<Rightarrow> bool" where
  "canonical_setting s \<longleftrightarrow>
     (if scaler_type s then vector_value s = [] else scalar_value s = [] \<and> vector_value s \<noteq> [])"

lemma map_filter_JStr [simp]: "List.map_filter unmarshal_scalar (map JStr xs) = xs"
  by (induction xs) (auto simp: List.map_filter_def)

lemma unmarshal_marshal_entry:
  assumes "canonical_setting s"
  shows "unmarshal_entry (name, if scaler_type s then JStr (scalar_value s)
           else JArr (map JStr (vector_value s))) d = put name s d"
  using assms
  by (cases s) (auto simp: canonical_setting_def unmarshal_entry_def new_scalar_setting_def
      new_vector_setting_def split: if_splits)

lemma fold_unmarshal_marshal:
  assumes "\<forall>(k, s) \<in> set es. canonical_setting s"
  shows "fold unmarshal_entry
           (map (\<lambda>(name, s). (name, if scaler_type s then JStr (scalar_value s)
                                  else JArr (map JStr (vector_value s)))) es) d
         = fold (\<lambda>(k, v). put k v) es d"
  using assms
proof (induction es arbitrary: d)
  case (Cons e es)
  then show ?case by (cases e) (simp add: unmarshal_marshal_entry del: unmarshal_scalar.simps)
qed simp

lemma modf_negative: "m < 0 \<Longrightarrow> snd (modf m k) \<le> 0"
proof -
  assume m: "m < 0"
  have "\<bar>m\<bar> div 2 ^ k * 2 ^ k \<le> \<bar>m\<bar>"
    by (simp flip: minus_mod_eq_div_mult)
  with m show ?thesis by (simp add: modf_def Let_def)
qed

lemma modf_whole: "0 \<le> m \<Longrightarrow> modf (m * 2 ^ k) k = (m, 0)"
  by (simp add: modf_def Let_def sgn_if abs_mult)

section \<open>Lemmas: paths\<close>

lemma needs_normalizing_iff: "needs_normalizing p \<longleftrightarrow> normalize_key p \<noteq> p"
proof
  assume "normalize_key p \<noteq> p"
  show "needs_normalizing p"
  proof (rule ccontr)
    assume "\<not> needs_normalizing p"
    then have l: "length (trim_char (CHR ''/'') (squeeze (CHR ''/'') p)) = length p"
      by (simp add: needs_normalizing_def normalize_key_def)
    then have "length (squeeze (CHR ''/'') p) = length p"
      by (metis le_antisym length_squeeze_le length_trim_le)
    with l have "normalize_key p = p"
      by (simp add: normalize_key_def squeeze_length_eq trim_length_eq)
    with \<open>normalize_key p \<noteq> p\<close> show False ..
  qed
qed (auto simp: needs_normalizing_def)

lemma normalize_key_shape:
  "no_double (CHR ''/'') (normalize_key p)"
  "normalize_key p \<noteq> [] \<Longrightarrow> hd (normalize_key p) \<noteq> CHR ''/'' \<and> last (normalize_key p) \<noteq> CHR ''/''"
  by (simp_all add: normalize_key_def no_double_trim no_double_squeeze trim_char_hd trim_char_last)

lemma normalize_key_id:
  "no_double (CHR ''/'') p \<Longrightarrow> p = [] \<or> (hd p \<noteq> CHR ''/'' \<and> last p \<noteq> CHR ''/'') \<Longrightarrow> normalize_key p = p"
  by (simp add: normalize_key_def squeeze_id trim_char_id)

lemma normalize_key_idem [simp]: "normalize_key (normalize_key p) = normalize_key p"
  using normalize_key_shape [of p] by (intro normalize_key_id) auto

lemma not_needs_normalizing [simp]: "\<not> needs_normalizing (normalize_key p)"
  by (simp add: needs_normalizing_iff)

lemma add_normalized_lookup:
  assumes "\<forall>p \<in> set ps. needs_normalizing p \<and> p \<in> keys_of es"
  shows "map_of (add_normalized ps es) k =
    (case find (\<lambda>p. normalize_key p = k) (rev ps) of Some p \<Rightarrow> map_of es p | None \<Rightarrow> map_of es k)"
  using assms
proof (induction ps arbitrary: es)
  case (Cons q ps)
  obtain v where v: "map_of es q = Some v"
    using Cons.prems by (metis list.set_intros(1) map_of_eq_None_iff not_None_eq)
  let ?es = "put (normalize_key q) v es"
  have same: "map_of ?es p = map_of es p" if "needs_normalizing p" for p
    using that by (auto simp: needs_normalizing_iff)
  have "map_of (add_normalized ps ?es) k =
    (case find (\<lambda>p. normalize_key p = k) (rev ps) of Some p \<Rightarrow> map_of ?es p | None \<Rightarrow> map_of ?es k)"
    using Cons.prems by (intro Cons.IH) auto
  moreover have "needs_normalizing p" if "find (\<lambda>p. normalize_key p = k) (rev ps) = Some p" for p
    using find_SomeD [OF that] Cons.prems by auto
  ultimately show ?case
    using v same by (auto simp: find_append split: option.splits)
qed simp

lemma keys_add_normalized:
  "keys_distinct es \<Longrightarrow> keys_distinct (add_normalized ps es)"
  by (induction ps arbitrary: es) (auto split: option.splits)

lemma map_of_fold_del: "map_of (fold del ks es) k = (if k \<in> set ks then None else map_of es k)"
  by (induction ks arbitrary: es) auto

lemma keys_distinct_fold_del: "keys_distinct es \<Longrightarrow> keys_distinct (fold del ks es)"
  by (induction ks arbitrary: es) auto

text \<open>What \<open>normalizePaths\<close> computes, for every order of the entries.\<close>

lemma normalize_paths_lookup:
  "map_of (normalize_paths es) k =
    (if needs_normalizing k then None
     else (case find (\<lambda>p. normalize_key p = k) (rev (filter needs_normalizing (map fst es))) of
             Some p \<Rightarrow> map_of es p | None \<Rightarrow> map_of es k))"
proof -
  let ?todo = "filter needs_normalizing (map fst es)"
  have "map_of (normalize_paths es) k = (if k \<in> set ?todo then None else map_of (add_normalized ?todo es) k)"
    by (simp add: normalize_paths_def Let_def map_of_fold_del)
  also have "map_of (add_normalized ?todo es) k =
    (case find (\<lambda>p. normalize_key p = k) (rev ?todo) of Some p \<Rightarrow> map_of es p | None \<Rightarrow> map_of es k)"
    by (rule add_normalized_lookup) auto
  finally have eq: "map_of (normalize_paths es) k = (if k \<in> set ?todo then None else
    (case find (\<lambda>p. normalize_key p = k) (rev ?todo) of Some p \<Rightarrow> map_of es p | None \<Rightarrow> map_of es k))" .
  show ?thesis
  proof (cases "needs_normalizing k")
    case True
    have "find (\<lambda>p. normalize_key p = k) (rev ?todo) = None"
      using True by (auto simp: find_None_iff needs_normalizing_iff)
    moreover have "map_of es k = None" if "k \<notin> set ?todo"
      using that True by (auto simp: map_of_eq_None_iff)
    ultimately show ?thesis using eq True by simp
  next
    case False
    then show ?thesis using eq by simp
  qed
qed

lemma normalize_paths_keys: "k \<in> keys_of (normalize_paths es) \<Longrightarrow> normalize_key k = k"
  by (metis map_of_eq_None_iff needs_normalizing_iff normalize_paths_lookup)

lemma normalize_paths_distinct [intro, simp]: "keys_distinct es \<Longrightarrow> keys_distinct (normalize_paths es)"
  by (simp add: normalize_paths_def Let_def keys_distinct_fold_del keys_add_normalized)

text \<open>Nothing is lost and nothing is made up.\<close>

lemma normalize_paths_covers:
  assumes "p \<in> keys_of es"
  shows "normalize_key p \<in> keys_of (normalize_paths es)"
proof -
  let ?find = "find (\<lambda>q. normalize_key q = normalize_key p) (rev (filter needs_normalizing (map fst es)))"
  have "map_of (normalize_paths es) (normalize_key p) \<noteq> None"
  proof (cases ?find)
    case None
    then have "\<not> needs_normalizing p" using assms by (auto simp: find_None_iff)
    with assms None show ?thesis
      by (simp add: normalize_paths_lookup needs_normalizing_iff map_of_eq_None_iff)
  next
    case (Some q)
    then have "q \<in> keys_of es"
      using find_SomeD by fastforce
    with Some show ?thesis
      by (simp add: normalize_paths_lookup map_of_eq_None_iff)
  qed
  then show ?thesis by (simp add: map_of_eq_None_iff)
qed

lemma normalize_paths_origin:
  assumes "map_of (normalize_paths es) k = Some v"
  shows "\<exists>p. map_of es p = Some v \<and> normalize_key p = k"
proof -
  have k: "normalize_key k = k"
    using assms by (metis needs_normalizing_iff normalize_paths_lookup option.distinct(1))
  show ?thesis
  proof (cases "find (\<lambda>p. normalize_key p = k) (rev (filter needs_normalizing (map fst es)))")
    case None
    with assms k show ?thesis by (auto simp: normalize_paths_lookup needs_normalizing_iff)
  next
    case (Some p)
    then have "normalize_key p = k" using find_SomeD by fastforce
    with Some assms k show ?thesis by (auto simp: normalize_paths_lookup needs_normalizing_iff)
  qed
qed

lemma normalize_paths_id: "\<forall>k \<in> keys_of es. normalize_key k = k \<Longrightarrow> normalize_paths es = es"
proof -
  assume "\<forall>k \<in> keys_of es. normalize_key k = k"
  then have "filter needs_normalizing (map fst es) = []"
    by (auto simp: filter_empty_conv needs_normalizing_iff)
  then show ?thesis by (simp add: normalize_paths_def)
qed

section \<open>Lemmas: ports\<close>

lemma sint_fetch_port:
  "sint (fetch_port settings name) = signed_take_bit 31 (get_value_as_int settings name)"
  by (simp add: fetch_port_def sint_sbintrunc')

end
