(* ===== verification/Api_Types.thy ===== *)
theory Api_Types
  imports Settings
begin

text \<open>
  The data of \<open>api/v1/daisyinstallation_types.go\<close>, field for field. Maps and the two template
  slices whose nil-ness the code looks at are options; other slices are lists. Of the
  Kubernetes types (\<open>corev1\<close>, \<open>appsv1\<close>, \<open>metav1\<close>) only the fields the operator touches are
  spelled out; the remaining ones are carried along in one opaque field. A storage quantity is
  its exact value; the code compares quantities and tests them for zero. Times are integers.
\<close>

section \<open>Kubernetes data the specification embeds\<close>

record volume_mount =
  vm_name :: string
  vm_mount_path :: string

record probe =
  pr_path :: string
  pr_port :: string
  pr_headers :: "(string \<times> string) list"
  pr_initial_delay_seconds :: int
  pr_period_seconds :: int

record container =
  ct_name :: string
  ct_image :: string
  ct_command :: "string list"
  ct_args :: "string list"
  ct_ports :: "(string \<times> int) list"
  ct_volume_mounts :: "volume_mount list"
  ct_liveness_probe :: "probe option"
  ct_readiness_probe :: "probe option"
  ct_other :: string

record volume =
  vo_name :: string
  vo_config_map :: "(string \<times> int) option"
  vo_other :: string

record pod_spec =
  ps_containers :: "container list"
  ps_volumes :: "volume list"
  ps_host_aliases :: "(string \<times> string list) list"
  ps_other :: string

record pvc_spec =
  pv_storage :: "int option"
  pv_storage_class_name :: "string option"
  pv_volume_mode :: "string option"
  pv_other :: string

record stateful_set_status =
  ss_observed_generation :: int
  ss_ready_replicas :: int
  ss_current_replicas :: int
  ss_updated_replicas :: int
  ss_current_revision :: string
  ss_update_revision :: string

record owner_ref =
  or_api_version :: string
  or_kind :: string
  or_name :: string
  or_uid :: string
  or_controller :: bool
  or_block_owner_deletion :: bool

record object_meta =
  om_name :: string
  om_namespace :: string
  om_uid :: string
  om_resource_version :: string
  om_generation :: int
  om_labels :: "string gomap"
  om_annotations :: "string gomap"
  om_finalizers :: "string list"
  om_deletion_timestamp :: "int option"
  om_owner_references :: "owner_ref list"

section \<open>The specification\<close>

record zookeeper_node =
  zn_host :: string
  zn_port :: int

record zookeeper_config =
  zk_nodes :: "zookeeper_node list"
  zk_session_timeout_ms :: int
  zk_operation_timeout_ms :: int
  zk_root :: string
  zk_identity :: string

record template_names =
  tn_pod_template :: string
  tn_data_volume_claim_template :: string
  tn_log_volume_claim_template :: string

record replica_config =
  rc_zookeeper_fingerprint :: string
  rc_settings_fingerprint :: string
  rc_files_fingerprint :: string

record replica =
  rp_id :: string
  rp_name :: string
  rp_image :: string
  rp_config :: replica_config
  rp_settings :: settings
  rp_files :: settings
  rp_templates :: template_names

record shard =
  sh_name :: string
  sh_weight :: int
  sh_internal_replication :: string
  sh_settings :: settings
  sh_files :: settings
  sh_replica_count :: int
  sh_replicas :: "replica gomap"

record layout =
  lo_type :: string
  lo_shards_count :: int
  lo_replicas_count :: int
  lo_shards :: "shard gomap"
  lo_shards_specified :: bool
  lo_replicas_specified :: bool

record cluster =
  cl_name :: string
  cl_zookeeper :: zookeeper_config
  cl_settings :: settings
  cl_files :: settings
  cl_layout :: layout

record configuration =
  cf_zookeeper :: zookeeper_config
  cf_users :: settings
  cf_profiles :: settings
  cf_quotas :: settings
  cf_settings :: settings
  cf_files :: settings
  cf_clusters :: "cluster gomap"

record pod_template =
  pt_name :: string
  pt_generate_name :: string
  pt_object_meta :: string
  pt_spec :: pod_spec

record volume_claim_template =
  vt_name :: string
  vt_spec :: pvc_spec

record templates =
  tp_pod_templates :: "pod_template list option"
  tp_volume_claim_templates :: "volume_claim_template list option"

record defaults =
  df_replicas_use_fqdn :: string
  df_templates :: template_names

record use_template =
  ut_name :: string
  ut_namespace :: string
  ut_use_type :: string

record validate =
  va_no_validate_storage_class :: bool

record installation_spec =
  sp_validate :: validate
  sp_service_account :: string
  sp_configuration :: configuration
  sp_paused :: bool
  sp_pv_reclaim_policy :: string
  sp_image_pull_policy :: string
  sp_image_pull_secrets :: "string list"
  sp_annotations :: "string gomap"
  sp_tolerations :: "string list"
  sp_templates :: templates
  sp_defaults :: defaults
  sp_use_templates :: "use_template list"

section \<open>The status\<close>

text \<open>\<open>MemberPhase\<close> is a string type; \<open>NoPhase\<close> is its zero value.\<close>

datatype member_phase = NoPhase | NormalPhase | UpgradePhase | ScalePhase | ReadyPhase

definition not_sync :: string where "not_sync = ''NotSync''"
definition sync :: string where "sync = ''Sync''"

record replica_status =
  rs_id :: string
  rs_name :: string
  rs_phase :: member_phase
  rs_health :: bool
  rs_stateful_set :: "stateful_set_status option"
  rs_ip :: string
  rs_leader_count :: int
  rs_state :: string
  rs_last_transition_time :: int
  rs_image :: string

record failure_replica =
  fr_stateful_set_name :: string
  fr_store_id :: string
  fr_created_at :: int

record shard_status =
  st_synced :: bool
  st_phase :: member_phase
  st_name :: string
  st_health :: bool
  st_replica_count :: int
  st_replicas :: "replica_status gomap"
  st_failure_replicas :: "failure_replica gomap"
  st_tombstone_replicas :: "replica_status gomap"

record cluster_status =
  cs_health :: bool
  cs_shards :: "shard_status gomap"

record cluster_condition =
  cc_type :: string
  cc_status :: string
  cc_last_update_time :: int
  cc_last_transition_time :: int
  cc_reason :: string
  cc_message :: string

record installation_status =
  is_version :: string
  is_clusters_count :: int
  is_shards_count :: int
  is_replicas_count :: int
  is_state :: string
  is_phase :: member_phase
  is_updated_replicas_count :: int
  is_added_replicas_count :: int
  is_deleted_replicas_count :: int
  is_ready_replicas :: int
  is_prev_spec :: installation_spec
  is_clusters :: "cluster_status gomap"
  is_conditions :: "cluster_condition list"

record daisy_installation =
  di_kind :: string
  di_api_version :: string
  di_meta :: object_meta
  di_spec :: installation_spec
  di_status :: installation_status

abbreviation di_name :: "daisy_installation \<Rightarrow> string" where
  "di_name di \<equiv> om_name (di_meta di)"

abbreviation di_namespace :: "daisy_installation \<Rightarrow> string" where
  "di_namespace di \<equiv> om_namespace (di_meta di)"

abbreviation di_configuration :: "daisy_installation \<Rightarrow> configuration" where
  "di_configuration di \<equiv> sp_configuration (di_spec di)"

section \<open>Zero values\<close>

text \<open>What \<open>T{}\<close> and \<open>new(T)\<close> give, and what reading a missing map key yields.\<close>

definition zero_zookeeper :: zookeeper_config where
  "zero_zookeeper = \<lparr>zk_nodes = [], zk_session_timeout_ms = 0, zk_operation_timeout_ms = 0,
     zk_root = [], zk_identity = []\<rparr>"

definition zero_template_names :: template_names where
  "zero_template_names = \<lparr>tn_pod_template = [], tn_data_volume_claim_template = [],
     tn_log_volume_claim_template = []\<rparr>"

definition zero_replica :: replica where
  "zero_replica = \<lparr>rp_id = [], rp_name = [], rp_image = [],
     rp_config = \<lparr>rc_zookeeper_fingerprint = [], rc_settings_fingerprint = [], rc_files_fingerprint = []\<rparr>,
     rp_settings = None, rp_files = None, rp_templates = zero_template_names\<rparr>"

definition zero_shard :: shard where
  "zero_shard = \<lparr>sh_name = [], sh_weight = 0, sh_internal_replication = [], sh_settings = None,
     sh_files = None, sh_replica_count = 0, sh_replicas = None\<rparr>"

definition zero_layout :: layout where
  "zero_layout = \<lparr>lo_type = [], lo_shards_count = 0, lo_replicas_count = 0, lo_shards = None,
     lo_shards_specified = False, lo_replicas_specified = False\<rparr>"

definition zero_cluster :: cluster where
  "zero_cluster = \<lparr>cl_name = [], cl_zookeeper = zero_zookeeper, cl_settings = None,
     cl_files = None, cl_layout = zero_layout\<rparr>"

definition zero_configuration :: configuration where
  "zero_configuration = \<lparr>cf_zookeeper = zero_zookeeper, cf_users = None, cf_profiles = None,
     cf_quotas = None, cf_settings = None, cf_files = None, cf_clusters = None\<rparr>"

definition zero_spec :: installation_spec where
  "zero_spec = \<lparr>sp_validate = \<lparr>va_no_validate_storage_class = False\<rparr>, sp_service_account = [],
     sp_configuration = zero_configuration, sp_paused = False, sp_pv_reclaim_policy = [],
     sp_image_pull_policy = [], sp_image_pull_secrets = [], sp_annotations = None,
     sp_tolerations = [], sp_templates = \<lparr>tp_pod_templates = None, tp_volume_claim_templates = None\<rparr>,
     sp_defaults = \<lparr>df_replicas_use_fqdn = [], df_templates = zero_template_names\<rparr>,
     sp_use_templates = []\<rparr>"

definition zero_replica_status :: replica_status where
  "zero_replica_status = \<lparr>rs_id = [], rs_name = [], rs_phase = NoPhase, rs_health = False,
     rs_stateful_set = None, rs_ip = [], rs_leader_count = 0, rs_state = [],
     rs_last_transition_time = 0, rs_image = []\<rparr>"

definition zero_shard_status :: shard_status where
  "zero_shard_status = \<lparr>st_synced = False, st_phase = NoPhase, st_name = [], st_health = False,
     st_replica_count = 0, st_replicas = None, st_failure_replicas = None,
     st_tombstone_replicas = None\<rparr>"

definition zero_cluster_status :: cluster_status where
  "zero_cluster_status = \<lparr>cs_health = False, cs_shards = None\<rparr>"

definition zero_status :: installation_status where
  "zero_status = \<lparr>is_version = [], is_clusters_count = 0, is_shards_count = 0,
     is_replicas_count = 0, is_state = [], is_phase = NoPhase, is_updated_replicas_count = 0,
     is_added_replicas_count = 0, is_deleted_replicas_count = 0, is_ready_replicas = 0,
     is_prev_spec = zero_spec, is_clusters = None, is_conditions = []\<rparr>"

definition zero_meta :: object_meta where
  "zero_meta = \<lparr>om_name = [], om_namespace = [], om_uid = [], om_resource_version = [],
     om_generation = 0, om_labels = None, om_annotations = None, om_finalizers = [],
     om_deletion_timestamp = None, om_owner_references = []\<rparr>"

definition zero_installation :: daisy_installation where
  "zero_installation = \<lparr>di_kind = [], di_api_version = [], di_meta = zero_meta,
     di_spec = zero_spec, di_status = zero_status\<rparr>"

lemmas zero_defs =
  zero_zookeeper_def zero_template_names_def zero_replica_def zero_shard_def zero_layout_def
  zero_cluster_def zero_configuration_def zero_spec_def zero_replica_status_def
  zero_shard_status_def zero_cluster_status_def zero_status_def zero_meta_def
  zero_installation_def

text \<open>Reading \<open>m[k]\<close> without the second result: the zero value when the key is missing.\<close>

definition mget_or :: "'v \<Rightarrow> 'v gomap \<Rightarrow> string \<Rightarrow> 'v" where
  "mget_or zero m k = (case mget m k of Some v \<Rightarrow> v | None \<Rightarrow> zero)"

end
