(* ===== verification/Pkg_Label.thy ===== *)
theory Pkg_Label
  imports Go_Strings
begin

text \<open>
  The labels of \<open>pkg/label/label.go\<close>. A \<open>Label\<close> is a Go map made by \<open>New\<close> or \<open>Copy\<close>, hence
  never nil; the methods that add a pair mutate it and return it, the model returns the map
  after the mutation. Which labels share a map is the business of the callers.
\<close>

type_synonym label = "string entries"

definition name_label_key :: string where "name_label_key = ''app.kubernetes.io/name''"
definition managed_by_label_key :: string where "managed_by_label_key = ''app.kubernetes.io/managed-by''"
definition component_label_key :: string where "component_label_key = ''app.kubernetes.io/component''"
definition instance_label_key :: string where "instance_label_key = ''app.kubernetes.io/instance''"
definition namespace_label_key :: string where "namespace_label_key = ''app.kubernetes.io/namespace''"
definition cluster_id_label_key :: string where "cluster_id_label_key = ''daisy.com/cluster-id''"
definition shard_id_label_key :: string where "shard_id_label_key = ''daisy.com/store-id''"
definition replica_id_label_key :: string where "replica_id_label_key = ''daisy.com/replica-id''"
definition config_map_label_key :: string where "config_map_label_key = ''daisy.com/configmap''"
definition label_service :: string where "label_service = ''daisy.com/Service''"

lemmas label_keys =
  name_label_key_def managed_by_label_key_def component_label_key_def instance_label_key_def
  namespace_label_key_def cluster_id_label_key_def shard_id_label_key_def replica_id_label_key_def
  config_map_label_key_def label_service_def

definition label_new :: label where
  "label_new = [(name_label_key, ''daisy''), (managed_by_label_key, ''daisy-operator'')]"

definition lbl_namespace :: "string \<Rightarrow> label \<Rightarrow> label" where
  "lbl_namespace name l = put namespace_label_key name l"

definition lbl_instance :: "string \<Rightarrow> label \<Rightarrow> label" where
  "lbl_instance name l = put instance_label_key name l"

definition lbl_cluster :: "string \<Rightarrow> label \<Rightarrow> label" where
  "lbl_cluster cluster l = put cluster_id_label_key cluster l"

definition lbl_shard_name :: "string \<Rightarrow> label \<Rightarrow> label" where
  "lbl_shard_name name l = put shard_id_label_key name l"

definition lbl_replica_name :: "string \<Rightarrow> label \<Rightarrow> label" where
  "lbl_replica_name name l = put replica_id_label_key name l"

definition lbl_service :: "string \<Rightarrow> label \<Rightarrow> label" where
  "lbl_service svc_type l = put label_service svc_type l"

definition lbl_component :: "string \<Rightarrow> label \<Rightarrow> label" where
  "lbl_component name l = put component_label_key name l"

definition lbl_shard :: "label \<Rightarrow> label" where
  "lbl_shard l = lbl_component ''shard'' l"

definition lbl_replica :: "label \<Rightarrow> label" where
  "lbl_replica l = lbl_component ''replica'' l"

definition add_label :: "string \<Rightarrow> string \<Rightarrow> label \<Rightarrow> label" where
  "add_label key val l = (if 0 < length key then put key val l else l)"

definition config_map_type :: "string \<Rightarrow> label \<Rightarrow> label" where
  "config_map_type val l = add_label config_map_label_key val l"

text \<open>\<open>Copy\<close>: a new map with the same pairs.\<close>

definition label_copy :: "label \<Rightarrow> label" where
  "label_copy l = fold (\<lambda>(k, v). put k v) l []"

definition label_string :: "label \<Rightarrow> string" where
  "label_string l = go_join '','' (map (\<lambda>(k, v). k @ ''='' @ v) l)"

definition is_managed_by_daisy_operator :: "label \<Rightarrow> bool" where
  "is_managed_by_daisy_operator l \<longleftrightarrow>
     (case map_of l managed_by_label_key of Some v \<Rightarrow> v = ''daisy-operator'' | None \<Rightarrow> False)"

definition is_daisy_installation_pod :: "label \<Rightarrow> bool" where
  "is_daisy_installation_pod l \<longleftrightarrow>
     (case map_of l name_label_key of Some v \<Rightarrow> v = ''daisy'' | None \<Rightarrow> False)"

lemmas label_ops =
  lbl_namespace_def lbl_instance_def lbl_cluster_def lbl_shard_name_def lbl_replica_name_def
  lbl_service_def lbl_component_def lbl_shard_def lbl_replica_def add_label_def config_map_type_def

lemma label_new_distinct [simp]: "keys_distinct label_new"
  by (simp add: label_new_def label_keys)

lemma label_copy_lookup: "keys_distinct l \<Longrightarrow> map_of (label_copy l) = map_of l"
  by (simp add: label_copy_def entries.lookup_copy_all map_of_rev_distinct)

text \<open>\<open>labelReplica\<close> of \<open>util.go\<close>: the label set that selects one replica.\<close>

definition replica_label :: "string \<Rightarrow> string \<Rightarrow> string \<Rightarrow> string \<Rightarrow> label" where
  "replica_label inst cluster shard replica =
     lbl_replica_name replica (lbl_shard_name shard (lbl_cluster cluster (lbl_instance inst label_new)))"

lemma replica_label_lookup:
  "map_of (replica_label i c s r) instance_label_key = Some i"
  "map_of (replica_label i c s r) cluster_id_label_key = Some c"
  "map_of (replica_label i c s r) shard_id_label_key = Some s"
  "map_of (replica_label i c s r) replica_id_label_key = Some r"
  "map_of (replica_label i c s r) managed_by_label_key = Some ''daisy-operator''"
  by (simp_all add: replica_label_def label_ops label_new_def label_keys)

lemma replica_label_inject:
  assumes "map_of (replica_label i c s r) = map_of (replica_label i' c' s' r')"
  shows "i = i' \<and> c = c' \<and> s = s' \<and> r = r'"
  using assms replica_label_lookup [of i c s r] replica_label_lookup [of i' c' s' r'] by simp

end
