(* ===== verification/Installation.thy ===== *)
theory Installation
  imports Api_Types Pkg_Label
begin

text \<open>
  \<open>api/v1/type_installation.go\<close>: merging of specifications, inheritance between the levels of an
  installation, the loops over clusters, shards and replicas, and the reads and writes of the
  status. A merge whose source is a nil pointer returns at once; the callers pass the address of
  a field, so the model takes the value. \<open>mergo.Merge(dst, src, WithOverride)\<close>, a third-party
  package, is a parameter.
\<close>

section \<open>Merging lists of named items\<close>

text \<open>
  The loop \<open>MergeFrom\<close> repeats for Zookeeper nodes, pod templates and volume claim templates: an
  item of the source is merged into the first item of the receiver with the same key, or appended
  when there is none.
\<close>

fun merge_one :: "('a \<Rightarrow> 'k) \<Rightarrow> ('a \<Rightarrow> 'a \<Rightarrow> 'a) \<Rightarrow> 'a \<Rightarrow> 'a list \<Rightarrow> 'a list" where
  "merge_one key merge x [] = [x]"
| "merge_one key merge x (y # ys) =
     (if key y = key x then merge y x # ys else y # merge_one key merge x ys)"

definition merge_named :: "('a \<Rightarrow> 'k) \<Rightarrow> ('a \<Rightarrow> 'a \<Rightarrow> 'a) \<Rightarrow> 'a list \<Rightarrow> 'a list \<Rightarrow> 'a list" where
  "merge_named key merge to from_items = fold (merge_one key merge) from_items to"

locale named_merge =
  fixes key :: "'a \<Rightarrow> 'k"
    and merge :: "'a \<Rightarrow> 'a \<Rightarrow> 'a"
  assumes key_merge: "key y = key x \<Longrightarrow> key (merge y x) = key y"
begin

lemma keys_merge_one:
  "map key (merge_one key merge x ys) =
     (if key x \<in> key ` set ys then map key ys else map key ys @ [key x])"
  by (induction ys) (auto simp: key_merge)

lemma keys_merge_named:
  "key ` set (merge_named key merge ys xs) = key ` set ys \<union> key ` set xs"
proof (induction xs arbitrary: ys)
  case (Cons x xs)
  have "key ` set (merge_one key merge x ys) = insert (key x) (key ` set ys)"
    using arg_cong [OF keys_merge_one, of set x ys] by auto
  then show ?case using Cons by (simp add: merge_named_def)
qed (simp add: merge_named_def)

lemma distinct_merge_named:
  "distinct (map key ys) \<Longrightarrow> distinct (map key (merge_named key merge ys xs))"
proof (induction xs arbitrary: ys)
  case (Cons x xs)
  then show ?case by (simp add: merge_named_def keys_merge_one)
qed (simp add: merge_named_def)

lemma prefix_merge_named: "prefix (map key ys) (map key (merge_named key merge ys xs))"
proof (induction xs arbitrary: ys)
  case (Cons x xs)
  have "prefix (map key ys) (map key (merge_one key merge x ys))"
    by (simp add: keys_merge_one)
  also have "prefix \<dots> (map key (merge_named key merge (merge_one key merge x ys) xs))"
    by (rule Cons)
  finally show ?case by (simp add: merge_named_def)
qed (simp add: merge_named_def)

end

section \<open>Zookeeper\<close>

definition zookeeper_is_empty :: "zookeeper_config \<Rightarrow> bool" where
  "zookeeper_is_empty zkc \<longleftrightarrow> length (zk_nodes zkc) = 0"

definition zookeeper_node_key :: "zookeeper_node \<Rightarrow> string \<times> int" where
  "zookeeper_node_key n = (zn_host n, zn_port n)"

definition zookeeper_node_equal :: "zookeeper_node \<Rightarrow> zookeeper_node option \<Rightarrow> bool" where
  "zookeeper_node_equal zk_node to =
     (case to of None \<Rightarrow> False | Some t \<Rightarrow> zn_host zk_node = zn_host t \<and> zn_port zk_node = zn_port t)"

definition zookeeper_merge_from :: "zookeeper_config \<Rightarrow> zookeeper_config \<Rightarrow> zookeeper_config" where
  "zookeeper_merge_from zkc src =
     (let nodes = (if \<not> zookeeper_is_empty src
                   then merge_named zookeeper_node_key (\<lambda>to_node _. to_node) (zk_nodes zkc) (zk_nodes src)
                   else zk_nodes zkc)
      in zkc\<lparr>zk_nodes := nodes,
             zk_session_timeout_ms :=
               (if 0 < zk_session_timeout_ms src then zk_session_timeout_ms src else zk_session_timeout_ms zkc),
             zk_operation_timeout_ms :=
               (if 0 < zk_operation_timeout_ms src then zk_operation_timeout_ms src
                else zk_operation_timeout_ms zkc),
             zk_root := (if zk_root src \<noteq> [] then zk_root src else zk_root zkc),
             zk_identity := (if zk_identity src \<noteq> [] then zk_identity src else zk_identity zkc)\<rparr>)"

interpretation zk_nodes: named_merge zookeeper_node_key "\<lambda>to_node _. to_node"
  by unfold_locales simp

lemma zookeeper_node_equal_key:
  "zookeeper_node_equal n (Some t) \<longleftrightarrow> zookeeper_node_key n = zookeeper_node_key t"
  by (simp add: zookeeper_node_equal_def zookeeper_node_key_def)

section \<open>Templates and defaults\<close>

datatype merge_type = MergeTypeFillEmptyValues | MergeTypeOverrideByNonEmptyValues

text \<open>\<open>mergo.Merge\<close> on the two template types: its result when it is called with override.\<close>

record mergo =
  merge_pod_template :: "pod_template \<Rightarrow> pod_template \<Rightarrow> pod_template"
  merge_volume_claim_template :: "volume_claim_template \<Rightarrow> volume_claim_template \<Rightarrow> volume_claim_template"

definition slice_items :: "'a list option \<Rightarrow> 'a list" where
  "slice_items s = (case s of None \<Rightarrow> [] | Some xs \<Rightarrow> xs)"

definition templates_merge_from :: "mergo \<Rightarrow> templates \<Rightarrow> templates \<Rightarrow> templates" where
  "templates_merge_from mg t src =
     t\<lparr>tp_pod_templates :=
         (if 0 < length (slice_items (tp_pod_templates src))
          then Some (merge_named pt_name (merge_pod_template mg)
                 (slice_items (tp_pod_templates t)) (slice_items (tp_pod_templates src)))
          else tp_pod_templates t),
       tp_volume_claim_templates :=
         (if 0 < length (slice_items (tp_volume_claim_templates src))
          then Some (merge_named vt_name (merge_volume_claim_template mg)
                 (slice_items (tp_volume_claim_templates t)) (slice_items (tp_volume_claim_templates src)))
          else tp_volume_claim_templates t)\<rparr>"

definition template_names_merge_from ::
  "template_names \<Rightarrow> template_names \<Rightarrow> merge_type \<Rightarrow> template_names" where
  "template_names_merge_from tpl_names src ty =
     (case ty of
        MergeTypeFillEmptyValues \<Rightarrow>
          tpl_names\<lparr>
            tn_pod_template :=
              (if tn_pod_template tpl_names = [] then tn_pod_template src else tn_pod_template tpl_names),
            tn_data_volume_claim_template :=
              (if tn_data_volume_claim_template tpl_names = [] then tn_data_volume_claim_template src
               else tn_data_volume_claim_template tpl_names),
            tn_log_volume_claim_template :=
              (if tn_log_volume_claim_template tpl_names = [] then tn_log_volume_claim_template src
               else tn_log_volume_claim_template tpl_names)\<rparr>
      | MergeTypeOverrideByNonEmptyValues \<Rightarrow>
          tpl_names\<lparr>
            tn_pod_template :=
              (if tn_pod_template src \<noteq> [] then tn_pod_template src else tn_pod_template tpl_names),
            tn_data_volume_claim_template :=
              (if tn_data_volume_claim_template src \<noteq> [] then tn_data_volume_claim_template src
               else tn_data_volume_claim_template tpl_names),
            tn_log_volume_claim_template :=
              (if tn_log_volume_claim_template src \<noteq> [] then tn_log_volume_claim_template src
               else tn_log_volume_claim_template tpl_names)\<rparr>)"

definition defaults_merge_from :: "defaults \<Rightarrow> defaults \<Rightarrow> merge_type \<Rightarrow> defaults" where
  "defaults_merge_from d src ty =
     (let d' = (case ty of
                  MergeTypeFillEmptyValues \<Rightarrow>
                    (if df_replicas_use_fqdn src = []
                     then d\<lparr>df_replicas_use_fqdn := df_replicas_use_fqdn src\<rparr> else d)
                | MergeTypeOverrideByNonEmptyValues \<Rightarrow>
                    (if df_replicas_use_fqdn src \<noteq> []
                     then d\<lparr>df_replicas_use_fqdn := df_replicas_use_fqdn src\<rparr> else d))
      in d'\<lparr>df_templates := template_names_merge_from (df_templates d') (df_templates src) ty\<rparr>)"

section \<open>Configuration, specification and installation\<close>

definition configuration_merge_from :: "configuration \<Rightarrow> configuration \<Rightarrow> configuration" where
  "configuration_merge_from c src =
     c\<lparr>cf_zookeeper := zookeeper_merge_from (cf_zookeeper c) (cf_zookeeper src),
       cf_users := merge_from (cf_users c) (cf_users src),
       cf_profiles := merge_from (cf_profiles c) (cf_profiles src),
       cf_quotas := merge_from (cf_quotas c) (cf_quotas src),
       cf_settings := merge_from (cf_settings c) (cf_settings src),
       cf_files := merge_from (cf_files c) (cf_files src),
       cf_clusters := cf_clusters src\<rparr>"

definition spec_merge_from :: "mergo \<Rightarrow> installation_spec \<Rightarrow> installation_spec \<Rightarrow> merge_type \<Rightarrow> installation_spec" where
  "spec_merge_from mg s src ty =
     s\<lparr>sp_paused := (case ty of MergeTypeFillEmptyValues \<Rightarrow> sp_paused s
                              | MergeTypeOverrideByNonEmptyValues \<Rightarrow> sp_paused src),
       sp_defaults := defaults_merge_from (sp_defaults s) (sp_defaults src) ty,
       sp_configuration := configuration_merge_from (sp_configuration s) (sp_configuration src),
       sp_templates := templates_merge_from mg (sp_templates s) (sp_templates src),
       sp_use_templates := sp_use_templates s @ sp_use_templates src\<rparr>"

definition installation_merge_from ::
  "mergo \<Rightarrow> daisy_installation \<Rightarrow> daisy_installation \<Rightarrow> merge_type \<Rightarrow> daisy_installation" where
  "installation_merge_from mg di src ty =
     di\<lparr>di_kind := di_kind src, di_api_version := di_api_version src, di_meta := di_meta src,
        di_spec := spec_merge_from mg (di_spec di) (di_spec src) ty,
        di_status := di_status src\<rparr>"

definition match_full_name :: "daisy_installation option \<Rightarrow> string \<Rightarrow> string \<Rightarrow> bool" where
  "match_full_name di namespace name =
     (case di of None \<Rightarrow> False | Some d \<Rightarrow> di_namespace d = namespace \<and> di_name d = name)"

definition get_instance_name :: "daisy_installation \<Rightarrow> string" where
  "get_instance_name di =
     (case mget (om_labels (di_meta di)) instance_label_key of
        Some inst \<Rightarrow> inst
      | None \<Rightarrow> di_name di)"

section \<open>Loops over clusters, shards and replicas\<close>

text \<open>
  \<open>EnumerateClusters\<close>: a cluster without a name gets its key, the callback may change the
  cluster, the entry is written back. A callback that does not return is \<open>None\<close>.
\<close>

definition enumerate_clusters ::
  "(cluster \<Rightarrow> cluster option) \<Rightarrow> cluster entries \<Rightarrow> cluster entries option" where
  "enumerate_clusters f cs =
     update_each (\<lambda>key c. f (if length (cl_name c) < 1 then c\<lparr>cl_name := key\<rparr> else c)) cs"

definition enumerate_shards ::
  "(shard \<Rightarrow> shard option) \<Rightarrow> shard entries \<Rightarrow> shard entries option" where
  "enumerate_shards f ss = update_each (\<lambda>name s. f s) ss"

definition loop_clusters :: "(string \<Rightarrow> cluster \<Rightarrow> 'r) \<Rightarrow> cluster gomap \<Rightarrow> 'r list" where
  "loop_clusters f cs = map (\<lambda>(name, c). f name c) (mentries cs)"

definition loop_shards :: "(string \<Rightarrow> shard \<Rightarrow> 'r) \<Rightarrow> cluster \<Rightarrow> 'r list" where
  "loop_shards f c = map (\<lambda>(name, s). f name s) (mentries (lo_shards (cl_layout c)))"

text \<open>\<open>LoopAllReplicas\<close>: the replicas in the order the callback sees them.\<close>

definition all_replicas :: "daisy_installation \<Rightarrow> replica list" where
  "all_replicas di =
     concat (loop_clusters (\<lambda>_ c. concat (loop_shards (\<lambda>_ s. map snd (mentries (sh_replicas s))) c))
       (cf_clusters (di_configuration di)))"

section \<open>Inheritance\<close>

definition cluster_inherit_zookeeper :: "daisy_installation \<Rightarrow> cluster \<Rightarrow> cluster" where
  "cluster_inherit_zookeeper di c =
     (if zookeeper_is_empty (cl_zookeeper c)
      then c\<lparr>cl_zookeeper := zookeeper_merge_from (cl_zookeeper c) (cf_zookeeper (di_configuration di))\<rparr>
      else c)"

definition cluster_inherit_settings :: "daisy_installation \<Rightarrow> cluster \<Rightarrow> cluster" where
  "cluster_inherit_settings di c =
     c\<lparr>cl_settings := merge_from (cl_settings c) (cf_settings (di_configuration di))\<rparr>"

definition in_host_section :: "string \<Rightarrow> setting \<Rightarrow> bool" where
  "in_host_section path s =
     (case get_section_from_path path of Inr section \<Rightarrow> section = SectionHost | Inl _ \<Rightarrow> False)"

definition cluster_inherit_files :: "daisy_installation \<Rightarrow> cluster \<Rightarrow> cluster" where
  "cluster_inherit_files di c =
     c\<lparr>cl_files := merge_from_cb (cl_files c) (cf_files (di_configuration di)) in_host_section\<rparr>"

definition shard_inherit_settings :: "cluster \<Rightarrow> shard \<Rightarrow> shard" where
  "shard_inherit_settings c s = s\<lparr>sh_settings := merge_from (sh_settings s) (cl_settings c)\<rparr>"

definition shard_inherit_files :: "cluster \<Rightarrow> shard \<Rightarrow> shard" where
  "shard_inherit_files c s = s\<lparr>sh_files := merge_from (sh_files s) (cl_files c)\<rparr>"

definition replica_inherit_settings :: "shard \<Rightarrow> replica \<Rightarrow> replica" where
  "replica_inherit_settings s r = r\<lparr>rp_settings := merge_from (rp_settings r) (sh_settings s)\<rparr>"

definition replica_inherit_files :: "shard \<Rightarrow> replica \<Rightarrow> replica" where
  "replica_inherit_files s r = r\<lparr>rp_files := merge_from (rp_files r) (sh_files s)\<rparr>"

end
