(* ===== verification/Status.thy ===== *)
theory Status
  imports Installation
begin

text \<open>
  The status part of \<open>api/v1/type_installation.go\<close> and the accesses to the nested status maps.
  A read such as \<open>Status.Clusters[c].Shards[s].Replicas[r]\<close> goes through zero values when a key
  is missing. A write through missing keys ends in the nil map of a zero value and panics: the
  writes return \<open>None\<close> then.
\<close>

section \<open>Nested reads and writes\<close>

definition status_cluster :: "installation_status \<Rightarrow> string \<Rightarrow> cluster_status" where
  "status_cluster st c = mget_or zero_cluster_status (is_clusters st) c"

definition status_shard :: "installation_status \<Rightarrow> string \<Rightarrow> string \<Rightarrow> shard_status" where
  "status_shard st c s = mget_or zero_shard_status (cs_shards (status_cluster st c)) s"

definition status_replica ::
  "installation_status \<Rightarrow> string \<Rightarrow> string \<Rightarrow> string \<Rightarrow> replica_status option" where
  "status_replica st c s r = mget (st_replicas (status_shard st c s)) r"

text \<open>\<open>Status.Clusters[c] = v\<close>\<close>

definition put_cluster_status ::
  "string \<Rightarrow> cluster_status \<Rightarrow> installation_status \<Rightarrow> installation_status option" where
  "put_cluster_status c v st =
     (case is_clusters st of
        None \<Rightarrow> None
      | Some es \<Rightarrow> Some (st\<lparr>is_clusters := Some (put c v es)\<rparr>))"

text \<open>\<open>Status.Clusters[c].Shards[s] = v\<close>: writes the map the cluster status refers to.\<close>

definition put_shard_status ::
  "string \<Rightarrow> string \<Rightarrow> shard_status \<Rightarrow> installation_status \<Rightarrow> installation_status option" where
  "put_shard_status c s v st =
     (case cs_shards (status_cluster st c) of
        None \<Rightarrow> None
      | Some es \<Rightarrow> put_cluster_status c ((status_cluster st c)\<lparr>cs_shards := Some (put s v es)\<rparr>) st)"

text \<open>\<open>Status.Clusters[c].Shards[s].Replicas[r] = v\<close>\<close>

definition put_replica_status ::
  "string \<Rightarrow> string \<Rightarrow> string \<Rightarrow> replica_status \<Rightarrow> installation_status \<Rightarrow> installation_status option" where
  "put_replica_status c s r v st =
     (case st_replicas (status_shard st c s) of
        None \<Rightarrow> None
      | Some es \<Rightarrow> put_shard_status c s ((status_shard st c s)\<lparr>st_replicas := Some (put r v es)\<rparr>) st)"

lemma mget_or_put [simp]:
  "mget_or z (Some (put k v es)) k' = (if k' = k then v else mget_or z (Some es) k')"
  by (simp add: mget_or_def)

lemma mget_or_None [simp]: "mget_or z None k = z"
  by (simp add: mget_or_def)

lemma put_cluster_status_Some:
  "put_cluster_status c v st = Some st' \<Longrightarrow>
   status_cluster st' c' = (if c' = c then v else status_cluster st c')"
  by (auto simp: put_cluster_status_def status_cluster_def split: option.splits)

lemma put_shard_status_Some:
  assumes "put_shard_status c s v st = Some st'"
  shows "status_shard st' c' s' = (if c' = c \<and> s' = s then v else status_shard st c' s')"
  using assms
  by (auto simp: put_shard_status_def status_shard_def split: option.splits
      dest!: put_cluster_status_Some [where c' = c'])

lemma put_replica_status_Some:
  assumes "put_replica_status c s r v st = Some st'"
  shows "status_replica st' c' s' r'
    = (if c' = c \<and> s' = s \<and> r' = r then Some v else status_replica st c' s' r')"
  using assms
  by (auto simp: put_replica_status_def status_replica_def split: option.splits
      dest!: put_shard_status_Some [where c' = c' and s' = s'])

lemma put_status_only_clusters:
  "put_cluster_status c v st = Some st' \<Longrightarrow> \<exists>m. st' = st\<lparr>is_clusters := Some m\<rparr>"
  "put_shard_status c s w st = Some st' \<Longrightarrow> \<exists>m. st' = st\<lparr>is_clusters := Some m\<rparr>"
  "put_replica_status c s r x st = Some st' \<Longrightarrow> \<exists>m. st' = st\<lparr>is_clusters := Some m\<rparr>"
  by (auto simp: put_cluster_status_def put_shard_status_def put_replica_status_def
      split: option.splits)

lemma put_shard_status_defined:
  "put_shard_status c s v st \<noteq> None \<longleftrightarrow> cs_shards (status_cluster st c) \<noteq> None"
  by (auto simp: put_shard_status_def put_cluster_status_def status_cluster_def mget_or_def
      mget_def mentries_def zero_cluster_status_def split: option.splits)

lemma put_replica_status_defined:
  "put_replica_status c s r v st \<noteq> None \<longleftrightarrow> st_replicas (status_shard st c s) \<noteq> None"
proof -
  have "cs_shards (status_cluster st c) \<noteq> None" if "st_replicas (status_shard st c s) \<noteq> None"
    using that by (auto simp: status_shard_def mget_or_def mget_def mentries_def zero_shard_status_def
        split: option.splits)
  then show ?thesis
    using put_shard_status_defined [of c s _ st]
    by (auto simp: put_replica_status_def split: option.splits)
qed

section \<open>Operations of the status\<close>

definition status_in_progress :: string where "status_in_progress = ''InProgress''"
definition status_completed :: string where "status_completed = ''Completed''"
definition status_terminating :: string where "status_terminating = ''Terminating''"

definition status_reset :: "installation_status \<Rightarrow> installation_status" where
  "status_reset s = s\<lparr>is_state := status_in_progress, is_updated_replicas_count := 0,
     is_added_replicas_count := 0, is_deleted_replicas_count := 0\<rparr>"

text \<open>\<open>GetReplicaStatus\<close>: the first status with the name of the replica, in the order of the loops.\<close>

definition all_replica_statuses :: "installation_status \<Rightarrow> replica_status list" where
  "all_replica_statuses s =
     concat (map (\<lambda>(_, cluster_st).
       concat (map (\<lambda>(_, shard_st). map snd (mentries (st_replicas shard_st)))
         (mentries (cs_shards cluster_st)))) (mentries (is_clusters s)))"

definition get_replica_status :: "installation_status \<Rightarrow> replica \<Rightarrow> replica_status option" where
  "get_replica_status s r = find (\<lambda>st. rp_name r = rs_name st) (all_replica_statuses s)"

definition set_replica_status ::
  "string \<Rightarrow> string \<Rightarrow> string \<Rightarrow> replica_status \<Rightarrow> installation_status \<Rightarrow> installation_status" where
  "set_replica_status cluster_name shard_name replica_name status s =
     (case mget (is_clusters s) cluster_name of
        None \<Rightarrow> s
      | Some cs \<Rightarrow>
          (case mget (cs_shards cs) shard_name of
             None \<Rightarrow> s
           | Some sh \<Rightarrow>
               s\<lparr>is_clusters := Some (put cluster_name
                   (cs\<lparr>cs_shards := Some (put shard_name
                      (sh\<lparr>st_replicas := Some (put replica_name status (mmake (st_replicas sh)))\<rparr>)
                      (mentries (cs_shards cs)))\<rparr>)
                   (mentries (is_clusters s)))\<rparr>))"

definition is_all_shard_ready :: "cluster_status \<Rightarrow> bool" where
  "is_all_shard_ready c_status \<longleftrightarrow> list_all (\<lambda>(_, sh). st_health sh) (mentries (cs_shards c_status))"

definition is_all_replica_ready :: "shard_status \<Rightarrow> bool" where
  "is_all_replica_ready s \<longleftrightarrow> list_all (\<lambda>(_, r). rs_phase r = NormalPhase) (mentries (st_replicas s))"

definition is_all_cluster_ready :: "daisy_installation \<Rightarrow> bool" where
  "is_all_cluster_ready di \<longleftrightarrow>
     list_all (\<lambda>(name, _). cs_health (status_cluster (di_status di) name))
       (mentries (cf_clusters (di_configuration di)))"

definition replica_is_ready :: "replica \<Rightarrow> string \<Rightarrow> string \<Rightarrow> installation_status \<Rightarrow> bool" where
  "replica_is_ready r cluster_name shard_name s =
     (case status_replica s cluster_name shard_name (rp_name r) of
        None \<Rightarrow> False
      | Some st \<Rightarrow> rs_phase st = ReadyPhase)"

definition replica_is_sync :: "replica \<Rightarrow> string \<Rightarrow> string \<Rightarrow> installation_status \<Rightarrow> bool" where
  "replica_is_sync r cluster_name shard_name s =
     (case status_replica s cluster_name shard_name (rp_name r) of
        None \<Rightarrow> False
      | Some st \<Rightarrow> rs_state st = sync)"

definition replica_is_normal :: "replica \<Rightarrow> string \<Rightarrow> string \<Rightarrow> installation_status \<Rightarrow> bool" where
  "replica_is_normal r cluster_name shard_name s =
     (case status_replica s cluster_name shard_name (rp_name r) of
        None \<Rightarrow> False
      | Some st \<Rightarrow> rs_phase st = NormalPhase)"

definition can_delete_all_pvcs :: "replica \<Rightarrow> bool" where
  "can_delete_all_pvcs r \<longleftrightarrow> True"

lemma set_replica_status_lookup:
  assumes "mget (is_clusters s) c = Some cs" "mget (cs_shards cs) sh = Some x"
  shows "status_replica (set_replica_status c sh r st s) c' sh' r'
    = (if c' = c \<and> sh' = sh \<and> r' = r then Some st else status_replica s c' sh' r')"
  using assms
  by (auto simp: set_replica_status_def status_replica_def status_shard_def status_cluster_def
      mget_or_def mget_def mmake_def)

lemma set_replica_status_other:
  "\<exists>m. set_replica_status c sh r st s = s\<lparr>is_clusters := m\<rparr>"
  by (auto simp: set_replica_status_def intro: exI [of _ "is_clusters s"] split: option.splits)

section \<open>Shapes of the status that the writes keep\<close>

text \<open>Every replica status is stored under the name it carries.\<close>

definition names_ok :: "installation_status \<Rightarrow> bool" where
  "names_ok st \<longleftrightarrow> (\<forall>c s r x. status_replica st c s r = Some x \<longrightarrow> rs_name x = r)"

lemma status_cluster_update [simp]:
  "status_cluster (st\<lparr>is_ready_replicas := n\<rparr>) = status_cluster st"
  "status_cluster (st\<lparr>is_added_replicas_count := n\<rparr>) = status_cluster st"
  "status_cluster (st\<lparr>is_updated_replicas_count := n\<rparr>) = status_cluster st"
  "status_cluster (st\<lparr>is_deleted_replicas_count := n\<rparr>) = status_cluster st"
  "status_cluster (st\<lparr>is_state := t\<rparr>) = status_cluster st"
  "status_cluster (st\<lparr>is_prev_spec := sp\<rparr>) = status_cluster st"
  by (simp_all add: status_cluster_def fun_eq_iff)

lemma status_shard_cong: "status_cluster st' = status_cluster st \<Longrightarrow> status_shard st' = status_shard st"
  by (simp add: status_shard_def fun_eq_iff)

lemma status_replica_cong: "status_cluster st' = status_cluster st \<Longrightarrow> status_replica st' = status_replica st"
  by (drule status_shard_cong) (simp add: status_replica_def fun_eq_iff)

lemma names_ok_cong: "status_cluster st' = status_cluster st \<Longrightarrow> names_ok st \<Longrightarrow> names_ok st'"
  by (drule status_replica_cong) (simp add: names_ok_def)

lemma put_replica_names_ok:
  "put_replica_status c s r v st = Some st' \<Longrightarrow> names_ok st \<Longrightarrow> rs_name v = r \<Longrightarrow> names_ok st'"
  by (auto simp: names_ok_def put_replica_status_Some split: if_splits)

lemma put_cluster_clusters: "put_cluster_status c v st = Some st' \<Longrightarrow> is_clusters st' \<noteq> None"
  by (auto simp: put_cluster_status_def split: option.splits)

lemma put_shard_shards:
  assumes "put_shard_status c s v st = Some st'"
  shows "cs_shards (status_cluster st' c) \<noteq> None \<and> is_clusters st' \<noteq> None"
proof -
  obtain es where "put_cluster_status c ((status_cluster st c)\<lparr>cs_shards := Some (put s v es)\<rparr>) st = Some st'"
    using assms by (auto simp: put_shard_status_def split: option.splits)
  then show ?thesis
    using put_cluster_status_Some [of c _ st st' c] put_cluster_clusters by fastforce
qed

lemma put_replica_replicas:
  assumes "put_replica_status c s r v st = Some st'"
  shows "st_replicas (status_shard st' c s) \<noteq> None \<and> cs_shards (status_cluster st' c) \<noteq> None
    \<and> is_clusters st' \<noteq> None"
proof -
  obtain es where w: "put_shard_status c s ((status_shard st c s)\<lparr>st_replicas := Some (put r v es)\<rparr>) st = Some st'"
    using assms by (auto simp: put_replica_status_def split: option.splits)
  show ?thesis using put_shard_status_Some [OF w, of c s] put_shard_shards [OF w] by simp
qed

lemma put_shard_names_ok:
  assumes "put_shard_status c s v st = Some st'" "names_ok st"
    and "\<And>r x. mget (st_replicas v) r = Some x \<Longrightarrow> rs_name x = r"
  shows "names_ok st'"
  using assms by (auto simp: names_ok_def status_replica_def put_shard_status_Some split: if_splits)

lemma put_cluster_names_ok:
  assumes "put_cluster_status c v st = Some st'" "names_ok st"
    and "\<And>s r x. mget (st_replicas (mget_or zero_shard_status (cs_shards v) s)) r = Some x \<Longrightarrow> rs_name x = r"
  shows "names_ok st'"
  using assms
  by (auto simp: names_ok_def status_replica_def status_shard_def put_cluster_status_Some split: if_splits)

lemma clusters_of_shards: "cs_shards (status_cluster st c) \<noteq> None \<Longrightarrow> is_clusters st \<noteq> None"
  by (auto simp: status_cluster_def mget_or_def mget_def mentries_def zero_cluster_status_def split: option.splits)

lemma shards_of_replicas: "st_replicas (status_shard st c s) \<noteq> None \<Longrightarrow> cs_shards (status_cluster st c) \<noteq> None"
  by (auto simp: status_shard_def mget_or_def mget_def mentries_def zero_shard_status_def split: option.splits)

lemma replica_status_listed: "status_replica st c s r = Some x \<Longrightarrow> x \<in> set (all_replica_statuses st)"
proof -
  assume "status_replica st c s r = Some x"
  then have r: "(r, x) \<in> set (mentries (st_replicas (status_shard st c s)))"
    by (auto simp: status_replica_def mget_def dest: map_of_SomeD)
  then have s: "(s, status_shard st c s) \<in> set (mentries (cs_shards (status_cluster st c)))"
    by (auto simp: status_shard_def mget_or_def mget_def zero_shard_status_def dest: map_of_SomeD split: option.splits)
  then have "(c, status_cluster st c) \<in> set (mentries (is_clusters st))"
    by (auto simp: status_cluster_def mget_or_def mget_def zero_cluster_status_def dest: map_of_SomeD split: option.splits)
  with r s show ?thesis unfolding all_replica_statuses_def by force
qed

lemma get_replica_status_found:
  assumes "names_ok st" "status_replica st c s (rp_name r) = Some x"
  shows "\<exists>y. get_replica_status st r = Some y \<and> rs_name y = rp_name r"
proof -
  have "rs_name x = rp_name r" using assms by (simp add: names_ok_def)
  then have "get_replica_status st r \<noteq> None"
    using replica_status_listed [OF assms(2)] by (auto simp: get_replica_status_def find_None_iff)
  then show ?thesis by (fastforce simp: get_replica_status_def dest: find_SomeD)
qed

text \<open>The three levels of maps have distinct keys, as Go maps have.\<close>

definition map_wf :: "('v \<Rightarrow> bool) \<Rightarrow> 'v gomap \<Rightarrow> bool" where
  "map_wf P m \<longleftrightarrow> mwf m \<and> (\<forall>p \<in> set (mentries m). P (snd p))"

definition shard_wf :: "shard_status \<Rightarrow> bool" where
  "shard_wf x \<longleftrightarrow> mwf (st_replicas x)"

definition cluster_wf :: "cluster_status \<Rightarrow> bool" where
  "cluster_wf x \<longleftrightarrow> map_wf shard_wf (cs_shards x)"

definition status_wf :: "installation_status \<Rightarrow> bool" where
  "status_wf st \<longleftrightarrow> map_wf cluster_wf (is_clusters st)"

lemma set_put: "set (put k v es) \<subseteq> insert (k, v) (set es)"
proof (induction es)
  case (Cons e es)
  then show ?case by (cases e) (auto simp: put_def)
qed (simp add: put_def)

lemma map_wf_put: "map_wf P (Some es) \<Longrightarrow> P v \<Longrightarrow> map_wf P (Some (put k v es))"
  using set_put [of k v es] by (fastforce simp: map_wf_def)

lemma map_wf_mmake: "map_wf P m \<Longrightarrow> map_wf P (Some (mmake m))"
  by (cases m) (auto simp: map_wf_def)

lemma map_wf_get: "map_wf P m \<Longrightarrow> mget m k = Some v \<Longrightarrow> P v"
  by (fastforce simp: map_wf_def mget_def dest: map_of_SomeD)

lemma map_wf_mget_or: "map_wf P m \<Longrightarrow> P z \<Longrightarrow> P (mget_or z m k)"
  by (auto simp: mget_or_def dest: map_wf_get split: option.splits)

lemma map_wf_mem: "map_wf P m \<Longrightarrow> (k, v) \<in> set (mentries m) \<Longrightarrow> mget m k = Some v"
  by (auto simp: map_wf_def mwf_def mget_def)

lemma wf_zero: "shard_wf zero_shard_status" "cluster_wf zero_cluster_status"
  by (simp_all add: shard_wf_def cluster_wf_def map_wf_def zero_shard_status_def zero_cluster_status_def)

lemma shard_wf_at: "status_wf st \<Longrightarrow> shard_wf (status_shard st c s)"
  and cluster_wf_at: "status_wf st \<Longrightarrow> cluster_wf (status_cluster st c)"
proof -
  show cluster: "cluster_wf (status_cluster st c)" if "status_wf st"
    unfolding status_cluster_def
    by (rule map_wf_mget_or) (use that in \<open>simp_all add: status_wf_def cluster_wf_def map_wf_def zero_cluster_status_def\<close>)
  show "shard_wf (status_shard st c s)" if "status_wf st"
    unfolding status_shard_def
    by (rule map_wf_mget_or [where P = shard_wf])
      (use cluster that in \<open>simp_all add: cluster_wf_def wf_zero\<close>)
qed

lemma put_cluster_wf: "put_cluster_status c v st = Some st' \<Longrightarrow> status_wf st \<Longrightarrow> cluster_wf v \<Longrightarrow> status_wf st'"
  by (auto simp: put_cluster_status_def status_wf_def intro: map_wf_put split: option.splits)

lemma put_shard_wf: "put_shard_status c s v st = Some st' \<Longrightarrow> status_wf st \<Longrightarrow> shard_wf v \<Longrightarrow> status_wf st'"
  using cluster_wf_at [of st c]
  by (auto simp: put_shard_status_def cluster_wf_def intro!: put_cluster_wf [of c _ st st'] map_wf_put
      split: option.splits)

lemma put_replica_wf: "put_replica_status c s r v st = Some st' \<Longrightarrow> status_wf st \<Longrightarrow> status_wf st'"
  using shard_wf_at [of st c s]
  by (auto simp: put_replica_status_def shard_wf_def intro!: put_shard_wf [of c s _ st st'] split: option.splits)

lemma set_replica_wf:
  assumes "status_wf st"
  shows "status_wf (set_replica_status c s r x st)"
proof (cases "mget (is_clusters st) c")
  case None
  then show ?thesis using assms by (simp add: set_replica_status_def)
next
  case (Some cs)
  then have cs: "cluster_wf cs" using assms by (auto simp: status_wf_def dest: map_wf_get)
  show ?thesis
  proof (cases "mget (cs_shards cs) s")
    case None
    then show ?thesis using assms Some by (simp add: set_replica_status_def)
  next
    case sh: (Some sh)
    then have "shard_wf sh" using cs by (auto simp: cluster_wf_def dest: map_wf_get)
    then have "shard_wf (sh\<lparr>st_replicas := Some (put r x (mmake (st_replicas sh)))\<rparr>)"
      by (cases "st_replicas sh") (simp_all add: shard_wf_def)
    then have "cluster_wf (cs\<lparr>cs_shards := Some (put s
        (sh\<lparr>st_replicas := Some (put r x (mmake (st_replicas sh)))\<rparr>) (mentries (cs_shards cs)))\<rparr>)"
      using cs sh by (cases "cs_shards cs") (auto simp: cluster_wf_def intro!: map_wf_put)
    then show ?thesis
      using assms Some sh
      by (cases "is_clusters st") (auto simp: set_replica_status_def status_wf_def intro!: map_wf_put)
  qed
qed

lemma status_wf_cong: "is_clusters st' = is_clusters st \<Longrightarrow> status_wf st' \<longleftrightarrow> status_wf st"
  by (simp add: status_wf_def)

lemma listed_replica_status:
  assumes "status_wf st" "x \<in> set (all_replica_statuses st)"
  shows "\<exists>c s r. status_replica st c s r = Some x"
proof -
  obtain c cs s sh r where
    "(c, cs) \<in> set (mentries (is_clusters st))" "(s, sh) \<in> set (mentries (cs_shards cs))"
    "(r, x) \<in> set (mentries (st_replicas sh))"
    using assms(2) by (auto simp: all_replica_statuses_def)
  moreover from this have "mget (is_clusters st) c = Some cs" "cluster_wf cs"
    using assms(1) by (auto simp: status_wf_def dest: map_wf_mem map_wf_get)
  moreover from this calculation have "mget (cs_shards cs) s = Some sh" "shard_wf sh"
    by (auto simp: cluster_wf_def dest: map_wf_mem map_wf_get)
  ultimately have "status_replica st c s r = Some x"
    by (auto simp: status_replica_def status_shard_def status_cluster_def mget_or_def shard_wf_def mwf_def mget_def)
  then show ?thesis by blast
qed

text \<open>A name that occurs once is found where it is stored.\<close>

lemma get_replica_status_unique:
  assumes "status_wf st" "names_ok st" "status_replica st c s (rp_name r) = Some x"
    and "\<And>c' s'. status_replica st c' s' (rp_name r) \<noteq> None \<Longrightarrow> c' = c \<and> s' = s"
  shows "get_replica_status st r = Some x"
proof -
  obtain y where y: "get_replica_status st r = Some y" "rs_name y = rp_name r"
    using get_replica_status_found [OF assms(2,3)] by blast
  then have "y \<in> set (all_replica_statuses st)" by (auto simp: get_replica_status_def dest: find_SomeD)
  then obtain c' s' r' where at: "status_replica st c' s' r' = Some y"
    using listed_replica_status [OF assms(1)] by blast
  with assms(2) y(2) have "r' = rp_name r" by (auto simp: names_ok_def)
  with at assms(3,4) y show ?thesis by fastforce
qed

end
