(* ===== verification/Member_Context.thy ===== *)
theory Member_Context
  imports Status
begin

text \<open>
  \<open>controllers/daisymanager/member_context.go\<close>: the normalized specification, the context one
  reconciliation threads through its calls, and the counts the status reports.
\<close>

record normalized_spec =
  no_spec :: installation_spec
  no_volume_claim_templates :: "volume_claim_template gomap"
  no_pod_templates :: "pod_template gomap"

record member_context =
  mc_namespace :: string
  mc_installation :: string
  mc_cur_shard :: string
  mc_cur_replica :: string
  mc_cur_cluster :: string
  mc_clusters :: "cluster gomap"
  mc_normalized :: normalized_spec
  mc_owner :: owner_ref

definition get_volume_claim_template ::
  "member_context \<Rightarrow> string \<Rightarrow> volume_claim_template option" where
  "get_volume_claim_template ctx name =
     (case no_volume_claim_templates (mc_normalized ctx) of
        None \<Rightarrow> None
      | Some es \<Rightarrow> map_of es name)"

definition get_daisy_pod_template :: "member_context \<Rightarrow> string \<Rightarrow> pod_template option" where
  "get_daisy_pod_template ctx name =
     (case no_pod_templates (mc_normalized ctx) of
        None \<Rightarrow> None
      | Some es \<Rightarrow> map_of es name)"

definition clusters_count :: "normalized_spec \<Rightarrow> nat" where
  "clusters_count n = mlen (cf_clusters (sp_configuration (no_spec n)))"

definition shards_count :: "normalized_spec \<Rightarrow> nat" where
  "shards_count n =
     sum_list (loop_clusters (\<lambda>_ c. mlen (lo_shards (cl_layout c)))
       (cf_clusters (sp_configuration (no_spec n))))"

definition replicas_count :: "normalized_spec \<Rightarrow> nat" where
  "replicas_count n =
     sum_list (loop_clusters
       (\<lambda>_ c. sum_list (map (\<lambda>(_, s). mlen (sh_replicas s)) (mentries (lo_shards (cl_layout c)))))
       (cf_clusters (sp_configuration (no_spec n))))"

lemma replicas_count_all:
  assumes "di_configuration di = sp_configuration (no_spec n)"
  shows "replicas_count n = length (all_replicas di)"
proof -
  show ?thesis
    by (simp add: replicas_count_def all_replicas_def loop_clusters_def loop_shards_def assms
        mlen_def length_concat split_def o_def)
qed

text \<open>\<open>fillStatus\<close> of \<open>util.go\<close>; \<open>version\<close> is the constant of \<open>pkg/version\<close>.\<close>

definition fill_status :: "string \<Rightarrow> member_context \<Rightarrow> installation_status \<Rightarrow> installation_status" where
  "fill_status version ctx s =
     s\<lparr>is_version := version,
       is_clusters_count := int (clusters_count (mc_normalized ctx)),
       is_shards_count := int (shards_count (mc_normalized ctx)),
       is_replicas_count := int (replicas_count (mc_normalized ctx)),
       is_updated_replicas_count := 0,
       is_deleted_replicas_count := 0,
       is_added_replicas_count := 0,
       is_ready_replicas := 0\<rparr>"

end
