(* ===== verification/Naming.thy ===== *)
theory Naming
  imports Member_Context
begin

text \<open>
  The names the operator gives to its objects (\<open>util.go\<close>), the ordinals it reads back from
  them, and \<open>getNextIndex\<close> of \<open>normalizer.go\<close>, which numbers the replicas of a shard around the
  slots the user has asked to delete. \<open>sets.Int\<close> is a finite set of integers.
\<close>

section \<open>Numbering around the deleted slots\<close>

fun next_index_loop :: "int list \<Rightarrow> int \<Rightarrow> int \<Rightarrow> int \<Rightarrow> int" where
  "next_index_loop [] g c index = c + index - g - 1"
| "next_index_loop (v # tmp) g c index =
     (if v > c then
        (if g + v - c \<ge> index then c + index - g - 1
         else next_index_loop tmp (g + v - c) (v + 1) index)
      else next_index_loop tmp g (v + 1) index)"

definition get_next_index :: "int \<Rightarrow> int set \<Rightarrow> int" where
  "get_next_index index skip =
     (if card skip = 0 then index
      else let tmp = sorted_list_of_set skip;
               index' = index + 1;
               g = hd tmp;
               c = hd tmp + 1
           in if g \<ge> index' then index' - 1 else next_index_loop tmp g c index')"

text \<open>The free numbers from \<open>b\<close> up to \<open>x\<close>, counted from \<open>b\<close>.\<close>

definition free_count :: "int set \<Rightarrow> int \<Rightarrow> int \<Rightarrow> int" where
  "free_count S b x = b + int (card ({b..<x} - S))"

lemma free_count_step_free:
  assumes "b \<le> c" "c \<le> x" "{c..<x} \<inter> S = {}"
  shows "free_count S b x = free_count S b c + (x - c)"
proof -
  have "{b..<x} - S = ({b..<c} - S) \<union> {c..<x}" using assms by auto
  moreover have "({b..<c} - S) \<inter> {c..<x} = {}" by auto
  ultimately have "card ({b..<x} - S) = card ({b..<c} - S) + card {c..<x}"
    by (simp add: card_Un_disjoint)
  with assms show ?thesis by (simp add: free_count_def)
qed

lemma free_count_skip:
  assumes "b \<le> v" "v \<in> S"
  shows "free_count S b (v + 1) = free_count S b v"
proof -
  have "{b..<v + 1} = insert v {b..<v}" using assms by auto
  then have "{b..<v + 1} - S = {b..<v} - S" using assms by simp
  then show ?thesis by (simp add: free_count_def)
qed

lemma next_index_loop_correct:
  assumes "sorted tmp" "distinct tmp" "S \<inter> {c..} = set tmp" "b \<le> c"
    "g = free_count S b c" "g < index"
  shows "next_index_loop tmp g c index \<notin> S \<and> c \<le> next_index_loop tmp g c index
    \<and> free_count S b (next_index_loop tmp g c index) = index - 1"
  using assms
proof (induction tmp g c index rule: next_index_loop.induct)
  case (1 g c index)
  have "S \<inter> {c..} = {}" using 1(3) by simp
  moreover have "{c..<c + index - g - 1} \<subseteq> {c..}" "c + index - g - 1 \<in> {c..}" using 1(6) by auto
  ultimately have "{c..<c + index - g - 1} \<inter> S = {}" "c + index - g - 1 \<notin> S" by blast+
  then have "free_count S b (c + index - g - 1) = g + (index - g - 1)"
    using free_count_step_free [of b c "c + index - g - 1" S] 1(4-6) by simp
  with \<open>c + index - g - 1 \<notin> S\<close> 1(6) show ?case by simp
next
  case (2 v tmp g c index)
  from 2(3-5) have v: "v \<in> S" "c \<le> v" "\<forall>x \<in> S. c \<le> x \<longrightarrow> v \<le> x" by auto
  have "v + 1 \<le> x" if "x \<in> set tmp" for x
    using 2(3,4) that zless_imp_add1_zle [of v x] by (metis distinct.simps(2) order_le_less sorted_simps(2))
  moreover have "set tmp \<subseteq> S" using 2(5) by auto
  moreover have "x \<in> set tmp" if "x \<in> S" "v + 1 \<le> x" for x
  proof -
    have "x \<in> set (v # tmp)" using that 2(5) v(2) by (metis Int_iff atLeast_iff order_trans zle_add1_eq_le less_le_not_le linear)
    with that(2) show ?thesis by auto
  qed
  ultimately have rest: "S \<inter> {v + 1..} = set tmp" by auto
  show ?case
  proof (cases "v > c")
    case True
    have gap: "{c..<x} \<inter> S = {}" if "x \<le> v" for x using v that by auto
    show ?thesis
    proof (cases "g + v - c \<ge> index")
      case stop: True
      let ?r = "c + index - g - 1"
      have "?r < v" "c \<le> ?r" using stop 2(8) by auto
      then have "free_count S b ?r = index - 1"
        using free_count_step_free [of b c ?r S] gap [of ?r] 2(6,7) by simp
      moreover have "?r \<notin> S" using v \<open>?r < v\<close> \<open>c \<le> ?r\<close> by auto
      ultimately show ?thesis using True stop \<open>c \<le> ?r\<close> by simp
    next
      case False
      have "free_count S b (v + 1) = g + v - c"
        using free_count_step_free [of b c v S] gap [of v] free_count_skip [of b v S] v 2(6,7) by simp
      then have "next_index_loop tmp (g + v - c) (v + 1) index \<notin> S
          \<and> v + 1 \<le> next_index_loop tmp (g + v - c) (v + 1) index
          \<and> free_count S b (next_index_loop tmp (g + v - c) (v + 1) index) = index - 1"
        using False 2(3,4,6) v rest by (intro "2.IH"(1) [OF True]) auto
      then show ?thesis using True False v by simp
    qed
  next
    case False
    then have "v = c" using v by simp
    have "next_index_loop tmp g (v + 1) index \<notin> S
        \<and> v + 1 \<le> next_index_loop tmp g (v + 1) index
        \<and> free_count S b (next_index_loop tmp g (v + 1) index) = index - 1"
      using False 2(3,4,6-8) v rest \<open>v = c\<close> free_count_skip [of b v S] by (intro "2.IH"(2)) auto
    then show ?thesis using False v by simp
  qed
qed

lemma get_next_index_empty [simp]: "get_next_index i {} = i"
  by (simp add: get_next_index_def)

lemma get_next_index_cases:
  assumes "finite S" "S \<noteq> {}"
  shows "(i < Min S \<and> get_next_index i S = i)
    \<or> (Min S \<le> i \<and> Min S < get_next_index i S \<and> get_next_index i S \<notin> S
       \<and> free_count S (Min S) (get_next_index i S) = i)"
proof -
  let ?tmp = "sorted_list_of_set S"
  let ?m = "Min S"
  obtain rest where tmp: "?tmp = ?m # rest"
    using assms by (simp add: sorted_list_of_set_nonempty)
  have "set ?tmp = S" "sorted ?tmp" "distinct ?tmp" using assms by simp_all
  then have props: "set (?m # rest) = S" "sorted (?m # rest)" "distinct (?m # rest)"
    unfolding tmp by simp_all
  have "?m + 1 \<le> x" if "x \<in> set rest" for x
    using props(2,3) that zless_imp_add1_zle [of ?m x] by (metis distinct.simps(2) order_le_less sorted_simps(2))
  moreover have "set rest \<subseteq> S" using props(1) by simp blast
  moreover have "x \<in> set rest" if "x \<in> S" "?m + 1 \<le> x" for x
  proof -
    have "x \<in> set (?m # rest)" using that(1) props(1) by blast
    with that(2) show ?thesis by auto
  qed
  ultimately have "S \<inter> {?m + 1..} = set rest" by auto
  with props have rest: "sorted rest" "distinct rest" "S \<inter> {?m + 1..} = set rest" by simp_all
  have card: "card S \<noteq> 0" using assms by simp
  show ?thesis
  proof (cases "i < ?m")
    case True
    then have "get_next_index i S = i"
      using card by (simp add: get_next_index_def tmp)
    with True show ?thesis by simp
  next
    case False
    then have eq: "get_next_index i S = next_index_loop rest ?m (?m + 1) (i + 1)"
      using card by (simp add: get_next_index_def tmp Let_def)
    have "?m \<in> S" using props by auto
    then have "free_count S ?m (?m + 1) = ?m"
      using free_count_skip [of ?m ?m S] by (simp add: free_count_def)
    then have "next_index_loop rest ?m (?m + 1) (i + 1) \<notin> S
        \<and> ?m + 1 \<le> next_index_loop rest ?m (?m + 1) (i + 1)
        \<and> free_count S ?m (next_index_loop rest ?m (?m + 1) (i + 1)) = i + 1 - 1"
      using rest False by (intro next_index_loop_correct) auto
    with False show ?thesis unfolding eq by simp
  qed
qed

lemma get_next_index_not_skipped:
  assumes "finite S"
  shows "get_next_index i S \<notin> S"
proof (cases "S = {}")
  case False
  show ?thesis
    using get_next_index_cases [OF assms False, of i] Min_le [OF assms] by fastforce
qed simp

lemma get_next_index_inject:
  assumes "finite S" "get_next_index i S = get_next_index j S"
  shows "i = j"
proof (cases "S = {}")
  case False
  show ?thesis
    using get_next_index_cases [OF assms(1) False, of i] get_next_index_cases [OF assms(1) False, of j]
      assms(2) by auto
qed (use assms in simp)

text \<open>For slots that are natural numbers the result is the \<open>i\<close>-th number that is not a slot.\<close>

lemma get_next_index_counts:
  assumes "finite S" "\<forall>s \<in> S. 0 \<le> s" "0 \<le> i"
  shows "0 \<le> get_next_index i S \<and> int (card ({0..<get_next_index i S} - S)) = i"
proof (cases "S = {}")
  case True
  with assms show ?thesis by simp
next
  case False
  define m where "m = Min S"
  have m: "0 \<le> m" "\<forall>s \<in> S. m \<le> s" using assms False by (simp_all add: m_def)
  have "{0..<m} \<inter> S = {}" using m by force
  then have "free_count S 0 m = m"
    using free_count_step_free [of 0 0 m S] m by (simp add: free_count_def)
  moreover have "free_count S 0 x = free_count S 0 m + (free_count S m x - m)" if "m \<le> x" for x
  proof -
    have "{0..<x} - S = ({0..<m} - S) \<union> ({m..<x} - S)" using that m by auto
    moreover have "({0..<m} - S) \<inter> ({m..<x} - S) = {}" by auto
    ultimately show ?thesis by (simp add: free_count_def card_Un_disjoint)
  qed
  moreover have "free_count S 0 i = i" if "i < m"
    using free_count_step_free [of 0 0 i S] that assms(3) m(2) by (force simp: free_count_def)
  moreover have "0 \<le> get_next_index i S"
    using get_next_index_cases [OF assms(1) False, of i, folded m_def] m(1) assms(3) by linarith
  ultimately show ?thesis
    using get_next_index_cases [OF assms(1) False, of i, folded m_def]
    by (auto simp: free_count_def)
qed

section \<open>Names\<close>

definition create_shard_name :: "string \<Rightarrow> string \<Rightarrow> int \<Rightarrow> string" where
  "create_shard_name inst cluster_name index = dashed (inst @ ''-'' @ cluster_name) index"

definition create_replica_name :: "string \<Rightarrow> int \<Rightarrow> int set \<Rightarrow> string" where
  "create_replica_name shard_name index skip = dashed shard_name (get_next_index index skip)"

lemma create_shard_name_inject [simp]:
  "create_shard_name d c i = create_shard_name d c j \<longleftrightarrow> i = j"
  by (simp add: create_shard_name_def)

lemma create_replica_name_inject:
  "finite skip \<Longrightarrow> create_replica_name s i skip = create_replica_name s j skip \<longleftrightarrow> i = j"
  by (auto simp: create_replica_name_def dest: get_next_index_inject)

text \<open>\<open>ExtractLastOrdinal\<close> returns what \<open>Atoi\<close> returned, with or without an error.\<close>

definition extract_last_ordinal :: "string \<Rightarrow> int" where
  "extract_last_ordinal name =
     (if 0 < length name then
        (let p = go_split (CHR ''-'') name
         in if 3 \<le> length p then fst (atoi (p ! (length p - 1))) else - 1)
      else - 1)"

lemma extract_last_ordinal_dashed:
  assumes "CHR ''-'' \<in> set p" "0 \<le> i" "i \<le> max_int"
  shows "extract_last_ordinal (dashed p i) = i"
proof -
  have nd: "CHR ''-'' \<notin> set (itoa i)" using assms digits_no_dash by (simp add: itoa_nat)
  have split: "go_split (CHR ''-'') (p @ CHR ''-'' # itoa i) = go_split (CHR ''-'') p @ [itoa i]"
    using nd by (simp add: go_split_append_sep go_split_no_sep)
  have "2 \<le> length (go_split (CHR ''-'') p)"
    using assms(1) by (simp add: length_go_split) (metis Suc_leI count_list_0_iff neq0_conv)
  moreover have "min_int \<le> i" using assms(2) by (simp add: min_int_def)
  ultimately show ?thesis
    using assms split by (simp add: extract_last_ordinal_def dashed_def nth_append atoi_itoa)
qed

definition delete_slots_ann :: string where "delete_slots_ann = ''daisy.com/delete-slots''"

text \<open>
  \<open>GetDeleteSlotsForShard\<close>. \<open>parse_strings\<close> is \<open>json.Unmarshal\<close> into a \<open>[]string\<close>, \<open>None\<close> an error.
\<close>

definition get_delete_slots_for_shard ::
  "(string \<Rightarrow> string list option) \<Rightarrow> object_meta \<Rightarrow> string \<Rightarrow> int set" where
  "get_delete_slots_for_shard parse_strings meta shard_name =
     (case mget (om_annotations meta) delete_slots_ann of
        None \<Rightarrow> {}
      | Some value \<Rightarrow>
          (case parse_strings value of
             None \<Rightarrow> {}
           | Some names \<Rightarrow>
               fold (\<lambda>s slots. if contains s shard_name then insert (extract_last_ordinal s) slots else slots)
                 names {}))"

lemma fold_slots:
  "fold (\<lambda>s slots. if contains s n then insert (extract_last_ordinal s) slots else slots) names X
     = X \<union> extract_last_ordinal ` {s \<in> set names. contains s n}"
  by (induction names arbitrary: X) auto

lemma finite_delete_slots [simp, intro]: "finite (get_delete_slots_for_shard pj meta n)"
  by (auto simp: get_delete_slots_for_shard_def fold_slots split: option.splits)

section \<open>Names from patterns\<close>

definition macros_namespace :: string where "macros_namespace = ''{namespace}''"
definition macros_ins_name :: string where "macros_ins_name = ''{di}''"
definition macros_cluster_name :: string where "macros_cluster_name = ''{cluster}''"
definition macros_replica_name :: string where "macros_replica_name = ''{replica}''"

lemmas macros = macros_namespace_def macros_ins_name_def macros_cluster_name_def macros_replica_name_def

definition new_name_macro_replacer_installation :: "string \<Rightarrow> string \<Rightarrow> (string \<times> string) list" where
  "new_name_macro_replacer_installation namespace name =
     [(macros_namespace, namespace), (macros_ins_name, name)]"

definition new_name_macro_replacer :: "member_context \<Rightarrow> (string \<times> string) list" where
  "new_name_macro_replacer ctx =
     [(macros_namespace, mc_namespace ctx), (macros_ins_name, mc_installation ctx),
      (macros_cluster_name, mc_cur_cluster ctx), (macros_replica_name, mc_cur_replica ctx)]"

definition create_config_map_pod_name :: "member_context \<Rightarrow> string" where
  "create_config_map_pod_name ctx =
     replacer (new_name_macro_replacer ctx) ''di-{di}-deploy-confd-{replica}''"

definition create_config_map_common_name :: "member_context \<Rightarrow> string" where
  "create_config_map_common_name ctx =
     replacer (new_name_macro_replacer ctx) ''di-{di}-common-configd''"

definition create_config_map_common_users_name :: "member_context \<Rightarrow> string" where
  "create_config_map_common_users_name ctx =
     replacer (new_name_macro_replacer ctx) ''di-{di}-common-usersd''"

definition create_installation_service_name :: "daisy_installation \<Rightarrow> string" where
  "create_installation_service_name di =
     replacer (new_name_macro_replacer_installation (di_namespace di) (di_name di)) ''daisy-{di}''"

definition pod_regexp_template :: string where
  "pod_regexp_template =
     ''{di}-[^.]+'' @ [CHR 0x5C] @ ''d+-'' @ [CHR 0x5C] @ ''d+'' @ [CHR 0x5C] @ ''.{namespace}''
     @ [CHR 0x5C] @ ''.svc'' @ [CHR 0x5C] @ ''.cluster'' @ [CHR 0x5C] @ ''.local$''"

definition create_pod_regexp :: "string \<Rightarrow> string \<Rightarrow> string \<Rightarrow> string" where
  "create_pod_regexp namespace name template =
     replacer (new_name_macro_replacer_installation namespace name) template"

definition create_stateful_set_service_name :: "replica \<Rightarrow> string" where
  "create_stateful_set_service_name r = rp_name r"

definition create_pod_hostname :: "replica \<Rightarrow> string" where
  "create_pod_hostname r = create_stateful_set_service_name r"

definition create_pod_fqdn :: "string \<Rightarrow> replica \<Rightarrow> string" where
  "create_pod_fqdn namespace r = create_pod_hostname r @ ''.'' @ namespace"

definition create_pod_fqdns_of_installation :: "daisy_installation \<Rightarrow> string list" where
  "create_pod_fqdns_of_installation di = map (create_pod_fqdn (di_namespace di)) (all_replicas di)"

definition create_pod_fqdns_of_cluster :: "string \<Rightarrow> daisy_installation \<Rightarrow> string list" where
  "create_pod_fqdns_of_cluster cluster_name di =
     (case mget (cf_clusters (di_configuration di)) cluster_name of
        None \<Rightarrow> []
      | Some c \<Rightarrow>
          concat (loop_shards (\<lambda>_ s. map (\<lambda>(_, r). create_pod_hostname r) (mentries (sh_replicas s))) c))"

definition shard_of :: "string \<Rightarrow> string \<Rightarrow> daisy_installation \<Rightarrow> shard option" where
  "shard_of cluster_name shard_name di =
     mget (lo_shards (cl_layout (mget_or zero_cluster (cf_clusters (di_configuration di)) cluster_name)))
       shard_name"

definition create_pod_fqdns_of_shard :: "string \<Rightarrow> string \<Rightarrow> daisy_installation \<Rightarrow> string list" where
  "create_pod_fqdns_of_shard cluster_name shard_name di =
     (case shard_of cluster_name shard_name di of
        None \<Rightarrow> []
      | Some s \<Rightarrow> map (\<lambda>(_, r). create_pod_hostname r) (mentries (sh_replicas s)))"

definition get_normal_pod_fqdns_of_shard :: "string \<Rightarrow> string \<Rightarrow> daisy_installation \<Rightarrow> string list" where
  "get_normal_pod_fqdns_of_shard cluster_name shard_name di =
     (case shard_of cluster_name shard_name di of
        None \<Rightarrow> []
      | Some s \<Rightarrow>
          map (\<lambda>(_, r). create_pod_hostname r)
            (filter (\<lambda>(_, r). replica_is_normal r cluster_name shard_name (di_status di))
              (mentries (sh_replicas s))))"

lemma config_map_names:
  "create_config_map_pod_name ctx = ''di-'' @ mc_installation ctx @ ''-deploy-confd-'' @ mc_cur_replica ctx"
  "create_config_map_common_name ctx = ''di-'' @ mc_installation ctx @ ''-common-configd''"
  "create_config_map_common_users_name ctx = ''di-'' @ mc_installation ctx @ ''-common-usersd''"
  by (simp_all add: create_config_map_pod_name_def create_config_map_common_name_def
      create_config_map_common_users_name_def new_name_macro_replacer_def macros replacer.simps)

lemma installation_service_name: "create_installation_service_name di = ''daisy-'' @ di_name di"
  by (simp add: create_installation_service_name_def new_name_macro_replacer_installation_def macros
      replacer.simps)

definition label_replica :: "member_context \<Rightarrow> replica \<Rightarrow> label" where
  "label_replica ctx r =
     lbl_replica_name (rp_name r) (lbl_shard_name (mc_cur_shard ctx)
       (lbl_cluster (mc_cur_cluster ctx) (lbl_instance (mc_installation ctx) label_new)))"

definition label_installation :: "member_context \<Rightarrow> label" where
  "label_installation ctx = lbl_instance (mc_installation ctx) label_new"

end
