(* ===== verification/Prog.thy ===== *)
theory Prog
  imports Prelude
begin

text \<open>
  Programs with a state, Go errors and panics. A Go function that returns an error is a program
  whose result may be \<open>Err\<close>; a run-time panic, which no code of the repository recovers from, is
  \<open>Panic\<close>. The state after an error or a panic is kept: Go does not undo what was done before.
  \<open>valid P m Q E\<close> is the triple the proofs about such programs use: from a state in \<open>P\<close> the
  program does not panic, ends normally in \<open>Q\<close> or with an error in \<open>E\<close>.
\<close>

datatype api_error = NotFound | Conflict | AlreadyExists | ApiFailure string

datatype error = Api api_error | RequeueError string | Failure string

datatype 'a outcome = Done 'a | Err error | Panic string

type_synonym ('s, 'a) prog = "'s \<Rightarrow> 'a outcome \<times> 's"

definition ret :: "'a \<Rightarrow> ('s, 'a) prog" where
  "ret x s = (Done x, s)"

definition throw :: "error \<Rightarrow> ('s, 'a) prog" where
  "throw e s = (Err e, s)"

definition panic :: "string \<Rightarrow> ('s, 'a) prog" where
  "panic msg s = (Panic msg, s)"

definition bindp :: "('s, 'a) prog \<Rightarrow> ('a \<Rightarrow> ('s, 'b) prog) \<Rightarrow> ('s, 'b) prog" where
  "bindp m f s =
     (case m s of
        (Done x, s') \<Rightarrow> f x s'
      | (Err e, s') \<Rightarrow> (Err e, s')
      | (Panic msg, s') \<Rightarrow> (Panic msg, s'))"

abbreviation andthen :: "('s, 'a) prog \<Rightarrow> ('s, 'b) prog \<Rightarrow> ('s, 'b) prog" where
  "andthen m n \<equiv> bindp m (\<lambda>_. n)"

text \<open>\<open>x, err := m()\<close> with the error inspected instead of returned.\<close>

definition try_prog :: "('s, 'a) prog \<Rightarrow> ('s, error + 'a) prog" where
  "try_prog m s =
     (case m s of
        (Done x, s') \<Rightarrow> (Done (Inr x), s')
      | (Err e, s') \<Rightarrow> (Done (Inl e), s')
      | (Panic msg, s') \<Rightarrow> (Panic msg, s'))"

definition get_state :: "('s, 's) prog" where
  "get_state s = (Done s, s)"

definition gets :: "('s \<Rightarrow> 'a) \<Rightarrow> ('s, 'a) prog" where
  "gets f s = (Done (f s), s)"

definition modify :: "('s \<Rightarrow> 's) \<Rightarrow> ('s, unit) prog" where
  "modify f s = (Done (), f s)"

text \<open>A write that may panic.\<close>

definition modify_or_panic :: "('s \<Rightarrow> 's option) \<Rightarrow> ('s, unit) prog" where
  "modify_or_panic f s =
     (case f s of
        None \<Rightarrow> (Panic ''assignment to entry in nil map'', s)
      | Some s' \<Rightarrow> (Done (), s'))"

text \<open>\<open>for _, x := range xs { if err := f(x); err != nil { return err } }\<close>\<close>

fun each :: "('x \<Rightarrow> ('s, unit) prog) \<Rightarrow> 'x list \<Rightarrow> ('s, unit) prog" where
  "each f [] = ret ()"
| "each f (x # xs) = andthen (f x) (each f xs)"

lemmas prog_defs = ret_def throw_def panic_def get_state_def gets_def modify_def modify_or_panic_def

lemma bindp_ret [simp]: "bindp (ret x) f = f x"
  by (simp add: bindp_def ret_def fun_eq_iff)

lemma bindp_throw [simp]: "bindp (throw e) f = throw e"
  by (simp add: bindp_def throw_def fun_eq_iff)

lemma bindp_assoc: "bindp (bindp m f) g = bindp m (\<lambda>x. bindp (f x) g)"
  by (simp add: bindp_def fun_eq_iff split: prod.splits outcome.splits)

lemma each_append: "each f (xs @ ys) = andthen (each f xs) (each f ys)"
  by (induction xs) (simp_all add: bindp_assoc)

section \<open>Triples\<close>

definition valid ::
  "('s \<Rightarrow> bool) \<Rightarrow> ('s, 'a) prog \<Rightarrow> ('a \<Rightarrow> 's \<Rightarrow> bool) \<Rightarrow> (error \<Rightarrow> 's \<Rightarrow> bool) \<Rightarrow> bool" where
  "valid P m Q E \<longleftrightarrow> (\<forall>s. P s \<longrightarrow>
     (case m s of (Done x, s') \<Rightarrow> Q x s' | (Err e, s') \<Rightarrow> E e s' | (Panic _, _) \<Rightarrow> False))"

lemma validI:
  assumes "\<And>s x s'. P s \<Longrightarrow> m s = (Done x, s') \<Longrightarrow> Q x s'"
    and "\<And>s e s'. P s \<Longrightarrow> m s = (Err e, s') \<Longrightarrow> E e s'"
    and "\<And>s msg s'. P s \<Longrightarrow> m s \<noteq> (Panic msg, s')"
  shows "valid P m Q E"
  using assms by (auto simp: valid_def split: prod.splits outcome.splits)

lemma valid_Done: "valid P m Q E \<Longrightarrow> P s \<Longrightarrow> m s = (Done x, s') \<Longrightarrow> Q x s'"
  by (fastforce simp: valid_def)

lemma valid_Err: "valid P m Q E \<Longrightarrow> P s \<Longrightarrow> m s = (Err e, s') \<Longrightarrow> E e s'"
  by (fastforce simp: valid_def)

lemma valid_no_panic: "valid P m Q E \<Longrightarrow> P s \<Longrightarrow> m s \<noteq> (Panic msg, s')"
  by (fastforce simp: valid_def)

lemma valid_weaken:
  assumes "valid P' m Q' E'" "\<And>s. P s \<Longrightarrow> P' s" "\<And>x s. Q' x s \<Longrightarrow> Q x s" "\<And>e s. E' e s \<Longrightarrow> E e s"
  shows "valid P m Q E"
  using assms unfolding valid_def by (fastforce split: prod.splits outcome.splits)

lemma valid_ret: "(\<And>s. P s \<Longrightarrow> Q x s) \<Longrightarrow> valid P (ret x) Q E"
  by (simp add: valid_def ret_def)

lemma valid_throw: "(\<And>s. P s \<Longrightarrow> E e s) \<Longrightarrow> valid P (throw e) Q E"
  by (simp add: valid_def throw_def)

lemma valid_get_state: "(\<And>s. P s \<Longrightarrow> Q s s) \<Longrightarrow> valid P get_state Q E"
  by (simp add: valid_def get_state_def)

lemma valid_gets: "(\<And>s. P s \<Longrightarrow> Q (f s) s) \<Longrightarrow> valid P (gets f) Q E"
  by (simp add: valid_def gets_def)

lemma valid_modify: "(\<And>s. P s \<Longrightarrow> Q () (f s)) \<Longrightarrow> valid P (modify f) Q E"
  by (simp add: valid_def modify_def)

lemma valid_modify_or_panic:
  "(\<And>s. P s \<Longrightarrow> \<exists>s'. f s = Some s' \<and> Q () s') \<Longrightarrow> valid P (modify_or_panic f) Q E"
  by (fastforce simp: valid_def modify_or_panic_def split: option.splits)

lemma valid_bind:
  assumes "valid P m R E" "\<And>x. valid (R x) (f x) Q E"
  shows "valid P (bindp m f) Q E"
  unfolding valid_def
proof (intro allI impI)
  fix s assume "P s"
  obtain out s' where ms: "m s = (out, s')" by fastforce
  show "case bindp m f s of (Done x, s') \<Rightarrow> Q x s' | (Err e, s') \<Rightarrow> E e s' | (Panic _, _) \<Rightarrow> False"
  proof (cases out)
    case (Done x)
    with ms assms(1) \<open>P s\<close> have "R x s'" by (auto dest: valid_Done)
    then show ?thesis using assms(2) [of x] ms Done by (simp add: bindp_def valid_def)
  next
    case (Err e)
    with ms assms(1) \<open>P s\<close> show ?thesis by (simp add: bindp_def) (metis valid_Err)
  next
    case (Panic msg)
    with ms assms(1) \<open>P s\<close> show ?thesis by (auto dest: valid_no_panic)
  qed
qed

lemma valid_try:
  assumes "valid P m (\<lambda>x. Q (Inr x)) (\<lambda>e. Q (Inl e))"
  shows "valid P (try_prog m) Q E"
  using assms unfolding valid_def try_prog_def by (fastforce split: prod.splits outcome.splits)

lemma valid_if:
  assumes "c \<Longrightarrow> valid P m Q E" "\<not> c \<Longrightarrow> valid P n Q E"
  shows "valid P (if c then m else n) Q E"
  using assms by simp

lemma valid_each:
  assumes "\<And>x. x \<in> set xs \<Longrightarrow> valid I (f x) (\<lambda>_. I) E"
  shows "valid I (each f xs) (\<lambda>_. I) E"
  using assms
proof (induction xs)
  case Nil
  then show ?case by (auto intro: valid_ret)
next
  case (Cons x xs)
  then show ?case by (auto intro: valid_bind [where R = "\<lambda>_. I"])
qed

lemma valid_conj:
  assumes "valid P m Q E" "valid P m Q' E'"
  shows "valid P m (\<lambda>x s. Q x s \<and> Q' x s) (\<lambda>e s. E e s \<and> E' e s)"
  using assms unfolding valid_def by (fastforce split: prod.splits outcome.splits)

text \<open>The state read at the start of a program is one the precondition holds for.\<close>

lemma valid_read:
  assumes "\<And>s0. P s0 \<Longrightarrow> valid (\<lambda>s. P s \<and> s = s0) (f s0) Q E"
  shows "valid P (bindp get_state f) Q E"
  using assms by (fastforce simp: valid_def bindp_def get_state_def)

lemma valid_read_fun:
  assumes "\<And>s0. P s0 \<Longrightarrow> valid (\<lambda>s. P s \<and> g s = g s0) (f (g s0)) Q E"
  shows "valid P (bindp (gets g) f) Q E"
  using assms by (fastforce simp: valid_def bindp_def gets_def)

text \<open>A loop in which each element may add its weight to a bound.\<close>

lemma valid_each_count:
  fixes w :: "'x \<Rightarrow> int"
  assumes "\<And>x n. x \<in> set xs \<Longrightarrow> valid (I n) (f x) (\<lambda>_. I (n + w x)) (\<lambda>_. I (n + w x))"
    and mono: "\<And>n m s. n \<le> m \<Longrightarrow> I n s \<Longrightarrow> I m s" and pos: "\<And>x. x \<in> set xs \<Longrightarrow> 0 \<le> w x"
  shows "valid (I n) (each f xs) (\<lambda>_. I (n + sum_list (map w xs))) (\<lambda>_. I (n + sum_list (map w xs)))"
  using assms(1,3)
proof (induction xs arbitrary: n)
  case Nil
  then show ?case by (auto intro: valid_ret)
next
  case (Cons x xs)
  have rest: "valid (I (n + w x)) (each f xs) (\<lambda>_. I (n + (w x + sum_list (map w xs))))
      (\<lambda>_. I (n + (w x + sum_list (map w xs))))"
    using Cons.IH [of "n + w x"] Cons.prems by (simp add: add.assoc)
  have "0 \<le> sum_list (map w xs)" using Cons.prems(2) by (intro sum_list_nonneg) auto
  then have "valid (I n) (f x) (\<lambda>_. I (n + w x)) (\<lambda>_. I (n + (w x + sum_list (map w xs))))"
    using Cons.prems(1) [of x n] by (auto elim!: valid_weaken intro: mono [rotated])
  then show ?case using rest by (simp add: valid_bind)
qed

section \<open>Programs that keep an invariant\<close>

text \<open>\<open>gives I m Q\<close>: the program does not panic, keeps \<open>I\<close>, errors included, and returns \<open>Q\<close>.\<close>

definition gives :: "('s \<Rightarrow> bool) \<Rightarrow> ('s, 'a) prog \<Rightarrow> ('a \<Rightarrow> bool) \<Rightarrow> bool" where
  "gives I m Q \<longleftrightarrow> valid I m (\<lambda>x s. I s \<and> Q x) (\<lambda>_. I)"

abbreviation keeps :: "('s \<Rightarrow> bool) \<Rightarrow> ('s, 'a) prog \<Rightarrow> bool" where
  "keeps I m \<equiv> gives I m (\<lambda>_. True)"

lemma keeps_ret [preserves]: "keeps I (ret x)"
  by (auto simp: gives_def intro: valid_ret)

lemma gives_ret: "Q x \<Longrightarrow> gives I (ret x) Q"
  by (auto simp: gives_def intro: valid_ret)

lemma keeps_throw [preserves]: "keeps I (throw e)"
  by (auto simp: gives_def intro: valid_throw)

lemma gives_throw [preserves]: "gives I (throw e) Q"
  by (auto simp: gives_def intro: valid_throw)

lemma gives_bind:
  assumes "gives I m Q" "\<And>x. Q x \<Longrightarrow> gives I (f x) Q'"
  shows "gives I (bindp m f) Q'"
  unfolding gives_def
proof (rule valid_bind)
  show "valid I m (\<lambda>x s. I s \<and> Q x) (\<lambda>_. I)" using assms(1) by (simp add: gives_def)
  show "valid (\<lambda>s. I s \<and> Q x) (f x) (\<lambda>x s. I s \<and> Q' x) (\<lambda>_. I)" for x
    using assms(2) [of x] by (cases "Q x") (auto simp: gives_def valid_def)
qed

lemma keeps_bind [preserves]: "keeps I m \<Longrightarrow> (\<And>x. keeps I (f x)) \<Longrightarrow> keeps I (bindp m f)"
  by (rule gives_bind [where Q = "\<lambda>_. True"]) auto

lemma gives_keeps: "gives I m Q \<Longrightarrow> keeps I m"
  unfolding gives_def by (erule valid_weaken) auto

lemma gives_try:
  assumes "gives I m Q"
  shows "gives I (try_prog m) (\<lambda>r. case r of Inl _ \<Rightarrow> True | Inr x \<Rightarrow> Q x)"
  unfolding gives_def by (rule valid_try) (use assms in \<open>auto simp: gives_def\<close>)

lemma keeps_try [preserves]: "keeps I m \<Longrightarrow> keeps I (try_prog m)"
  by (drule gives_try) (auto dest: gives_keeps)

lemma keeps_each [preserves]: "(\<And>x. x \<in> set xs \<Longrightarrow> keeps I (f x)) \<Longrightarrow> keeps I (each f xs)"
  using valid_each [of xs I f "\<lambda>_. I"] by (simp add: gives_def)

lemma keeps_read [preserves]: "(\<And>s. I s \<Longrightarrow> keeps I (f s)) \<Longrightarrow> keeps I (bindp get_state f)"
  unfolding gives_def
  by (rule valid_read, rule valid_weaken [where P' = I and Q' = "\<lambda>_ s. I s \<and> True" and E' = "\<lambda>_. I"]) auto

lemma keeps_modify [preserves]: "(\<And>s. I s \<Longrightarrow> I (f s)) \<Longrightarrow> keeps I (modify f)"
  by (auto simp: gives_def intro: valid_modify)

lemma keeps_valid: "keeps I m \<longleftrightarrow> valid I m (\<lambda>_. I) (\<lambda>_. I)"
  by (simp add: gives_def)

text \<open>A program that keeps the precondition, followed by any other.\<close>

lemma valid_gives_bind:
  assumes "gives I m Q" "\<And>x. Q x \<Longrightarrow> valid I (f x) R E" "\<And>e s. I s \<Longrightarrow> E e s"
  shows "valid I (bindp m f) R E"
proof (rule valid_bind)
  show "valid I m (\<lambda>x s. I s \<and> Q x) E"
    using assms(1) unfolding gives_def by (rule valid_weaken) (auto intro: assms(3))
  show "valid (\<lambda>s. I s \<and> Q x) (f x) R E" for x
    using assms(2) [of x] by (cases "Q x") (auto simp: valid_def)
qed

lemma valid_keeps_bind:
  assumes "keeps I m" "\<And>x. valid I (f x) R E" "\<And>e s. I s \<Longrightarrow> E e s"
  shows "valid I (bindp m f) R E"
  by (rule valid_gives_bind [OF assms(1)]) (auto intro: assms)

lemma valid_read_any: "(\<And>s0. valid P (f s0) Q E) \<Longrightarrow> valid P (bindp get_state f) Q E"
  by (auto simp: valid_def bindp_def get_state_def)

end
