(* ===== verification/Schemer.thy ===== *)
theory Schemer
  imports Daisy_Db Naming Prog
begin

text \<open>
  \<open>controllers/daisymanager/schemer.go\<close> and \<open>Retry\<close> of \<open>util.go\<close>: which statements are fetched
  from which replicas and run on which. The texts of the queries, after \<open>heredoc.Doc\<close>, are the
  record \<open>sql_texts\<close>; the replacement of the table expression in them is modelled. A Go error of
  this file is its text; \<open>None\<close> is nil. Waiting between two tries has no effect on the state.
\<close>

record schemer =
  sm_username :: string
  sm_password :: string
  sm_port :: int

record sql_texts =
  sq_distributed_dbs :: string
  sq_distributed_tables :: string
  sq_replica_dbs :: string
  sq_replica_tables :: string
  sq_drop_tables :: string

definition default_max_tries :: nat where "default_max_tries = 10"

definition new_schemer :: "string \<Rightarrow> string \<Rightarrow> int \<Rightarrow> schemer" where
  "new_schemer username password port =
     (let (u, p) = (if length username = 0 \<and> length password = 0 then (''default'', []) else (username, password))
      in \<lparr>sm_username = u, sm_password = p, sm_port = (if port = 0 then 8123 else port)\<rparr>)"

definition host_params :: "schemer \<Rightarrow> string \<Rightarrow> ch_params" where
  "host_params sm host = new_ch_connection_params host (sm_username sm) (sm_password sm) (sm_port sm)"

definition get_ch_connection :: "schemer \<Rightarrow> string \<Rightarrow> 'd db_state \<Rightarrow> ch_params \<times> 'd db_state" where
  "get_ch_connection sm host s = (host_params sm host, get_pooled (host_params sm host) s)"

section \<open>Fetching lists of objects\<close>

text \<open>The first endpoint that answers; \<open>Inl\<close> is the last error.\<close>

fun query_any ::
  "'d driver \<Rightarrow> schemer \<Rightarrow> string \<Rightarrow> string list \<Rightarrow> string \<Rightarrow> 'd db_state
   \<Rightarrow> (string + (string \<times> string) option list) \<times> 'd db_state" where
  "query_any dr sm sql [] err s = (Inl err, s)"
| "query_any dr sm sql (e # es) err s =
     (case get_ch_connection sm e s of (conn, s1) \<Rightarrow>
       (case conn_query dr conn sql s1 of
          (Inr rows, s2) \<Rightarrow> (Inr rows, s2)
        | (Inl err', s2) \<Rightarrow> query_any dr sm sql es err' s2))"

definition get_object_list ::
  "'d driver \<Rightarrow> schemer \<Rightarrow> string list \<Rightarrow> string \<Rightarrow> 'd db_state
   \<Rightarrow> (string list \<times> string list \<times> string option) \<times> 'd db_state" where
  "get_object_list dr sm endpoints sql s =
     (if length endpoints = 0 then (([], [], None), s)
      else case query_any dr sm sql endpoints [] s of
             (Inl err, s1) \<Rightarrow> (([], [], Some err), s1)
           | (Inr rows, s1) \<Rightarrow>
               (let scanned = List.map_filter id rows
                in ((map fst scanned, map snd scanned, None), s1)))"

definition remote_tables :: "string list \<Rightarrow> string" where
  "remote_tables hosts =
     ''remote('' @ [CHR 0x27] @ go_join '','' hosts @ [CHR 0x27] @ '', system, tables)''"

definition all_sharded_tables :: string where
  "all_sharded_tables = ''cluster('' @ [CHR 0x27] @ ''all-sharded'' @ [CHR 0x27] @ '', system.tables)''"

text \<open>The index of the new replica among the hosts, 0 when it is not there.\<close>

fun host_index :: "string \<Rightarrow> string list \<Rightarrow> nat \<Rightarrow> nat" where
  "host_index h [] i = 0"
| "host_index h (x # xs) i = (if x = h then i else host_index h xs (Suc i))"

definition get_create_distributed_objects ::
  "'d driver \<Rightarrow> schemer \<Rightarrow> sql_texts \<Rightarrow> member_context \<Rightarrow> daisy_installation \<Rightarrow> replica \<Rightarrow> 'd db_state
   \<Rightarrow> (string list \<times> string list) \<times> 'd db_state" where
  "get_create_distributed_objects dr sm sq ctx di r s =
     (let hosts = create_pod_fqdns_of_cluster (mc_cur_cluster ctx) di;
          n = length hosts
      in if n \<le> 1 then (([], []), s)
         else
           let i = host_index (create_pod_hostname r) hosts 0;
               others = take (n - 1) (hosts[i := hosts ! (n - 1)]);
               tables = remote_tables others;
               dbs_sql = replace_all (sq_distributed_dbs sq) all_sharded_tables tables;
               tables_sql = replace_all (sq_distributed_tables sq) all_sharded_tables tables;
               endpoints = create_pod_fqdns_of_installation di
           in case get_object_list dr sm endpoints dbs_sql s of ((names1, sqls1, _), s1) \<Rightarrow>
              (case get_object_list dr sm endpoints tables_sql s1 of ((names2, sqls2, _), s2) \<Rightarrow>
                 ((names1 @ names2, sqls1 @ sqls2), s2)))"

definition get_create_replica_objects ::
  "'d driver \<Rightarrow> schemer \<Rightarrow> sql_texts \<Rightarrow> member_context \<Rightarrow> daisy_installation \<Rightarrow> 'd db_state
   \<Rightarrow> (string list \<times> string list \<times> string option) \<times> 'd db_state" where
  "get_create_replica_objects dr sm sq ctx di s =
     (let replicas = get_normal_pod_fqdns_of_shard (mc_cur_cluster ctx) (mc_cur_shard ctx) di;
          replica_count = lo_replicas_count (cl_layout
            (mget_or zero_cluster (cf_clusters (di_configuration di)) (mc_cur_cluster ctx)))
      in if replica_count \<le> 1 \<or> length replicas = 0 then (([], [], None), s)
         else
           let tables = remote_tables replicas;
               dbs_sql = replace_all (sq_replica_dbs sq) ''system.tables'' tables;
               tables_sql = replace_all (sq_replica_tables sq) ''system.tables'' tables;
               endpoints = create_pod_fqdns_of_installation di
           in case get_object_list dr sm endpoints dbs_sql s of ((names1, sqls1, err1), s1) \<Rightarrow>
              (case get_object_list dr sm endpoints tables_sql s1 of ((names2, sqls2, err2), s2) \<Rightarrow>
                 ((names1 @ names2, sqls1 @ sqls2,
                   (case err1 of Some e \<Rightarrow> Some e | None \<Rightarrow> err2)), s2)))"

definition replica_get_drop_tables ::
  "'d driver \<Rightarrow> schemer \<Rightarrow> sql_texts \<Rightarrow> string \<Rightarrow> replica \<Rightarrow> 'd db_state
   \<Rightarrow> (string list \<times> string list) \<times> 'd db_state" where
  "replica_get_drop_tables dr sm sq namespace r s =
     (case get_object_list dr sm [create_pod_fqdn namespace r] (sq_drop_tables sq) s of
        ((names, sqls, _), s1) \<Rightarrow> ((names, sqls), s1))"

section \<open>Running statements\<close>

primrec retry_loop ::
  "nat \<Rightarrow> ('s \<Rightarrow> string option \<times> 's) \<Rightarrow> string option \<Rightarrow> 's \<Rightarrow> string option \<times> 's" where
  "retry_loop 0 f err s = (err, s)"
| "retry_loop (Suc n) f err s =
     (case f s of (None, s') \<Rightarrow> (None, s') | (Some e, s') \<Rightarrow> retry_loop n f (Some e) s')"

definition retry :: "nat \<Rightarrow> ('s \<Rightarrow> string option \<times> 's) \<Rightarrow> 's \<Rightarrow> string option \<times> 's" where
  "retry tries f s = retry_loop tries f None s"

definition exec_or_attach ::
  "'d driver \<Rightarrow> ch_params \<Rightarrow> string \<Rightarrow> 'd db_state \<Rightarrow> string option \<times> 'd db_state" where
  "exec_or_attach dr conn sql s =
     (case conn_exec dr conn sql s of
        (None, s1) \<Rightarrow> (None, s1)
      | (Some err, s1) \<Rightarrow>
          if contains err ''Code: 253,'' \<and> contains sql ''CREATE TABLE''
          then conn_exec dr conn (replace_all sql ''CREATE TABLE'' ''ATTACH TABLE'') s1
          else (Some err, s1))"

text \<open>One try: a statement that succeeds is cleared, the last error is returned.\<close>

fun run_sqls ::
  "'d driver \<Rightarrow> ch_params \<Rightarrow> string list \<Rightarrow> 'd db_state \<Rightarrow> string option \<times> string list \<times> 'd db_state" where
  "run_sqls dr conn [] s = (None, [], s)"
| "run_sqls dr conn (sql # sqls) s =
     (if length sql = 0 then
        (case run_sqls dr conn sqls s of (e, r, s') \<Rightarrow> (e, sql # r, s'))
      else
        (case exec_or_attach dr conn sql s of (err, s1) \<Rightarrow>
          (case run_sqls dr conn sqls s1 of (e, r, s') \<Rightarrow>
             (case e of None \<Rightarrow> err | Some _ \<Rightarrow> e, (if err = None then [] else sql) # r, s'))))"

definition apply_host ::
  "'d driver \<Rightarrow> schemer \<Rightarrow> bool \<Rightarrow> string \<Rightarrow> string list \<times> 'd db_state
   \<Rightarrow> string option \<times> string list \<times> 'd db_state" where
  "apply_host dr sm again host st =
     (case st of (sqls, s) \<Rightarrow>
       (case get_ch_connection sm host s of (conn, s1) \<Rightarrow>
          retry (if again then default_max_tries else 1)
            (\<lambda>(sqls, s). run_sqls dr conn sqls s) (sqls, s1)))"

text \<open>The hosts share one list of statements; the error of the last host is returned.\<close>

fun apply_sqls_from ::
  "'d driver \<Rightarrow> schemer \<Rightarrow> bool \<Rightarrow> string list \<Rightarrow> string option \<Rightarrow> string list \<times> 'd db_state
   \<Rightarrow> string option \<times> string list \<times> 'd db_state" where
  "apply_sqls_from dr sm again [] err st = (err, st)"
| "apply_sqls_from dr sm again (h # hs) err st =
     (case apply_host dr sm again h st of (err', st') \<Rightarrow> apply_sqls_from dr sm again hs err' st')"

definition apply_sqls ::
  "'d driver \<Rightarrow> schemer \<Rightarrow> string list \<Rightarrow> string list \<Rightarrow> bool \<Rightarrow> 'd db_state
   \<Rightarrow> string option \<times> string list \<times> 'd db_state" where
  "apply_sqls dr sm hosts sqls again s = apply_sqls_from dr sm again hosts None (sqls, s)"

definition replica_apply_sqls ::
  "'d driver \<Rightarrow> schemer \<Rightarrow> string \<Rightarrow> replica \<Rightarrow> string list \<Rightarrow> bool \<Rightarrow> 'd db_state
   \<Rightarrow> string option \<times> 'd db_state" where
  "replica_apply_sqls dr sm namespace r sqls again s =
     (case apply_sqls dr sm [create_pod_fqdn namespace r] sqls again s of (err, _, s') \<Rightarrow> (err, s'))"

definition installation_apply_sqls ::
  "'d driver \<Rightarrow> schemer \<Rightarrow> daisy_installation \<Rightarrow> string list \<Rightarrow> bool \<Rightarrow> 'd db_state
   \<Rightarrow> string option \<times> 'd db_state" where
  "installation_apply_sqls dr sm di sqls again s =
     (case apply_sqls dr sm (create_pod_fqdns_of_installation di) sqls again s of (err, _, s') \<Rightarrow> (err, s'))"

definition drop_dns_cache ::
  "'d driver \<Rightarrow> schemer \<Rightarrow> daisy_installation \<Rightarrow> 'd db_state \<Rightarrow> string option \<times> 'd db_state" where
  "drop_dns_cache dr sm di s = installation_apply_sqls dr sm di [''SYSTEM DROP DNS CACHE''] False s"

definition delete_tables_for_replica ::
  "'d driver \<Rightarrow> schemer \<Rightarrow> sql_texts \<Rightarrow> string \<Rightarrow> replica \<Rightarrow> 'd db_state \<Rightarrow> string option \<times> 'd db_state" where
  "delete_tables_for_replica dr sm sq namespace r s =
     (case replica_get_drop_tables dr sm sq namespace r s of ((names, sqls), s1) \<Rightarrow>
        if 0 < length names then replica_apply_sqls dr sm namespace r sqls False s1 else (None, s1))"

definition create_tables_for_replica ::
  "'d driver \<Rightarrow> schemer \<Rightarrow> sql_texts \<Rightarrow> member_context \<Rightarrow> daisy_installation \<Rightarrow> replica \<Rightarrow> 'd db_state
   \<Rightarrow> string option \<times> 'd db_state" where
  "create_tables_for_replica dr sm sq ctx di r s =
     (case get_create_replica_objects dr sm sq ctx di s of ((_, sqls, err), s1) \<Rightarrow>
        (case err of
           Some e \<Rightarrow> (Some e, s1)
         | None \<Rightarrow>
             (case replica_apply_sqls dr sm (mc_namespace ctx) r sqls True s1 of
                (Some e, s2) \<Rightarrow> (Some e, s2)
              | (None, s2) \<Rightarrow>
                  (case get_create_distributed_objects dr sm sq ctx di r s2 of ((_, sqls'), s3) \<Rightarrow>
                     replica_apply_sqls dr sm (mc_namespace ctx) r sqls' True s3))))"

section \<open>Properties\<close>

lemma run_sqls_length: "run_sqls dr conn sqls s = (e, r, s') \<Longrightarrow> length r = length sqls"
  by (induction dr conn sqls s arbitrary: e r s' rule: run_sqls.induct) (auto split: if_splits prod.splits)

lemma run_sqls_clears:
  "run_sqls dr conn sqls s = (None, r, s') \<Longrightarrow> r = replicate (length sqls) []"
proof (induction dr conn sqls s arbitrary: r s' rule: run_sqls.induct)
  case (2 dr conn sql sqls s)
  then show ?case by (auto split: if_splits prod.splits option.splits)
qed simp

lemma run_sqls_nothing: "run_sqls dr conn (replicate n []) s = (None, replicate n [], s)"
  by (induction n) auto

lemma retry_loop_None:
  assumes "\<And>s s'. f s = (None, s') \<Longrightarrow> R s'" "retry_loop n f err s = (None, s')" "err \<noteq> None \<or> 0 < n"
  shows "R s'"
  using assms(2,3)
proof (induction n arbitrary: err s)
  case (Suc n)
  then show ?case by (auto split: prod.splits option.splits intro: assms(1))
qed simp

lemma apply_host_clears:
  assumes "apply_host dr sm again h (sqls, s) = (None, r, s')"
  shows "\<exists>n. r = replicate n []"
proof -
  define n where "n = (if again then default_max_tries else 1)"
  have "0 < n" by (simp add: n_def default_max_tries_def)
  obtain conn s1 where "retry_loop n (\<lambda>(sqls, s). run_sqls dr conn sqls s) None (sqls, s1) = (None, r, s')"
    using assms by (auto simp: apply_host_def retry_def n_def split: prod.splits)
  then have "\<exists>m. fst (r, s') = replicate m []"
    by (rule retry_loop_None [rotated]) (use \<open>0 < n\<close> in \<open>auto dest: run_sqls_clears\<close>)
  then show ?thesis by simp
qed

lemma apply_host_nothing:
  "apply_host dr sm again h (replicate n [], s) = (None, replicate n [], get_pooled (host_params sm h) s)"
  by (cases again)
    (simp_all add: apply_host_def get_ch_connection_def retry_def run_sqls_nothing default_max_tries_def
      eval_nat_numeral)


text \<open>A driver on which every statement succeeds; its world is the list of what it was given.\<close>

definition log_driver :: "(string \<times> string) list driver" where
  "log_driver = \<lparr>dr_connect = (\<lambda>_ d. (True, d)), dr_exec = (\<lambda>dsn sql d. (None, d @ [(dsn, sql)])),
     dr_query = (\<lambda>_ _ d. (Inr [], d))\<rparr>"

definition empty_db :: "'d \<Rightarrow> 'd db_state" where
  "empty_db d = \<lparr>db_world = d, db_struct_pool = [], db_global_pool = []\<rparr>"

lemmas log_run = apply_sqls_def apply_host_def get_ch_connection_def retry_def exec_or_attach_def
  conn_exec_def ensure_connected_def log_driver_def


text \<open>
  C35: Statements meant for several hosts reach only the first one that runs them: the hosts share
  the list from which successful statements are removed. After a success on the first host the
  remaining hosts run nothing, and no error is reported.
\<close>

theorem later_hosts_skipped:
  assumes "apply_sqls dr sm [h] sqls again s = (None, rest, s1)"
  shows "\<exists>s2. apply_sqls dr sm (h # hs) sqls again s = (None, rest, s2) \<and> db_world s2 = db_world s1"
proof -
  have first: "apply_host dr sm again h (sqls, s) = (None, rest, s1)"
    using assms by (simp add: apply_sqls_def split: prod.splits)
  then obtain n where n: "rest = replicate n []" using apply_host_clears by blast
  have "\<exists>s2. apply_sqls_from dr sm again hs None (replicate n [], s) = (None, replicate n [], s2)
      \<and> db_world s2 = db_world s" for s
  proof (induction hs arbitrary: s)
    case (Cons h hs)
    have "db_world (get_pooled (host_params sm h) s) = db_world s" by (simp add: get_pooled_def)
    with Cons [of "get_pooled (host_params sm h) s"] show ?case by (simp add: apply_host_nothing)
  qed simp
  then show ?thesis using first n by (simp add: apply_sqls_def)
qed

theorem later_hosts_skipped_witness:
  "db_world (snd (snd (apply_sqls log_driver (new_schemer [] [] 9) [''h1'', ''h2''] [''A''] False (empty_db []))))
     = [(''http://default@h1:9/'', ''A'')]"
proof -
  let ?run = "apply_sqls log_driver (new_schemer [] [] 9) [''h1''] [''A''] False (empty_db [])"
  have "fst ?run = None" and world: "db_world (snd (snd ?run)) = [(''http://default@h1:9/'', ''A'')]"
    by code_simp+
  then have "?run = (None, fst (snd ?run), snd (snd ?run))" by (simp add: prod_eq_iff)
  from later_hosts_skipped [OF this, of "[''h2'']"] world show ?thesis by auto
qed

end
