(* ===== verification/K8s_Api.thy ===== *)
theory K8s_Api
  imports Prog Member_Context "HOL-Library.Product_Lexorder"
begin

text \<open>
  The Kubernetes objects the operator reads and writes, and the client it does so with. The
  client (\<open>sigs.k8s.io/controller-runtime\<close>) is not part of the repository: it is the parameter
  \<open>kube\<close>, a record of operations on a world of any type. What the operator relies on is the
  locale \<open>kube_api\<close>; its laws are the documented ones: a successful read returns what is
  stored, a request that fails changes nothing, a successful write changes one object.
\<close>

section \<open>Objects\<close>

record pod_template_spec =
  tm_name :: string
  tm_labels :: "string gomap"
  tm_annotations :: "string gomap"
  tm_spec :: pod_spec

record pvc =
  pc_kind :: string
  pc_api_version :: string
  pc_meta :: object_meta
  pc_spec :: pvc_spec

record sts_spec =
  sx_replicas :: "int option"
  sx_service_name :: string
  sx_selector :: "string gomap"
  sx_template :: pod_template_spec
  sx_claims :: "pvc list option"
  sx_pod_management :: string
  sx_update_strategy :: string
  sx_history_limit :: "int option"

record stateful_set =
  set_meta :: object_meta
  set_spec :: sts_spec
  set_status :: stateful_set_status

record service_port =
  po_name :: string
  po_protocol :: string
  po_port :: int
  po_target :: string

record service_spec =
  vs_ports :: "service_port list"
  vs_selector :: "string gomap"
  vs_cluster_ip :: string
  vs_type :: string
  vs_publish_not_ready :: bool

record service =
  sv_meta :: object_meta
  sv_spec :: service_spec

record config_map =
  cmap_meta :: object_meta
  cmap_data :: "string entries"

record pod =
  pd_meta :: object_meta
  pd_other :: string

record storage_class =
  sc_meta :: object_meta
  sc_allow_expansion :: "bool option"

datatype kobject =
    KStatefulSet stateful_set
  | KService service
  | KConfigMap config_map
  | KPod pod
  | KPvc pvc
  | KStorageClass storage_class
  | KInstallation daisy_installation
  | KTemplate daisy_installation

datatype kind = StatefulSetKind | ServiceKind | ConfigMapKind | PodKind | PvcKind
  | StorageClassKind | InstallationKind | TemplateKind

datatype okey = OKey (ok_kind: kind) (ok_namespace: string) (ok_name: string)

fun kind_number :: "kind \<Rightarrow> nat" where
  "kind_number StatefulSetKind = 0"
| "kind_number ServiceKind = 1"
| "kind_number ConfigMapKind = 2"
| "kind_number PodKind = 3"
| "kind_number PvcKind = 4"
| "kind_number StorageClassKind = 5"
| "kind_number InstallationKind = 6"
| "kind_number TemplateKind = 7"

lemma kind_number_inject [simp]: "kind_number a = kind_number b \<longleftrightarrow> a = b"
  by (cases a; cases b) simp_all

text \<open>Keys are ordered by kind, namespace and name; a list request returns objects in this order.\<close>

instantiation okey :: linorder
begin

definition less_eq_okey :: "okey \<Rightarrow> okey \<Rightarrow> bool" where
  "less_eq_okey a b \<longleftrightarrow> (kind_number (ok_kind a), ok_namespace a, ok_name a)
     \<le> (kind_number (ok_kind b), ok_namespace b, ok_name b)"

definition less_okey :: "okey \<Rightarrow> okey \<Rightarrow> bool" where
  "less_okey a b \<longleftrightarrow> (a :: okey) \<le> b \<and> \<not> b \<le> a"

instance
proof
  fix a b c :: okey
  show "a < b \<longleftrightarrow> a \<le> b \<and> \<not> b \<le> a" by (simp add: less_okey_def)
  show "a \<le> a" by (simp add: less_eq_okey_def)
  show "a \<le> b \<Longrightarrow> b \<le> c \<Longrightarrow> a \<le> c" unfolding less_eq_okey_def by (rule order_trans)
  show "a \<le> b \<Longrightarrow> b \<le> a \<Longrightarrow> a = b"
    unfolding less_eq_okey_def by (drule (1) order_antisym) (auto intro: okey.expand)
  show "a \<le> b \<or> b \<le> a" unfolding less_eq_okey_def by (rule linear)
qed

end

definition meta_key :: "kind \<Rightarrow> object_meta \<Rightarrow> okey" where
  "meta_key k m = OKey k (om_namespace m) (om_name m)"

fun ob_meta :: "kobject \<Rightarrow> object_meta" where
  "ob_meta (KStatefulSet s) = set_meta s"
| "ob_meta (KService s) = sv_meta s"
| "ob_meta (KConfigMap c) = cmap_meta c"
| "ob_meta (KPod p) = pd_meta p"
| "ob_meta (KPvc p) = pc_meta p"
| "ob_meta (KStorageClass s) = sc_meta s"
| "ob_meta (KInstallation d) = di_meta d"
| "ob_meta (KTemplate d) = di_meta d"

fun ob_kind :: "kobject \<Rightarrow> kind" where
  "ob_kind (KStatefulSet s) = StatefulSetKind"
| "ob_kind (KService s) = ServiceKind"
| "ob_kind (KConfigMap c) = ConfigMapKind"
| "ob_kind (KPod p) = PodKind"
| "ob_kind (KPvc p) = PvcKind"
| "ob_kind (KStorageClass s) = StorageClassKind"
| "ob_kind (KInstallation d) = InstallationKind"
| "ob_kind (KTemplate d) = TemplateKind"

definition ob_key :: "kobject \<Rightarrow> okey" where
  "ob_key ob = meta_key (ob_kind ob) (ob_meta ob)"

section \<open>The client\<close>

type_synonym ('w, 'a) call = "'w \<Rightarrow> (api_error + 'a) \<times> 'w"

text \<open>
  \<open>Create\<close>, \<open>Update\<close> and \<open>Status().Update\<close> decode the answer of the server into the object they
  are given: they return it.
\<close>

record 'w kube =
  kc_get :: "okey \<Rightarrow> ('w, kobject) call"
  kc_list :: "kind \<Rightarrow> string \<Rightarrow> string entries \<Rightarrow> ('w, kobject list) call"
  kc_create :: "kobject \<Rightarrow> ('w, kobject) call"
  kc_update :: "kobject \<Rightarrow> ('w, kobject) call"
  kc_update_status :: "kobject \<Rightarrow> ('w, kobject) call"
  kc_delete :: "okey \<Rightarrow> ('w, unit) call"

definition api :: "('w, 'a) call \<Rightarrow> ('w, 'a) prog" where
  "api c w = (case c w of (Inr x, w') \<Rightarrow> (Done x, w') | (Inl e, w') \<Rightarrow> (Err (Api e), w'))"

text \<open>\<open>Get\<close> into a variable of one type.\<close>

definition as_stateful_set :: "kobject \<Rightarrow> stateful_set option" where
  "as_stateful_set ob = (case ob of KStatefulSet s \<Rightarrow> Some s | _ \<Rightarrow> None)"

definition as_service :: "kobject \<Rightarrow> service option" where
  "as_service ob = (case ob of KService s \<Rightarrow> Some s | _ \<Rightarrow> None)"

definition as_config_map :: "kobject \<Rightarrow> config_map option" where
  "as_config_map ob = (case ob of KConfigMap c \<Rightarrow> Some c | _ \<Rightarrow> None)"

definition as_pod :: "kobject \<Rightarrow> pod option" where
  "as_pod ob = (case ob of KPod p \<Rightarrow> Some p | _ \<Rightarrow> None)"

definition as_pvc :: "kobject \<Rightarrow> pvc option" where
  "as_pvc ob = (case ob of KPvc p \<Rightarrow> Some p | _ \<Rightarrow> None)"

definition as_storage_class :: "kobject \<Rightarrow> storage_class option" where
  "as_storage_class ob = (case ob of KStorageClass s \<Rightarrow> Some s | _ \<Rightarrow> None)"

definition as_installation :: "kobject \<Rightarrow> daisy_installation option" where
  "as_installation ob = (case ob of KInstallation d \<Rightarrow> Some d | _ \<Rightarrow> None)"

definition decoded :: "(kobject \<Rightarrow> 'a option) \<Rightarrow> ('w, kobject) call \<Rightarrow> ('w, 'a) prog" where
  "decoded view c = bindp (api c) (\<lambda>ob. case view ob of
     Some x \<Rightarrow> ret x | None \<Rightarrow> throw (Failure ''decode''))"

lemmas views = as_stateful_set_def as_service_def as_config_map_def as_pod_def as_pvc_def
  as_storage_class_def as_installation_def

section \<open>What the operator relies on\<close>

locale kube_api =
  fixes K :: "'w kube"
    and objs :: "'w \<Rightarrow> okey \<Rightarrow> kobject option"
  assumes key_ok: "objs w k = Some ob \<Longrightarrow> ob_key ob = k"
    and get_ok: "kc_get K k w = (Inr ob, w') \<Longrightarrow> objs w k = Some ob \<and> objs w' = objs w"
    and get_missing: "kc_get K k w = (Inl NotFound, w') \<Longrightarrow> objs w k = None"
    and get_err: "kc_get K k w = (Inl e, w') \<Longrightarrow> objs w' = objs w"
    and list_pure: "kc_list K kd ns l w = (r, w') \<Longrightarrow> objs w' = objs w"
    and create_ok: "kc_create K ob w = (Inr ob', w') \<Longrightarrow>
      ob_key ob' = ob_key ob \<and> objs w (ob_key ob) = None \<and> objs w' = (objs w)(ob_key ob \<mapsto> ob')"
    and create_err: "kc_create K ob w = (Inl e, w') \<Longrightarrow> objs w' = objs w"
    and update_ok: "kc_update K ob w = (Inr ob', w') \<Longrightarrow>
      ob_key ob' = ob_key ob \<and> (\<forall>k. k \<noteq> ob_key ob \<longrightarrow> objs w' k = objs w k)
      \<and> (objs w' (ob_key ob) = Some ob' \<or> objs w' (ob_key ob) = None)"
    and update_err: "kc_update K ob w = (Inl e, w') \<Longrightarrow> objs w' = objs w"
    and status_ok: "kc_update_status K ob w = (Inr ob', w') \<Longrightarrow>
      ob_key ob' = ob_key ob \<and> (\<forall>k. k \<noteq> ob_key ob \<longrightarrow> objs w' k = objs w k)"
    and status_err: "kc_update_status K ob w = (Inl e, w') \<Longrightarrow> objs w' = objs w"
    and delete_ok: "kc_delete K k w = (Inr u, w') \<Longrightarrow> objs w' = (objs w)(k := None)
      \<or> (ok_kind k = PvcKind \<and> (\<forall>k'. k' \<noteq> k \<longrightarrow> objs w' k' = objs w k'))"
    and delete_err: "kc_delete K k w = (Inl e, w') \<Longrightarrow> objs w' = objs w"
begin

lemma get_pure: "kc_get K k w = (r, w') \<Longrightarrow> objs w' = objs w"
  by (cases r) (auto dest: get_ok get_err)

lemma delete_kept: "kc_delete K k w = (r, w') \<Longrightarrow> k' \<noteq> k \<Longrightarrow> objs w' k' = objs w k'"
  by (cases r) (auto dest: delete_ok delete_err)

lemma delete_gone: "kc_delete K k w = (Inr u, w') \<Longrightarrow> ok_kind k \<noteq> PvcKind \<Longrightarrow> objs w' k = None"
  by (auto dest: delete_ok)

lemma update_kept: "kc_update K ob w = (r, w') \<Longrightarrow> k \<noteq> ob_key ob \<Longrightarrow> objs w' k = objs w k"
  by (cases r) (auto dest: update_ok update_err)

lemma status_kept: "kc_update_status K ob w = (r, w') \<Longrightarrow> k \<noteq> ob_key ob \<Longrightarrow> objs w' k = objs w k"
  by (cases r) (auto dest: status_ok status_err)

text \<open>Reading back what a request has left: nothing but these keys can have changed.\<close>

lemma create_kept: "kc_create K ob w = (r, w') \<Longrightarrow> k \<noteq> ob_key ob \<Longrightarrow> objs w' k = objs w k"
  by (cases r) (auto dest: create_ok create_err)

end

section \<open>A server\<close>

text \<open>
  A server that satisfies the laws: the stored objects in the order of their keys, and a schedule
  that lets any of the coming requests fail (with any error but \<open>NotFound\<close>, which is the answer
  for a missing object). It is used to run the operator on concrete inputs.
\<close>

record server =
  sr_objects :: "(okey \<times> kobject) list"
  sr_faults :: "api_error option list"

definition next_fault :: "server \<Rightarrow> api_error option \<times> server" where
  "next_fault w =
     (case sr_faults w of
        [] \<Rightarrow> (None, w)
      | f # fs \<Rightarrow> (if f = Some NotFound then None else f, w\<lparr>sr_faults := fs\<rparr>))"

definition guarded :: "(server \<Rightarrow> (api_error + 'a) \<times> server) \<Rightarrow> (server, 'a) call" where
  "guarded c w = (case next_fault w of (Some e, w') \<Rightarrow> (Inl e, w') | (None, w') \<Rightarrow> c w')"

fun insert_object :: "okey \<Rightarrow> kobject \<Rightarrow> (okey \<times> kobject) list \<Rightarrow> (okey \<times> kobject) list" where
  "insert_object k ob [] = [(k, ob)]"
| "insert_object k ob ((k', ob') # es) =
     (if k = k' then (k, ob) # es
      else if k < k' then (k, ob) # (k', ob') # es
      else (k', ob') # insert_object k ob es)"

definition store :: "server \<Rightarrow> okey \<Rightarrow> kobject option" where
  "store w k = (case map_of (sr_objects w) k of
     Some ob \<Rightarrow> if ob_key ob = k then Some ob else None | None \<Rightarrow> None)"

definition matches :: "string entries \<Rightarrow> kobject \<Rightarrow> bool" where
  "matches sel ob \<longleftrightarrow> list_all (\<lambda>(k, v). mget (om_labels (ob_meta ob)) k = Some v) sel"

text \<open>An object that is being deleted and has no finalizer left does not stay stored.\<close>

definition leaving :: "kobject \<Rightarrow> bool" where
  "leaving ob \<longleftrightarrow> om_deletion_timestamp (ob_meta ob) \<noteq> None \<and> om_finalizers (ob_meta ob) = []"

definition drop_object :: "okey \<Rightarrow> (okey \<times> kobject) list \<Rightarrow> (okey \<times> kobject) list" where
  "drop_object k es = filter (\<lambda>(k', _). k' \<noteq> k) es"

definition server_kube :: "server kube" where
  "server_kube = \<lparr>
     kc_get = (\<lambda>k. guarded (\<lambda>w. case store w k of None \<Rightarrow> (Inl NotFound, w) | Some ob \<Rightarrow> (Inr ob, w))),
     kc_list = (\<lambda>kd ns sel. guarded (\<lambda>w. (Inr (filter
        (\<lambda>ob. ob_kind ob = kd \<and> (ns = [] \<or> om_namespace (ob_meta ob) = ns) \<and> matches sel ob)
        (map snd (sr_objects w))), w))),
     kc_create = (\<lambda>ob. guarded (\<lambda>w. if store w (ob_key ob) \<noteq> None then (Inl AlreadyExists, w)
        else (Inr ob, w\<lparr>sr_objects := insert_object (ob_key ob) ob (sr_objects w)\<rparr>))),
     kc_update = (\<lambda>ob. guarded (\<lambda>w. if store w (ob_key ob) = None then (Inl NotFound, w)
        else if leaving ob then (Inr ob, w\<lparr>sr_objects := drop_object (ob_key ob) (sr_objects w)\<rparr>)
        else (Inr ob, w\<lparr>sr_objects := insert_object (ob_key ob) ob (sr_objects w)\<rparr>))),
     kc_update_status = (\<lambda>ob. guarded (\<lambda>w. if store w (ob_key ob) = None then (Inl NotFound, w)
        else (Inr ob, w\<lparr>sr_objects := insert_object (ob_key ob) ob (sr_objects w)\<rparr>))),
     kc_delete = (\<lambda>k. guarded (\<lambda>w. if store w k = None then (Inl NotFound, w)
        else (Inr (), w\<lparr>sr_objects := drop_object k (sr_objects w)\<rparr>)))\<rparr>"

lemma map_of_insert_object:
  "map_of (insert_object k ob es) k' = (if k' = k then Some ob else map_of es k')"
proof (induction es)
  case (Cons e es)
  then show ?case by (cases e) auto
qed simp

lemma map_of_drop_object: "map_of (drop_object k es) k' = (if k' = k then None else map_of es k')"
  unfolding drop_object_def
proof (induction es)
  case (Cons e es)
  then show ?case by (cases e) auto
qed simp

lemma store_faults [simp]: "store (w\<lparr>sr_faults := fs\<rparr>) = store w"
  by (simp add: store_def fun_eq_iff)

lemma next_fault_store: "next_fault w = (f, w') \<Longrightarrow> store w' = store w"
  by (auto simp: next_fault_def split: list.splits)

lemma store_insert: "store (w\<lparr>sr_objects := insert_object (ob_key ob) ob (sr_objects w)\<rparr>)
   = (store w)(ob_key ob \<mapsto> ob)"
  by (auto simp: store_def fun_eq_iff map_of_insert_object)

lemma store_drop: "store (w\<lparr>sr_objects := drop_object k (sr_objects w)\<rparr>) = (store w)(k := None)"
  by (auto simp: store_def fun_eq_iff map_of_drop_object)

lemma guarded_cases:
  assumes "guarded c w = (r, w')"
  obtains (fault) e where "r = Inl e" "e \<noteq> NotFound" "store w' = store w"
    | (run) w1 where "c w1 = (r, w')" "store w1 = store w"
proof -
  obtain f w1 where f: "next_fault w = (f, w1)" by fastforce
  then have "store w1 = store w" by (rule next_fault_store)
  moreover have "f \<noteq> Some NotFound"
    using f by (auto simp: next_fault_def split: list.splits if_splits)
  ultimately show ?thesis
    using assms f fault run by (auto simp: guarded_def split: option.splits)
qed

interpretation server: kube_api server_kube store
proof
  show "\<And>w k ob. store w k = Some ob \<Longrightarrow> ob_key ob = k"
    by (auto simp: store_def split: option.splits if_splits)
  show "\<And>k w ob w'. kc_get server_kube k w = (Inr ob, w') \<Longrightarrow> store w k = Some ob \<and> store w' = store w"
    by (auto simp: server_kube_def elim!: guarded_cases split: option.splits)
  show "\<And>k w w'. kc_get server_kube k w = (Inl NotFound, w') \<Longrightarrow> store w k = None"
    by (auto simp: server_kube_def elim!: guarded_cases split: option.splits)
  show "\<And>k w e w'. kc_get server_kube k w = (Inl e, w') \<Longrightarrow> store w' = store w"
    by (auto simp: server_kube_def elim!: guarded_cases split: option.splits)
  show "\<And>kd ns l w r w'. kc_list server_kube kd ns l w = (r, w') \<Longrightarrow> store w' = store w"
    by (auto simp: server_kube_def elim!: guarded_cases)
  show "\<And>ob w ob' w'. kc_create server_kube ob w = (Inr ob', w') \<Longrightarrow> ob_key ob' = ob_key ob
      \<and> store w (ob_key ob) = None \<and> store w' = (store w)(ob_key ob \<mapsto> ob')"
    by (auto simp: server_kube_def store_insert elim!: guarded_cases split: if_splits)
  show "\<And>ob w e w'. kc_create server_kube ob w = (Inl e, w') \<Longrightarrow> store w' = store w"
    by (auto simp: server_kube_def elim!: guarded_cases split: if_splits)
  show "\<And>ob w ob' w'. kc_update server_kube ob w = (Inr ob', w') \<Longrightarrow> ob_key ob' = ob_key ob
      \<and> (\<forall>k. k \<noteq> ob_key ob \<longrightarrow> store w' k = store w k)
      \<and> (store w' (ob_key ob) = Some ob' \<or> store w' (ob_key ob) = None)"
    by (auto simp: server_kube_def store_insert store_drop elim!: guarded_cases split: if_splits)
  show "\<And>ob w e w'. kc_update server_kube ob w = (Inl e, w') \<Longrightarrow> store w' = store w"
    by (auto simp: server_kube_def elim!: guarded_cases split: if_splits)
  show "\<And>ob w ob' w'. kc_update_status server_kube ob w = (Inr ob', w') \<Longrightarrow> ob_key ob' = ob_key ob
      \<and> (\<forall>k. k \<noteq> ob_key ob \<longrightarrow> store w' k = store w k)"
    by (auto simp: server_kube_def store_insert elim!: guarded_cases split: if_splits)
  show "\<And>ob w e w'. kc_update_status server_kube ob w = (Inl e, w') \<Longrightarrow> store w' = store w"
    by (auto simp: server_kube_def elim!: guarded_cases split: if_splits)
  show "\<And>k w u w'. kc_delete server_kube k w = (Inr u, w') \<Longrightarrow> store w' = (store w)(k := None)
      \<or> (ok_kind k = PvcKind \<and> (\<forall>k'. k' \<noteq> k \<longrightarrow> store w' k' = store w k'))"
    by (auto simp: server_kube_def store_drop elim!: guarded_cases split: if_splits)
  show "\<And>k w e w'. kc_delete server_kube k w = (Inl e, w') \<Longrightarrow> store w' = store w"
    by (auto simp: server_kube_def elim!: guarded_cases split: if_splits)
qed

end
