(* ===== verification/K8s_Utils.thy ===== *)
theory K8s_Utils
  imports K8s_Api
begin

text \<open>
  \<open>pkg/k8s/equality.go\<close>, \<open>pkg/k8s/controller_utils.go\<close> and
  \<open>controllers/daisymanager/validation.go\<close>. JSON encoding of Kubernetes types and
  \<open>apiequality.Semantic.DeepEqual\<close> belong to other packages: they are the record \<open>codec\<close>.
\<close>

record codec =
  cd_marshal_service :: "service_spec \<Rightarrow> string option"
  cd_unmarshal_service :: "string \<Rightarrow> service_spec option"
  cd_marshal_set :: "sts_spec \<Rightarrow> string option"
  cd_unmarshal_set :: "string \<Rightarrow> sts_spec option"
  cd_marshal_installation :: "installation_spec \<Rightarrow> string option"
  cd_unmarshal_installation :: "string \<Rightarrow> installation_spec option"
  cd_unmarshal_pod_spec :: "string \<Rightarrow> pod_spec option"
  cd_eq_service :: "service_spec \<Rightarrow> service_spec \<Rightarrow> bool"
  cd_eq_strings :: "string gomap \<Rightarrow> string gomap \<Rightarrow> bool"
  cd_eq_template :: "pod_template_spec \<Rightarrow> pod_template_spec \<Rightarrow> bool"
  cd_eq_pod_spec :: "pod_spec \<Rightarrow> pod_spec \<Rightarrow> bool"

section \<open>Errors and owners\<close>

definition is_requeue_error :: "error \<Rightarrow> bool" where
  "is_requeue_error e = (case e of RequeueError _ \<Rightarrow> True | _ \<Rightarrow> False)"

text \<open>\<open>RequeueErrorf\<close>, given the formatted text.\<close>

definition requeue_errorf :: "string \<Rightarrow> error" where
  "requeue_errorf text = RequeueError text"

definition is_not_found :: "error \<Rightarrow> bool" where
  "is_not_found e \<longleftrightarrow> e = Api NotFound"

definition is_conflict :: "error \<Rightarrow> bool" where
  "is_conflict e \<longleftrightarrow> e = Api Conflict"

definition get_owner_ref :: "daisy_installation \<Rightarrow> owner_ref" where
  "get_owner_ref di =
     \<lparr>or_api_version = ''daisy.com/v1'', or_kind = ''DaisyInstallation'', or_name = di_name di,
      or_uid = om_uid (di_meta di), or_controller = True, or_block_owner_deletion = True\<rparr>"

definition set_if_not_empty :: "string \<Rightarrow> string \<Rightarrow> string entries \<Rightarrow> string entries" where
  "set_if_not_empty key v container = (if v \<noteq> [] then put key v container else container)"

text \<open>\<open>RequestTracker\<close>, with which the tests make requests fail.\<close>

record request_tracker =
  rt_requests :: int
  rt_err :: "string option"
  rt_after :: int

definition rt_error_ready :: "request_tracker \<Rightarrow> bool" where
  "rt_error_ready rt \<longleftrightarrow> rt_err rt \<noteq> None \<and> rt_after rt \<le> rt_requests rt"

definition rt_inc :: "request_tracker \<Rightarrow> request_tracker" where
  "rt_inc rt = rt\<lparr>rt_requests := rt_requests rt + 1\<rparr>"

definition rt_reset :: "request_tracker \<Rightarrow> request_tracker" where
  "rt_reset rt = rt\<lparr>rt_err := None, rt_after := 0\<rparr>"

definition rt_set_error :: "string option \<Rightarrow> request_tracker \<Rightarrow> request_tracker" where
  "rt_set_error err rt = rt\<lparr>rt_err := err\<rparr>"

definition rt_set_after :: "int \<Rightarrow> request_tracker \<Rightarrow> request_tracker" where
  "rt_set_after after rt = rt\<lparr>rt_after := after\<rparr>"

definition rt_set_requests :: "int \<Rightarrow> request_tracker \<Rightarrow> request_tracker" where
  "rt_set_requests requests rt = rt\<lparr>rt_requests := requests\<rparr>"

definition rt_get_requests :: "request_tracker \<Rightarrow> int" where
  "rt_get_requests rt = rt_requests rt"

definition rt_get_error :: "request_tracker \<Rightarrow> string option" where
  "rt_get_error rt = rt_err rt"

section \<open>The last applied configuration\<close>

definition last_applied_config :: string where
  "last_applied_config = ''daisy.com/last-applied-configuration''"

definition last_applied_pod_template :: string where
  "last_applied_pod_template = ''daisy.com/last-applied-podtemplate''"

definition set_annotation :: "string \<Rightarrow> string \<Rightarrow> object_meta \<Rightarrow> object_meta" where
  "set_annotation k v m = m\<lparr>om_annotations := Some (put k v (mmake (om_annotations m)))\<rparr>"

definition set_service_last_applied :: "codec \<Rightarrow> service \<Rightarrow> error + service" where
  "set_service_last_applied cd svc =
     (case cd_marshal_service cd (sv_spec svc) of
        None \<Rightarrow> Inl (Failure ''marshal'')
      | Some b \<Rightarrow> Inr (svc\<lparr>sv_meta := set_annotation last_applied_config b (sv_meta svc)\<rparr>))"

definition set_stateful_set_last_applied :: "codec \<Rightarrow> stateful_set \<Rightarrow> error + stateful_set" where
  "set_stateful_set_last_applied cd s =
     (case cd_marshal_set cd (set_spec s) of
        None \<Rightarrow> Inl (Failure ''marshal'')
      | Some b \<Rightarrow> Inr (s\<lparr>set_meta := set_annotation last_applied_config b (set_meta s)\<rparr>))"

text \<open>The annotation records the user's specification, \<open>PrevSpec\<close> the normalized one.\<close>

definition set_installation_last_applied ::
  "codec \<Rightarrow> daisy_installation \<Rightarrow> installation_spec \<Rightarrow> error + daisy_installation" where
  "set_installation_last_applied cd di spec =
     (case cd_marshal_installation cd (di_spec di) of
        None \<Rightarrow> Inl (Failure ''marshal'')
      | Some b \<Rightarrow> Inr (di\<lparr>di_meta := set_annotation last_applied_config b (di_meta di),
                          di_status := (di_status di)\<lparr>is_prev_spec := spec\<rparr>\<rparr>))"

definition get_installation_last_applied_spec ::
  "codec \<Rightarrow> daisy_installation \<Rightarrow> error + installation_spec" where
  "get_installation_last_applied_spec cd di =
     (case mget (om_annotations (di_meta di)) last_applied_config of
        None \<Rightarrow> Inl (Failure ''not found'')
      | Some applied \<Rightarrow>
          (case cd_unmarshal_installation cd applied of
             None \<Rightarrow> Inl (Failure ''unmarshal'')
           | Some spec \<Rightarrow> Inr spec))"

definition get_last_applied_normalized_spec :: "daisy_installation \<Rightarrow> installation_spec" where
  "get_last_applied_normalized_spec di = is_prev_spec (di_status di)"

text \<open>
  \<open>DeploymentPodSpecChanged\<close> compares a \<open>PodSpec\<close> with a pointer to one. \<open>DeepEqual\<close> of values
  of different types is false.
\<close>

definition get_deployment_last_applied_pod_template ::
  "codec \<Rightarrow> object_meta \<Rightarrow> error + pod_spec" where
  "get_deployment_last_applied_pod_template cd meta =
     (case mget (om_annotations meta) last_applied_pod_template of
        None \<Rightarrow> Inl (Failure ''not found'')
      | Some applied \<Rightarrow>
          (case cd_unmarshal_pod_spec cd applied of
             None \<Rightarrow> Inl (Failure ''unmarshal'')
           | Some spec \<Rightarrow> Inr spec))"

definition deployment_pod_spec_changed :: "codec \<Rightarrow> pod_spec \<Rightarrow> object_meta \<Rightarrow> bool" where
  "deployment_pod_spec_changed cd new_spec old_meta =
     (case get_deployment_last_applied_pod_template cd old_meta of
        Inl _ \<Rightarrow> True
      | Inr _ \<Rightarrow> \<not> False)"

definition service_equal :: "codec \<Rightarrow> service \<Rightarrow> service \<Rightarrow> error + bool" where
  "service_equal cd new_svc old_svc =
     (case mget (om_annotations (sv_meta old_svc)) last_applied_config of
        None \<Rightarrow> Inr False
      | Some applied \<Rightarrow>
          (case cd_unmarshal_service cd applied of
             None \<Rightarrow> Inl (Failure ''unmarshal'')
           | Some old_spec \<Rightarrow> Inr (cd_eq_service cd old_spec (sv_spec new_svc))))"

text \<open>
  \<open>IngressEqual\<close>. No other code handles an ingress, so its specification is any type, with its
  decoding and its comparison; an ingress is its annotations and its specification.
\<close>

definition ingress_equal ::
  "(string \<Rightarrow> 'i option) \<Rightarrow> ('i \<Rightarrow> 'i \<Rightarrow> bool) \<Rightarrow> 'i \<Rightarrow> string gomap \<Rightarrow> error + bool" where
  "ingress_equal unmarshal eq new_spec old_annotations =
     (case mget old_annotations last_applied_config of
        None \<Rightarrow> Inr False
      | Some applied \<Rightarrow>
          (case unmarshal applied of
             None \<Rightarrow> Inl (Failure ''unmarshal'')
           | Some old_spec \<Rightarrow> Inr (eq old_spec new_spec)))"

text \<open>\<open>delete\<close> on a nil map does nothing.\<close>

definition mdel :: "string \<Rightarrow> 'v gomap \<Rightarrow> 'v gomap" where
  "mdel k m = map_option (del k) m"

definition stateful_set_equal :: "codec \<Rightarrow> stateful_set \<Rightarrow> stateful_set \<Rightarrow> bool" where
  "stateful_set_equal cd new old =
     (let tmp_anno = fold (\<lambda>(k, v) m. if k \<noteq> last_applied_config then put k v m else m)
                       (mentries (om_annotations (set_meta old))) []
      in if \<not> cd_eq_strings cd (om_annotations (set_meta new)) (Some tmp_anno) then False
         else case mget (om_annotations (set_meta old)) last_applied_config of
                None \<Rightarrow> False
              | Some applied \<Rightarrow>
                  (case cd_unmarshal_set cd applied of
                     None \<Rightarrow> False
                   | Some old_config \<Rightarrow>
                       (let tmp_template = (sx_template old_config)\<lparr>tm_annotations :=
                              mdel last_applied_config (tm_annotations (sx_template old_config))\<rparr>
                        in sx_replicas old_config = sx_replicas (set_spec new)
                           \<and> cd_eq_template cd tmp_template (sx_template (set_spec new))
                           \<and> sx_update_strategy old_config = sx_update_strategy (set_spec new))))"

definition template_equal :: "codec \<Rightarrow> stateful_set \<Rightarrow> stateful_set \<Rightarrow> bool" where
  "template_equal cd new old =
     (case mget (om_annotations (set_meta old)) last_applied_config of
        None \<Rightarrow> False
      | Some applied \<Rightarrow>
          (case cd_unmarshal_set cd applied of
             None \<Rightarrow> False
           | Some old_spec \<Rightarrow>
               cd_eq_pod_spec cd (tm_spec (sx_template old_spec)) (tm_spec (sx_template (set_spec new)))))"

section \<open>Storage\<close>

datatype storage_comparison = SameStorage | IncreaseStorage | DecreaseStorage

text \<open>\<open>Requests.Storage()\<close> of a missing request is a zero quantity.\<close>

definition storage_of :: "pvc_spec \<Rightarrow> int" where
  "storage_of s = (case pv_storage s of None \<Rightarrow> 0 | Some q \<Rightarrow> q)"

definition compare_storage_requests :: "pvc_spec \<Rightarrow> pvc_spec \<Rightarrow> storage_comparison" where
  "compare_storage_requests initial updated =
     (if storage_of initial = 0 \<or> storage_of updated = 0 then SameStorage
      else if storage_of updated < storage_of initial then DecreaseStorage
      else if storage_of initial < storage_of updated then IncreaseStorage
      else SameStorage)"

definition is_default_storage_class :: "storage_class \<Rightarrow> bool" where
  "is_default_storage_class sc \<longleftrightarrow>
     mlen (om_annotations (sc_meta sc)) \<noteq> 0
     \<and> (mget (om_annotations (sc_meta sc)) ''storageclass.kubernetes.io/is-default-class'' = Some ''true''
        \<or> mget (om_annotations (sc_meta sc)) ''storageclass.beta.kubernetes.io/is-default-class'' = Some ''true'')"

definition get_default_storage_class :: "'w kube \<Rightarrow> ('w, storage_class) prog" where
  "get_default_storage_class K =
     bindp (api (kc_list K StorageClassKind [] [])) (\<lambda>obs.
       case find is_default_storage_class (List.map_filter as_storage_class obs) of
         Some sc \<Rightarrow> ret sc
       | None \<Rightarrow> throw (Failure ''no default storage class found''))"

definition get_storage_class :: "'w kube \<Rightarrow> pvc_spec \<Rightarrow> ('w, storage_class) prog" where
  "get_storage_class K claim =
     (case pv_storage_class_name claim of
        None \<Rightarrow> get_default_storage_class K
      | Some name \<Rightarrow>
          if name = [] then get_default_storage_class K
          else bindp (try_prog (decoded as_storage_class (kc_get K (OKey StorageClassKind [] name)))) (\<lambda>r.
            case r of
              Inl _ \<Rightarrow> throw (Failure ''cannot retrieve storage class'')
            | Inr sc \<Rightarrow> ret sc))"

definition allows_volume_expansion :: "storage_class \<Rightarrow> bool" where
  "allows_volume_expansion sc \<longleftrightarrow> sc_allow_expansion sc = Some True"

definition ensure_claim_supports_expansion :: "'w kube \<Rightarrow> pvc_spec \<Rightarrow> bool \<Rightarrow> ('w, unit) prog" where
  "ensure_claim_supports_expansion K claim validate_storage_class =
     (if \<not> validate_storage_class then ret ()
      else bindp (get_storage_class K claim) (\<lambda>sc.
        if \<not> allows_volume_expansion sc
        then throw (Failure ''does not support volume expansion'') else ret ()))"

definition claim_name :: "pvc \<Rightarrow> string" where
  "claim_name c = om_name (pc_meta c)"

definition get_claim :: "pvc list \<Rightarrow> string \<Rightarrow> pvc option" where
  "get_claim claims name = find (\<lambda>c. claim_name c = name) claims"

definition claim_matching_name :: "pvc list \<Rightarrow> string \<Rightarrow> pvc option" where
  "claim_matching_name claims name = find (\<lambda>c. claim_name c = name) claims"

text \<open>\<open>ValidateClaimsStorageUpdate\<close> of \<open>validation.go\<close>.\<close>

definition validate_claims_storage_update ::
  "'w kube \<Rightarrow> pvc list \<Rightarrow> pvc list \<Rightarrow> bool \<Rightarrow> ('w, unit) prog" where
  "validate_claims_storage_update K initial updated validate_storage_class =
     each (\<lambda>c.
       case claim_matching_name initial (claim_name c) of
         None \<Rightarrow> throw (Failure ''volume claim templates can only have their storage requests increased'')
       | Some ic \<Rightarrow>
           (case compare_storage_requests (pc_spec ic) (pc_spec c) of
              IncreaseStorage \<Rightarrow> ensure_claim_supports_expansion K (pc_spec c) validate_storage_class
            | DecreaseStorage \<Rightarrow> throw (Failure ''decreasing storage size is not supported'')
            | SameStorage \<Rightarrow> ret ())) updated"

section \<open>Stateful sets\<close>

text \<open>A nil \<open>Spec.Replicas\<close> panics when it is dereferenced.\<close>

definition has_reached_generation :: "stateful_set option \<Rightarrow> bool option" where
  "has_reached_generation s =
     (case s of
        None \<Rightarrow> Some False
      | Some x \<Rightarrow>
          (let st = set_status x in
           if ss_observed_generation st \<noteq> om_generation (set_meta x) then Some False
           else case sx_replicas (set_spec x) of
                  None \<Rightarrow> None
                | Some n \<Rightarrow> Some (ss_ready_replicas st = n \<and> ss_current_replicas st = n
                    \<and> ss_updated_replicas st = n \<and> ss_current_revision st = ss_update_revision st)))"

definition has_spec_changed :: "stateful_set \<Rightarrow> stateful_set \<Rightarrow> bool" where
  "has_spec_changed old new \<longleftrightarrow> set_spec old \<noteq> set_spec new"

definition has_status_changed :: "stateful_set \<Rightarrow> stateful_set \<Rightarrow> bool" where
  "has_status_changed old new \<longleftrightarrow> set_status old \<noteq> set_status new"

definition get_container_by_name :: "stateful_set \<Rightarrow> string \<Rightarrow> container option" where
  "get_container_by_name s name =
     find (\<lambda>c. ct_name c = name) (ps_containers (tm_spec (sx_template (set_spec s))))"

definition get_replicas :: "sts_spec \<Rightarrow> int" where
  "get_replicas s = (case sx_replicas s of Some n \<Rightarrow> n | None \<Rightarrow> 0)"

definition pod_name :: "string \<Rightarrow> int \<Rightarrow> string" where
  "pod_name set_name ordinal = dashed set_name ordinal"

definition pod_names :: "stateful_set \<Rightarrow> string list" where
  "pod_names s = map (\<lambda>i. pod_name (om_name (set_meta s)) (int i)) [0..<nat (get_replicas (set_spec s))]"

definition set_claims :: "stateful_set \<Rightarrow> pvc list" where
  "set_claims s = slice_items (sx_claims (set_spec s))"

definition pvc_names :: "stateful_set list \<Rightarrow> string list" where
  "pvc_names l = concat (map (\<lambda>s. concat (map (\<lambda>c. map (\<lambda>p. claim_name c @ ''-'' @ p) (pod_names s))
     (set_claims s))) l)"

text \<open>\<open>RetrieveActualPVCs\<close>: the map from claim names to the existing claims.\<close>

definition add_pvc :: "string \<Rightarrow> pvc \<Rightarrow> pvc list entries \<Rightarrow> pvc list entries" where
  "add_pvc name p m = put name ((case map_of m name of Some l \<Rightarrow> l | None \<Rightarrow> []) @ [p]) m"

fun retrieve_pvcs ::
  "'w kube \<Rightarrow> string \<Rightarrow> (string \<times> string) list \<Rightarrow> pvc list entries \<Rightarrow> ('w, pvc list entries) prog" where
  "retrieve_pvcs K ns [] m = ret m"
| "retrieve_pvcs K ns ((p, name) # ps) m =
     (if name = [] then retrieve_pvcs K ns ps m
      else bindp (try_prog (decoded as_pvc (kc_get K (OKey PvcKind ns (name @ ''-'' @ p))))) (\<lambda>r.
        case r of
          Inl e \<Rightarrow> if is_not_found e then retrieve_pvcs K ns ps m else throw e
        | Inr c \<Rightarrow> retrieve_pvcs K ns ps (add_pvc name c m)))"

definition retrieve_actual_pvcs :: "'w kube \<Rightarrow> stateful_set \<Rightarrow> ('w, pvc list entries) prog" where
  "retrieve_actual_pvcs K s =
     retrieve_pvcs K (om_namespace (set_meta s))
       (concat (map (\<lambda>p. map (\<lambda>c. (p, claim_name c)) (set_claims s)) (pod_names s))) []"

section \<open>Properties\<close>

lemma compare_storage_not_decrease:
  "compare_storage_requests a b \<noteq> DecreaseStorage \<longleftrightarrow>
     (storage_of a \<noteq> 0 \<and> storage_of b \<noteq> 0 \<longrightarrow> storage_of a \<le> storage_of b)"
  by (auto simp: compare_storage_requests_def)

text \<open>
  C12: The operator accepts changed claim templates exactly when every one of them exists already
  and none asks for less storage than before (a missing request counts as no change); the check
  itself, without validation of the storage class, sends no request.
\<close>

theorem claims_never_shrink:
  "validate_claims_storage_update K initial updated False w = (Done (), w') \<longleftrightarrow>
     w' = w \<and> list_all (\<lambda>c. case claim_matching_name initial (claim_name c) of
         None \<Rightarrow> False
       | Some ic \<Rightarrow> storage_of (pc_spec ic) = 0 \<or> storage_of (pc_spec c) = 0
           \<or> storage_of (pc_spec ic) \<le> storage_of (pc_spec c)) updated"
proof (induction updated)
  case Nil
  then show ?case by (auto simp: validate_claims_storage_update_def ret_def)
next
  case (Cons c cs)
  let ?f = "\<lambda>c. case claim_matching_name initial (claim_name c) of
         None \<Rightarrow> throw (Failure ''volume claim templates can only have their storage requests increased'')
       | Some ic \<Rightarrow>
           (case compare_storage_requests (pc_spec ic) (pc_spec c) of
              IncreaseStorage \<Rightarrow> ensure_claim_supports_expansion K (pc_spec c) False
            | DecreaseStorage \<Rightarrow> throw (Failure ''decreasing storage size is not supported'')
            | SameStorage \<Rightarrow> ret ())"
  have step: "?f c = (case claim_matching_name initial (claim_name c) of
      None \<Rightarrow> throw (Failure ''volume claim templates can only have their storage requests increased'')
    | Some ic \<Rightarrow> if storage_of (pc_spec ic) = 0 \<or> storage_of (pc_spec c) = 0
          \<or> storage_of (pc_spec ic) \<le> storage_of (pc_spec c) then ret ()
        else throw (Failure ''decreasing storage size is not supported''))"
    by (auto simp: compare_storage_requests_def ensure_claim_supports_expansion_def split: option.splits)
  have "validate_claims_storage_update K initial (c # cs) False
      = andthen (?f c) (validate_claims_storage_update K initial cs False)"
    by (simp add: validate_claims_storage_update_def)
  then show ?case
    using Cons unfolding step by (auto simp: throw_def split: option.splits)
qed

text \<open>
  \<open>DeploymentPodSpecChanged\<close> compares a value with a pointer, so it reports a change for
  every pair of deployments, also when the stored specification is the new one.
\<close>

lemma deployment_always_changed: "deployment_pod_spec_changed cd new_spec old_meta"
  by (simp add: deployment_pod_spec_changed_def split: sum.splits)

end
