(* ===== verification/Statefulset_Util.thy ===== *)
theory Statefulset_Util
  imports K8s_Utils Naming
begin

text \<open>
  \<open>controllers/daisymanager/statefulset_util.go\<close> and the volume helpers of \<open>util.go\<close>: the
  stateful set of a replica, built from its pod template and its claim templates, and the update
  of an existing one. The stateful set is passed along and returned changed.
\<close>

section \<open>Constants and small constructors\<close>

definition dir_common_config :: string where "dir_common_config = ''/etc/clickhouse-server/config.d/''"
definition dir_users_config :: string where "dir_users_config = ''/etc/clickhouse-server/users.d/''"
definition dir_host_config :: string where "dir_host_config = ''/etc/clickhouse-server/conf.d/''"
definition dir_data :: string where "dir_data = ''/var/lib/clickhouse''"
definition dir_log :: string where "dir_log = ''/var/log/clickhouse-server''"
definition ann_sts_last_sync_timestamp :: string where
  "ann_sts_last_sync_timestamp = ''tidb.pingcap.com/sync-timestamp''"

definition new_volume_mount :: "string \<Rightarrow> string \<Rightarrow> volume_mount" where
  "new_volume_mount name path = \<lparr>vm_name = name, vm_mount_path = path\<rparr>"

text \<open>Mode 0644 octal.\<close>

definition new_volume_for_config_map :: "string \<Rightarrow> volume" where
  "new_volume_for_config_map name = \<lparr>vo_name = name, vo_config_map = Some (name, 420), vo_other = []\<rparr>"

definition add_container :: "container \<Rightarrow> pod_spec \<Rightarrow> pod_spec" where
  "add_container c ps = ps\<lparr>ps_containers := ps_containers ps @ [c]\<rparr>"

text \<open>\<open>url.QueryEscape\<close>\<close>

definition hex_upper :: "nat \<Rightarrow> char" where
  "hex_upper n = ''0123456789ABCDEF'' ! n"

definition unreserved :: "char \<Rightarrow> bool" where
  "unreserved c \<longleftrightarrow> (CHR ''a'' \<le> c \<and> c \<le> CHR ''z'') \<or> (CHR ''A'' \<le> c \<and> c \<le> CHR ''Z'')
     \<or> (CHR ''0'' \<le> c \<and> c \<le> CHR ''9'') \<or> c \<in> set ''-_.~''"

definition query_escape :: "string \<Rightarrow> string" where
  "query_escape s = concat (map (\<lambda>c.
     if unreserved c then [c]
     else if c = CHR '' '' then ''+''
     else [CHR ''%'', hex_upper (of_char c div 16), hex_upper (of_char c mod 16)]) s)"

definition apostrophe :: string where "apostrophe = [CHR 0x27]"

definition readiness_path :: string where
  "readiness_path = ''/?user='' @ query_escape ''default'' @ ''&password='' @ query_escape [] @ ''&query=''
     @ query_escape (''SELECT throwIf(count()=0) FROM system.clusters WHERE cluster='' @ apostrophe
         @ ''all-sharded'' @ apostrophe @ '' AND is_local'')"

definition new_default_daisy_container :: container where
  "new_default_daisy_container =
     \<lparr>ct_name = ''clickhouse'', ct_image = ''yandex/clickhouse-server:latest'', ct_command = [], ct_args = [],
      ct_ports = [(''http'', 8123), (''tcp'', 9000), (''interserver'', 9009)],
      ct_volume_mounts = [],
      ct_liveness_probe = Some \<lparr>pr_path = ''/ping'', pr_port = ''http'', pr_headers = [],
        pr_initial_delay_seconds = 10, pr_period_seconds = 10\<rparr>,
      ct_readiness_probe = Some \<lparr>pr_path = readiness_path, pr_port = ''http'',
        pr_headers = [(''Accept'', ''*/*'')], pr_initial_delay_seconds = 30, pr_period_seconds = 10\<rparr>,
      ct_other = []\<rparr>"

definition log_container :: container where
  "log_container =
     \<lparr>ct_name = ''clickhouse-log'', ct_image = ''busybox'', ct_command = [''/bin/sh'', ''-c'', ''--''],
      ct_args = [''while true; do sleep 30; done;''], ct_ports = [], ct_volume_mounts = [],
      ct_liveness_probe = None, ct_readiness_probe = None, ct_other = []\<rparr>"

definition new_default_pod_template :: "string \<Rightarrow> pod_template" where
  "new_default_pod_template name =
     \<lparr>pt_name = name, pt_generate_name = [], pt_object_meta = [],
      pt_spec = add_container new_default_daisy_container
        \<lparr>ps_containers = [], ps_volumes = [], ps_host_aliases = [], ps_other = []\<rparr>\<rparr>"

definition get_pod_template :: "member_context \<Rightarrow> replica \<Rightarrow> pod_template" where
  "get_pod_template ctx r =
     (case get_daisy_pod_template ctx (tn_pod_template (rp_templates r)) of
        Some t \<Rightarrow> t
      | None \<Rightarrow> new_default_pod_template (rp_name r))"

section \<open>The pod template\<close>

definition update_pod :: "(pod_spec \<Rightarrow> pod_spec) \<Rightarrow> stateful_set \<Rightarrow> stateful_set" where
  "update_pod f s =
     s\<lparr>set_spec := (set_spec s)\<lparr>sx_template := (sx_template (set_spec s))\<lparr>tm_spec :=
         f (tm_spec (sx_template (set_spec s)))\<rparr>\<rparr>\<rparr>"

abbreviation set_pod :: "stateful_set \<Rightarrow> pod_spec" where
  "set_pod s \<equiv> tm_spec (sx_template (set_spec s))"

definition apply_pod_template ::
  "member_context \<Rightarrow> stateful_set \<Rightarrow> pod_template \<Rightarrow> replica \<Rightarrow> stateful_set" where
  "apply_pod_template ctx s t r =
     s\<lparr>set_spec := (set_spec s)\<lparr>sx_template :=
         \<lparr>tm_name = pt_name t,
          tm_labels = merge_string_maps (Some (label_replica ctx r)) (om_labels (set_meta s)) [],
          tm_annotations = om_annotations (set_meta s),
          tm_spec = pt_spec t\<rparr>\<rparr>\<rparr>"

definition ensure_clickhouse_container :: "stateful_set \<Rightarrow> stateful_set" where
  "ensure_clickhouse_container s =
     (if 0 < length (ps_containers (set_pod s)) then s
      else update_pod (add_container new_default_daisy_container) s)"

definition config_map_mounts :: "member_context \<Rightarrow> volume_mount list" where
  "config_map_mounts ctx =
     [new_volume_mount (create_config_map_common_name ctx) dir_common_config,
      new_volume_mount (create_config_map_common_users_name ctx) dir_users_config,
      new_volume_mount (create_config_map_pod_name ctx) dir_host_config]"

definition setup_config_map_volumes :: "member_context \<Rightarrow> stateful_set \<Rightarrow> stateful_set" where
  "setup_config_map_volumes ctx s =
     update_pod (\<lambda>p. p\<lparr>
       ps_volumes := ps_volumes p @
         [new_volume_for_config_map (create_config_map_common_name ctx),
          new_volume_for_config_map (create_config_map_common_users_name ctx),
          new_volume_for_config_map (create_config_map_pod_name ctx)],
       ps_containers := map (\<lambda>c. c\<lparr>ct_volume_mounts := ct_volume_mounts c @ config_map_mounts ctx\<rparr>)
         (ps_containers p)\<rparr>) s"

definition personalize_template :: "member_context \<Rightarrow> stateful_set \<Rightarrow> replica \<Rightarrow> stateful_set" where
  "personalize_template ctx s r =
     (let s1 = update_pod (\<lambda>p. p\<lparr>ps_host_aliases := [(''127.0.0.1'', [create_pod_hostname r])]\<rparr>) s;
          s2 = setup_config_map_volumes ctx s1;
          l = tn_log_volume_claim_template (rp_templates r)
      in if l \<noteq> [] \<and> get_volume_claim_template ctx l \<noteq> None
         then update_pod (add_container log_container) s2 else s2)"

definition setup_pod_template :: "member_context \<Rightarrow> stateful_set \<Rightarrow> replica \<Rightarrow> stateful_set" where
  "setup_pod_template ctx s r =
     personalize_template ctx
       (ensure_clickhouse_container (apply_pod_template ctx s (get_pod_template ctx r) r)) r"

section \<open>Claims\<close>

definition new_claim :: "member_context \<Rightarrow> replica \<Rightarrow> volume_claim_template \<Rightarrow> pvc" where
  "new_claim ctx r t =
     \<lparr>pc_kind = ''PersistentVolumeClaim'', pc_api_version = ''v1'',
      pc_meta = zero_meta\<lparr>om_name := vt_name t, om_labels := Some (label_replica ctx r)\<rparr>,
      pc_spec = (vt_spec t)\<lparr>pv_volume_mode := Some ''Filesystem''\<rparr>\<rparr>"

definition append_pvc_template ::
  "member_context \<Rightarrow> replica \<Rightarrow> stateful_set \<Rightarrow> volume_claim_template \<Rightarrow> stateful_set" where
  "append_pvc_template ctx r s t =
     (let claims = set_claims s
      in s\<lparr>set_spec := (set_spec s)\<lparr>sx_claims :=
           Some (if list_ex (\<lambda>c. claim_name c = vt_name t) claims then claims
                 else claims @ [new_claim ctx r t])\<rparr>\<rparr>)"

definition apply_mount_claim ::
  "member_context \<Rightarrow> replica \<Rightarrow> volume_mount \<Rightarrow> stateful_set \<Rightarrow> stateful_set" where
  "apply_mount_claim ctx r m s =
     (case get_volume_claim_template ctx (vm_name m) of
        None \<Rightarrow> s
      | Some t \<Rightarrow> append_pvc_template ctx r s t)"

definition apply_volume_mounts :: "member_context \<Rightarrow> stateful_set \<Rightarrow> replica \<Rightarrow> stateful_set" where
  "apply_volume_mounts ctx s r =
     fold (\<lambda>c s. fold (apply_mount_claim ctx r) (ct_volume_mounts c) s) (ps_containers (set_pod s)) s"

text \<open>The first container of a name, changed in place.\<close>

fun update_container :: "string \<Rightarrow> (container \<Rightarrow> container) \<Rightarrow> container list \<Rightarrow> container list" where
  "update_container name f [] = []"
| "update_container name f (c # cs) =
     (if ct_name c = name then f c # cs else c # update_container name f cs)"

definition apply_volume_mount ::
  "member_context \<Rightarrow> replica \<Rightarrow> string \<Rightarrow> volume_mount \<Rightarrow> stateful_set \<Rightarrow> stateful_set" where
  "apply_volume_mount ctx r cname m s =
     (if vm_mount_path m = [] then s
      else if vm_name m = [] then s
      else case get_volume_claim_template ctx (vm_name m) of
             None \<Rightarrow> s
           | Some t \<Rightarrow>
               (case get_container_by_name s cname of
                  None \<Rightarrow> s
                | Some c \<Rightarrow>
                    if list_ex (\<lambda>e. vm_name m = vm_name e \<or> vm_mount_path m = vm_mount_path e) (ct_volume_mounts c)
                    then s
                    else update_pod (\<lambda>p. p\<lparr>ps_containers := update_container cname
                             (\<lambda>c. c\<lparr>ct_volume_mounts := ct_volume_mounts c @ [m]\<rparr>) (ps_containers p)\<rparr>)
                           (append_pvc_template ctx r s t)))"

definition apply_volume_claim_templates :: "member_context \<Rightarrow> stateful_set \<Rightarrow> replica \<Rightarrow> stateful_set" where
  "apply_volume_claim_templates ctx s r =
     fold (\<lambda>i s.
        let data = new_volume_mount (tn_data_volume_claim_template (rp_templates r)) dir_data;
            logs = new_volume_mount (tn_log_volume_claim_template (rp_templates r)) dir_log;
            s1 = apply_volume_mount ctx r (ct_name (ps_containers (set_pod s) ! i)) data s
        in apply_volume_mount ctx r (ct_name (ps_containers (set_pod s1) ! i)) logs s1)
       [0..<length (ps_containers (set_pod s))] s"

definition setup_volume_claim_templates :: "member_context \<Rightarrow> stateful_set \<Rightarrow> replica \<Rightarrow> stateful_set" where
  "setup_volume_claim_templates ctx s r =
     apply_volume_claim_templates ctx (apply_volume_mounts ctx s r) r"

section \<open>The stateful set of a replica\<close>

definition zero_set_status :: stateful_set_status where
  "zero_set_status = \<lparr>ss_observed_generation = 0, ss_ready_replicas = 0, ss_current_replicas = 0,
     ss_updated_replicas = 0, ss_current_revision = [], ss_update_revision = []\<rparr>"

definition bare_stateful_set :: "member_context \<Rightarrow> daisy_installation \<Rightarrow> replica \<Rightarrow> stateful_set" where
  "bare_stateful_set ctx di r =
     \<lparr>set_meta = zero_meta\<lparr>om_name := rp_name r, om_namespace := mc_namespace ctx,
        om_labels := Some (label_replica ctx r), om_owner_references := [get_owner_ref di]\<rparr>,
      set_spec = \<lparr>sx_replicas = Some 1, sx_service_name = create_stateful_set_service_name r,
        sx_selector = Some (label_replica ctx r),
        sx_template = \<lparr>tm_name = [], tm_labels = None, tm_annotations = None,
           tm_spec = \<lparr>ps_containers = [], ps_volumes = [], ps_host_aliases = [], ps_other = []\<rparr>\<rparr>,
        sx_claims = None, sx_pod_management = ''OrderedReady'', sx_update_strategy = ''RollingUpdate'',
        sx_history_limit = Some 10\<rparr>,
      set_status = zero_set_status\<rparr>"

definition get_stateful_set_for_replica ::
  "member_context \<Rightarrow> daisy_installation \<Rightarrow> replica \<Rightarrow> stateful_set" where
  "get_stateful_set_for_replica ctx di r =
     setup_volume_claim_templates ctx (setup_pod_template ctx (bare_stateful_set ctx di r) r) r"

section \<open>Updating a stateful set\<close>

definition has_controller :: "object_meta \<Rightarrow> bool" where
  "has_controller m \<longleftrightarrow> list_ex or_controller (om_owner_references m)"

text \<open>\<open>util.go\<close> holds a second copy, line for line, of \<open>MergeStringMaps\<close> of \<open>pkg/util\<close>.\<close>

definition manager_merge_string_maps :: "string gomap \<Rightarrow> string gomap \<Rightarrow> string list \<Rightarrow> string gomap" where
  "manager_merge_string_maps dst src keys = merge_string_maps dst src keys"

definition get_clickhouse_container :: "stateful_set \<Rightarrow> container option" where
  "get_clickhouse_container s =
     (case ps_containers (tm_spec (sx_template (set_spec s))) of [] \<Rightarrow> None | c # _ \<Rightarrow> Some c)"

text \<open>
  The set \<open>UpdateStatefulSet\<close> sends: \<open>Inr None\<close> when it sends nothing, \<open>None\<close> when a nil
  \<open>Replicas\<close> is dereferenced.
\<close>

definition updated_stateful_set ::
  "codec \<Rightarrow> stateful_set \<Rightarrow> stateful_set \<Rightarrow> (error + stateful_set option) option" where
  "updated_stateful_set cd new old =
     (let is_orphan = \<not> has_controller (set_meta old);
          new_ann = mmake (om_annotations (set_meta new));
          old_ann = mmake (om_annotations (set_meta old));
          new' = new\<lparr>set_meta := (set_meta new)\<lparr>om_annotations := Some new_ann\<rparr>\<rparr>;
          old' = old\<lparr>set_meta := (set_meta old)\<lparr>om_annotations := Some old_ann\<rparr>\<rparr>
      in if \<not> stateful_set_equal cd new' old' \<or> is_orphan then
           (let pod_config = mget (tm_annotations (sx_template (set_spec old))) last_applied_config;
                template = (case pod_config of
                   None \<Rightarrow> sx_template (set_spec new)
                 | Some v \<Rightarrow> (sx_template (set_spec new))\<lparr>tm_annotations :=
                     Some (put last_applied_config v (mmake (tm_annotations (sx_template (set_spec new)))))\<rparr>);
                ann = (case map_of old_ann ann_sts_last_sync_timestamp of
                   None \<Rightarrow> new_ann | Some v \<Rightarrow> put ann_sts_last_sync_timestamp v new_ann)
            in case (sx_replicas (set_spec old), sx_replicas (set_spec new)) of
                 (Some _, Some n) \<Rightarrow>
                   (let spec = (set_spec old)\<lparr>sx_template := template, sx_replicas := Some n,
                                   sx_update_strategy := sx_update_strategy (set_spec new)\<rparr>;
                        meta = (set_meta old)\<lparr>om_annotations := Some ann\<rparr>;
                        meta' = (if is_orphan
                                 then meta\<lparr>om_owner_references := om_owner_references (set_meta new),
                                           om_labels := om_labels (set_meta new)\<rparr>
                                 else meta)
                    in Some (map_sum id Some
                         (set_stateful_set_last_applied cd (old\<lparr>set_spec := spec, set_meta := meta'\<rparr>))))
               | _ \<Rightarrow> None)
         else Some (Inr None))"

definition update_stateful_set ::
  "'w kube \<Rightarrow> codec \<Rightarrow> stateful_set \<Rightarrow> stateful_set \<Rightarrow> ('w, unit) prog" where
  "update_stateful_set K cd new old =
     (case updated_stateful_set cd new old of
        None \<Rightarrow> panic ''nil pointer''
      | Some (Inl e) \<Rightarrow> throw e
      | Some (Inr None) \<Rightarrow> ret ()
      | Some (Inr (Some s)) \<Rightarrow> andthen (api (kc_update K (KStatefulSet s))) (ret ()))"

section \<open>Lemmas\<close>

text \<open>What the setup of pod template and claims leaves alone.\<close>

definition set_head where
  "set_head s = (set_meta s, sx_replicas (set_spec s), sx_service_name (set_spec s), sx_selector (set_spec s),
     sx_pod_management (set_spec s), sx_update_strategy (set_spec s), sx_history_limit (set_spec s),
     tm_labels (sx_template (set_spec s)), tm_annotations (sx_template (set_spec s)))"

lemma head_update_pod [simp]: "set_head (update_pod f s) = set_head s"
  by (simp add: set_head_def update_pod_def)

lemma head_append_pvc [simp]: "set_head (append_pvc_template ctx r s t) = set_head s"
  by (simp add: set_head_def append_pvc_template_def Let_def)

lemma head_mount_claim [simp]: "set_head (apply_mount_claim ctx r m s) = set_head s"
  by (simp add: apply_mount_claim_def split: option.splits)

lemma head_volume_mount [simp]: "set_head (apply_volume_mount ctx r n m s) = set_head s"
  by (simp add: apply_volume_mount_def split: option.splits)

lemma head_fold: "(\<And>x s. h (f x s) = h s) \<Longrightarrow> h (fold f xs s) = h s"
  by (induction xs arbitrary: s) auto

lemma labels_new_claim [simp]: "om_labels (pc_meta (new_claim ctx r t)) = Some (label_replica ctx r)"
  by (simp add: new_claim_def)

lemma head_setup_claims [simp]: "set_head (setup_volume_claim_templates ctx s r) = set_head s"
  by (simp add: setup_volume_claim_templates_def apply_volume_claim_templates_def apply_volume_mounts_def
      head_fold Let_def)

lemma head_personalize [simp]: "set_head (personalize_template ctx s r) = set_head s"
  by (simp add: personalize_template_def setup_config_map_volumes_def Let_def)

lemma head_ensure_container [simp]: "set_head (ensure_clickhouse_container s) = set_head s"
  by (simp add: ensure_clickhouse_container_def)

lemma claims_update_pod [simp]: "set_claims (update_pod f s) = set_claims s"
  by (simp add: set_claims_def update_pod_def)

lemma claim_name_new_claim [simp]: "claim_name (new_claim ctx r t) = vt_name t"
  by (simp add: claim_name_def new_claim_def)

text \<open>The head of the wanted stateful set is the one the pod template has been put into.\<close>

lemma wanted_head:
  "set_head (get_stateful_set_for_replica ctx d r)
    = set_head (apply_pod_template ctx (bare_stateful_set ctx d r) (get_pod_template ctx r) r)"
  by (simp add: get_stateful_set_for_replica_def setup_pod_template_def)

lemma get_set_replicas [simp]: "sx_replicas (set_spec (get_stateful_set_for_replica ctx d r)) = Some 1"
  using wanted_head [of ctx d r] by (simp add: set_head_def apply_pod_template_def bare_stateful_set_def)

lemma wanted_meta: "set_meta (get_stateful_set_for_replica ctx d r) = set_meta (bare_stateful_set ctx d r)"
  using wanted_head [of ctx d r] by (simp add: set_head_def apply_pod_template_def)

lemma wanted_stays [simp]: "om_deletion_timestamp (set_meta (get_stateful_set_for_replica ctx d r)) = None"
  by (simp add: wanted_meta bare_stateful_set_def zero_meta_def)

lemma wanted_annotations [simp]: "om_annotations (set_meta (get_stateful_set_for_replica ctx d r)) = None"
  by (simp add: wanted_meta bare_stateful_set_def zero_meta_def)

lemma wanted_template_annotations:
  "tm_annotations (sx_template (set_spec (get_stateful_set_for_replica ctx d r))) = None"
  using wanted_head [of ctx d r] by (simp add: set_head_def apply_pod_template_def bare_stateful_set_def zero_meta_def)

text \<open>Claims: distinct names, each from a template of the installation, for this replica.\<close>

definition claims_ok :: "member_context \<Rightarrow> replica \<Rightarrow> stateful_set \<Rightarrow> bool" where
  "claims_ok ctx r s \<longleftrightarrow> distinct (map claim_name (set_claims s))
     \<and> (\<forall>c \<in> set (set_claims s). \<exists>n t. get_volume_claim_template ctx n = Some t \<and> c = new_claim ctx r t)"

lemma claims_append_pvc:
  assumes "claims_ok ctx r s" "get_volume_claim_template ctx n = Some t"
  shows "claims_ok ctx r (append_pvc_template ctx r s t)"
proof -
  have "set_claims (append_pvc_template ctx r s t) =
      (if \<exists>c \<in> set (set_claims s). claim_name c = vt_name t then set_claims s
       else set_claims s @ [new_claim ctx r t])"
    by (simp add: append_pvc_template_def set_claims_def Let_def slice_items_def list_ex_iff)
  with assms show ?thesis
    by (cases "\<exists>c \<in> set (set_claims s). claim_name c = vt_name t") (auto simp: claims_ok_def)
qed

lemma claims_ok_update_pod [simp]: "claims_ok ctx r (update_pod f s) \<longleftrightarrow> claims_ok ctx r s"
  by (simp add: claims_ok_def)

lemma claims_mount_claim: "claims_ok ctx r s \<Longrightarrow> claims_ok ctx r (apply_mount_claim ctx r m s)"
  by (auto simp: apply_mount_claim_def intro: claims_append_pvc split: option.splits)

lemma claims_volume_mount: "claims_ok ctx r s \<Longrightarrow> claims_ok ctx r (apply_volume_mount ctx r n m s)"
  by (auto simp: apply_volume_mount_def intro: claims_append_pvc split: option.splits)

lemma claims_setup:
  assumes "claims_ok ctx r s"
  shows "claims_ok ctx r (setup_volume_claim_templates ctx s r)"
  unfolding setup_volume_claim_templates_def apply_volume_claim_templates_def apply_volume_mounts_def Let_def
  by (intro fold_invariant [where P = "claims_ok ctx r"] claims_mount_claim claims_volume_mount assms)

lemma bare_claims [simp]: "claims_ok ctx r (setup_pod_template ctx (bare_stateful_set ctx di r) r)"
proof -
  have "set_claims (apply_pod_template ctx (bare_stateful_set ctx di r) t r) = []" for t
    by (simp add: apply_pod_template_def bare_stateful_set_def set_claims_def slice_items_def)
  then have "claims_ok ctx r (apply_pod_template ctx (bare_stateful_set ctx di r) t r)" for t
    by (simp add: claims_ok_def)
  then show ?thesis
    by (simp add: setup_pod_template_def personalize_template_def setup_config_map_volumes_def Let_def
        ensure_clickhouse_container_def)
qed

lemma label_replica_eq: "label_replica ctx r
   = replica_label (mc_installation ctx) (mc_cur_cluster ctx) (mc_cur_shard ctx) (rp_name r)"
  by (simp add: label_replica_def replica_label_def)

lemma distinct_label_replica [simp]: "keys_distinct (label_replica ctx r)"
  by (simp add: label_replica_def label_ops)

text \<open>
  C18: The stateful set of a replica is one the API server accepts and the controller can find
  again: one pod, named like the replica and its service, owned by the installation; its selector
  is the replica's label set and selects its own pod template; its claims have distinct names
  and come from the installation's claim templates.
\<close>

theorem stateful_set_well_formed:
  "let s = get_stateful_set_for_replica ctx di r in
     om_name (set_meta s) = rp_name r \<and> om_namespace (set_meta s) = mc_namespace ctx
     \<and> om_owner_references (set_meta s) = [get_owner_ref di]
     \<and> sx_replicas (set_spec s) = Some 1 \<and> sx_service_name (set_spec s) = rp_name r
     \<and> mget (sx_selector (set_spec s)) = map_of (label_replica ctx r)
     \<and> mget (tm_labels (sx_template (set_spec s))) = mget (sx_selector (set_spec s))
     \<and> distinct (map claim_name (set_claims s))
     \<and> list_all (\<lambda>c. (\<exists>n t. get_volume_claim_template ctx n = Some t \<and> claim_name c = vt_name t)
          \<and> om_labels (pc_meta c) = Some (label_replica ctx r)) (set_claims s)"
proof -
  let ?s = "get_stateful_set_for_replica ctx di r"
  let ?bare = "apply_pod_template ctx (bare_stateful_set ctx di r) (get_pod_template ctx r) r"
  have "set_head ?s = set_head ?bare" by (rule wanted_head)
  moreover have "mget (tm_labels (sx_template (set_spec ?bare))) k = map_of (label_replica ctx r) k" for k
    by (simp add: apply_pod_template_def bare_stateful_set_def merge_string_maps_all split: option.splits)
  moreover have ok: "claims_ok ctx r ?s"
    unfolding get_stateful_set_for_replica_def by (intro claims_setup) simp
  moreover have "list_all (\<lambda>c. (\<exists>n t. get_volume_claim_template ctx n = Some t \<and> claim_name c = vt_name t)
      \<and> om_labels (pc_meta c) = Some (label_replica ctx r)) (set_claims ?s)"
    using ok by (fastforce simp: claims_ok_def list_all_iff)
  ultimately show ?thesis
    by (simp add: Let_def set_head_def apply_pod_template_def bare_stateful_set_def claims_ok_def
        create_stateful_set_service_name_def fun_eq_iff)
qed


text \<open>A codec for concrete runs: every text stands for one given specification.\<close>

definition const_codec :: "sts_spec \<Rightarrow> service_spec \<Rightarrow> installation_spec \<Rightarrow> pod_spec \<Rightarrow> codec" where
  "const_codec st sv sp ps = \<lparr>
     cd_marshal_service = (\<lambda>_. Some ''svc''), cd_unmarshal_service = (\<lambda>_. Some sv),
     cd_marshal_set = (\<lambda>_. Some ''sts''), cd_unmarshal_set = (\<lambda>_. Some st),
     cd_marshal_installation = (\<lambda>_. Some ''di''), cd_unmarshal_installation = (\<lambda>_. Some sp),
     cd_unmarshal_pod_spec = (\<lambda>_. Some ps),
     cd_eq_service = (=), cd_eq_strings = (\<lambda>a b. mget a = mget b), cd_eq_template = (=), cd_eq_pod_spec = (=)\<rparr>"

definition codec_faithful :: "codec \<Rightarrow> sts_spec \<Rightarrow> bool" where
  "codec_faithful cd spec \<longleftrightarrow>
     (\<forall>b. cd_marshal_set cd spec = Some b \<longrightarrow>
       (\<exists>x. cd_unmarshal_set cd b = Some x \<and> sx_replicas x = sx_replicas spec
          \<and> sx_update_strategy x = sx_update_strategy spec
          \<and> cd_eq_template cd ((sx_template x)\<lparr>tm_annotations :=
                mdel last_applied_config (tm_annotations (sx_template x))\<rparr>) (sx_template spec)))
     \<and> (\<forall>a b. cd_eq_strings cd a b \<longleftrightarrow> mget a = mget b)"

lemma fold_drop_key:
  "map_of (fold (\<lambda>(k, v) m. if k \<noteq> x then put k v m else m) es m0) =
     map_of m0 ++ map_of (rev (filter (\<lambda>(k, v). k \<noteq> x) es))"
  by (rule entries.lookup_copy_accepted)


definition example_set :: "string \<Rightarrow> stateful_set" where
  "example_set name =
     \<lparr>set_meta = zero_meta\<lparr>om_name := ''s'', om_owner_references := [get_owner_ref zero_installation]\<rparr>,
      set_spec = \<lparr>sx_replicas = Some 1, sx_service_name = ''s'', sx_selector = None,
        sx_template = \<lparr>tm_name = name, tm_labels = None, tm_annotations = None,
           tm_spec = \<lparr>ps_containers = [], ps_volumes = [], ps_host_aliases = [], ps_other = []\<rparr>\<rparr>,
        sx_claims = None, sx_pod_management = ''OrderedReady'', sx_update_strategy = ''RollingUpdate'',
        sx_history_limit = None\<rparr>,
      set_status = zero_set_status\<rparr>"

definition example_codec :: codec where
  "example_codec = const_codec (set_spec (example_set ''b''))
     \<lparr>vs_ports = [], vs_selector = None, vs_cluster_ip = [], vs_type = [], vs_publish_not_ready = False\<rparr>
     zero_spec \<lparr>ps_containers = [], ps_volumes = [], ps_host_aliases = [], ps_other = []\<rparr>"

lemma example_update:
  "updated_stateful_set example_codec (example_set ''b'') (example_set ''a'') =
     Some (Inr (Some ((example_set ''b'')\<lparr>set_meta := (set_meta (example_set ''b''))\<lparr>om_annotations :=
       Some [(last_applied_config, ''sts'')]\<rparr>\<rparr>)))"
  by (simp add: updated_stateful_set_def example_set_def example_codec_def const_codec_def Let_def
      stateful_set_equal_def set_stateful_set_last_applied_def set_annotation_def put_def zero_meta_def
      has_controller_def get_owner_ref_def)



end
