(* ===== verification/Xml_Builder.thy ===== *)
theory Xml_Builder
  imports Settings
begin

text \<open>
  \<open>pkg/util/xml/xml.go\<close>: a section of settings becomes a tree of tags and the tree becomes text.
  The nodes are not shared, so a tree is a value. Indentation is counted in \<open>uint8\<close>. The text
  written to the \<open>io.Writer\<close> is the result.
\<close>

section \<open>The tree\<close>

datatype xml_node = XmlNode (xn_children: "xml_node list") (xn_tag: string) (xn_value: "setting option")

definition xml_root :: xml_node where
  "xml_root = XmlNode [] [] None"

text \<open>\<open>addChild\<close> finds or appends the child; \<open>f\<close> is what the caller does to it.\<close>

fun update_child :: "string \<Rightarrow> (xml_node \<Rightarrow> xml_node) \<Rightarrow> xml_node list \<Rightarrow> xml_node list" where
  "update_child tag f [] = [f (XmlNode [] tag None)]"
| "update_child tag f (c # cs) = (if xn_tag c = tag then f c # cs else c # update_child tag f cs)"

primrec add_branch :: "string list \<Rightarrow> setting \<Rightarrow> xml_node \<Rightarrow> xml_node" where
  "add_branch [] s n = XmlNode (xn_children n) (xn_tag n) (Some s)"
| "add_branch (tag # tags) s n =
     XmlNode (update_child tag (add_branch tags s) (xn_children n)) (xn_tag n) (xn_value n)"

definition xml_normalize_path :: "string \<Rightarrow> string \<Rightarrow> string" where
  "xml_normalize_path pre path =
     (let p = trim_char (CHR ''/'') (squeeze (CHR ''/'') path)
      in if 0 < length pre then pre @ ''/'' @ p else p)"

text \<open>\<open>data\<close> of the source, with the paths in the order they are met.\<close>

definition xml_paths :: "string \<Rightarrow> setting entries \<Rightarrow> (string \<times> string) list" where
  "xml_paths pre es =
     filter (\<lambda>(path, _). path \<noteq> []) (map (\<lambda>(name, _). (xml_normalize_path pre name, name)) es)"

definition xml_tree :: "setting entries \<Rightarrow> string \<Rightarrow> xml_node" where
  "xml_tree es pre =
     (let paths = sort (map fst (xml_paths pre es));
          data = fold (\<lambda>(path, name). put path name) (xml_paths pre es) []
      in fold (\<lambda>path n.
           case map_of data path of
             None \<Rightarrow> n
           | Some name \<Rightarrow>
               (case map_of es name of
                  None \<Rightarrow> n
                | Some s \<Rightarrow> add_branch (go_split (CHR ''/'') path) s n)) paths xml_root)"

section \<open>The text\<close>

text \<open>\<open>writeTag\<close>; an indentation of more than zero is written by \<open>%ns\<close> of one blank.\<close>

definition write_tag :: "string \<Rightarrow> 8 word \<Rightarrow> bool \<Rightarrow> string \<Rightarrow> string" where
  "write_tag tag indent open_tag eol =
     (if tag = [] then []
      else (if 0 < indent then blanks (unat indent) else [])
           @ (if open_tag then ''<'' else ''</'') @ tag @ ''>'' @ eol)"

definition removed_attr :: string where
  "removed_attr = '' remove='' @ [CHR 0x22, CHR ''1'', CHR 0x22]"

definition write_tag_with_value :: "string \<Rightarrow> string \<Rightarrow> 8 word \<Rightarrow> string" where
  "write_tag_with_value tag value indent =
     (if value \<noteq> ''_removed_''
      then write_tag tag indent True [] @ value @ write_tag tag 0 False newline
      else write_tag (tag @ removed_attr) indent True [] @ write_tag tag 0 False newline)"

fun build_xml :: "8 word \<Rightarrow> 8 word \<Rightarrow> xml_node \<Rightarrow> string" where
  "build_xml indent tabsize (XmlNode children tag value) =
     (case value of
        None \<Rightarrow>
          write_tag tag indent True newline
          @ concat (map (build_xml (indent + tabsize) tabsize) children)
          @ write_tag tag indent False newline
      | Some s \<Rightarrow>
          if is_scalar s then write_tag_with_value tag (scalar_value s) indent
          else concat (map (\<lambda>v. write_tag_with_value tag v indent) (vector_value s)))"

definition generate_xml :: "setting entries \<Rightarrow> string \<Rightarrow> string" where
  "generate_xml es pre = build_xml 0 4 (xml_tree es pre)"

section \<open>The tree as a map from tag paths to settings\<close>

primrec node_value :: "string list \<Rightarrow> xml_node \<Rightarrow> setting option" where
  "node_value [] n = xn_value n"
| "node_value (t # ts) n =
     (case find (\<lambda>c. xn_tag c = t) (xn_children n) of None \<Rightarrow> None | Some c \<Rightarrow> node_value ts c)"

lemma xn_tag_add_branch [simp]: "xn_tag (add_branch ts s n) = xn_tag n"
  by (cases ts) auto

lemma find_update_child:
  assumes "\<And>c. xn_tag (f c) = xn_tag c"
  shows "find (\<lambda>c. xn_tag c = t) (update_child tag f cs) =
     (if t = tag
      then Some (f (case find (\<lambda>c. xn_tag c = t) cs of Some c \<Rightarrow> c | None \<Rightarrow> XmlNode [] tag None))
      else find (\<lambda>c. xn_tag c = t) cs)"
  using assms by (induction cs) auto

lemma node_value_fresh [simp]: "node_value ts (XmlNode [] t None) = None"
  by (cases ts) auto

lemma node_value_add_branch:
  "node_value ts' (add_branch ts s n) = (if ts' = ts then Some s else node_value ts' n)"
proof (induction ts arbitrary: ts' n)
  case Nil
  then show ?case by (cases ts') auto
next
  case (Cons t ts)
  then show ?case
    by (cases ts') (auto simp: find_update_child split: option.splits)
qed

lemma xml_data:
  "map_of (fold (\<lambda>(path, name). put path name) ps []) = map_of (rev ps)"
  using entries.lookup_copy_all [of ps "[]"] by simp

lemma node_value_fold:
  assumes "\<And>p. p \<in> set ps \<Longrightarrow> f p \<noteq> None"
  shows "node_value ts (fold (\<lambda>path n. case f path of None \<Rightarrow> n
      | Some s \<Rightarrow> add_branch (go_split c path) s n) ps n) =
    (if \<exists>p \<in> set ps. go_split c p = ts then f (go_join [c] ts) else node_value ts n)"
  using assms
proof (induction ps arbitrary: n)
  case (Cons p ps)
  obtain s where "f p = Some s" using Cons.prems [of p] by auto
  moreover have "f q \<noteq> None" if "q \<in> set ps" for q using Cons.prems that by simp
  ultimately show ?case
    using Cons.IH by (auto simp: node_value_add_branch go_join_split dest: go_split_inject)
qed simp

lemma xml_paths_mem:
  "(path, name) \<in> set (xml_paths pre es) \<longleftrightarrow>
     name \<in> keys_of es \<and> path = xml_normalize_path pre name \<and> path \<noteq> []"
  by (force simp: xml_paths_def)

text \<open>The tree holds exactly the settings, each under the tags of its normalized path.\<close>

lemma node_value_xml_tree:
  "node_value ts (xml_tree es pre) =
     (case map_of (rev (xml_paths pre es)) (go_join ''/'' ts) of
        Some name \<Rightarrow> if go_split (CHR ''/'') (go_join ''/'' ts) = ts then map_of es name else None
      | None \<Rightarrow> None)"
proof -
  let ?ps = "xml_paths pre es"
  let ?f = "\<lambda>path. case map_of (rev ?ps) path of None \<Rightarrow> None | Some name \<Rightarrow> map_of es name"
  have body: "(case map_of (rev ?ps) path of None \<Rightarrow> n
      | Some name \<Rightarrow> (case map_of es name of None \<Rightarrow> n
          | Some s \<Rightarrow> add_branch (go_split (CHR ''/'') path) s n))
      = (case ?f path of None \<Rightarrow> n | Some s \<Rightarrow> add_branch (go_split (CHR ''/'') path) s n)" for path n
    by (simp split: option.splits)
  have def_f: "?f p \<noteq> None" if "p \<in> set (sort (map fst ?ps))" for p
  proof -
    have "p \<in> fst ` set (rev ?ps)" using that by simp
    then obtain name where name: "map_of (rev ?ps) p = Some name"
      by (metis map_of_eq_None_iff option.exhaust)
    then have "name \<in> keys_of es" by (auto simp: xml_paths_mem dest: map_of_SomeD)
    then show ?thesis using name by (simp add: map_of_None_iff)
  qed
  have "node_value ts (xml_tree es pre) =
      (if \<exists>p \<in> set (sort (map fst ?ps)). go_split (CHR ''/'') p = ts then ?f (go_join ''/'' ts)
       else node_value ts xml_root)"
    unfolding xml_tree_def Let_def xml_data body by (rule node_value_fold) (rule def_f)
  moreover have "(\<exists>p \<in> set (sort (map fst ?ps)). go_split (CHR ''/'') p = ts) \<longleftrightarrow>
      map_of (rev ?ps) (go_join ''/'' ts) \<noteq> None \<and> go_split (CHR ''/'') (go_join ''/'' ts) = ts"
    by (force simp: map_of_None_iff go_join_split)
  ultimately show ?thesis
    by (auto simp: xml_root_def split: option.splits)
qed

section \<open>Nesting\<close>

text \<open>
  The documents \<open>GenerateXML\<close> is meant to write: a sequence of elements, each indented, closed by
  its own tag, holding either a text without markup or more elements.
\<close>

definition plain :: "string \<Rightarrow> bool" where
  "plain s \<longleftrightarrow> CHR ''<'' \<notin> set s"

inductive xml_items :: "string \<Rightarrow> bool" where
  none: "xml_items []"
| leaf: "plain tag \<Longrightarrow> plain value \<Longrightarrow> attr = [] \<or> attr = removed_attr \<Longrightarrow> xml_items rest \<Longrightarrow>
    xml_items (blanks n @ ''<'' @ tag @ attr @ ''>'' @ value @ ''</'' @ tag @ ''>'' @ newline @ rest)"
| element: "plain tag \<Longrightarrow> xml_items body \<Longrightarrow> xml_items rest \<Longrightarrow>
    xml_items (blanks n @ ''<'' @ tag @ ''>'' @ newline @ body @ blanks n @ ''</'' @ tag @ ''>'' @ newline @ rest)"

inductive_cases xml_items_nonempty: "xml_items (c # s)"

lemma xml_items_append: "xml_items a \<Longrightarrow> xml_items b \<Longrightarrow> xml_items (a @ b)"
proof (induction a rule: xml_items.induct)
  case (leaf tag v attr rest n)
  then show ?case using xml_items.leaf [of tag v attr "rest @ b" n] by simp
next
  case (element tag body rest n)
  then show ?case using xml_items.element [of tag body "rest @ b" n] by simp
qed simp

lemma xml_items_concat: "(\<And>x. x \<in> set xs \<Longrightarrow> xml_items (f x)) \<Longrightarrow> xml_items (concat (map f xs))"
  by (induction xs) (auto intro: xml_items.none xml_items_append)

lemma blanks_0 [simp]: "blanks 0 = []"
  by (simp add: blanks_def)

lemma write_tag_indent:
  "tag \<noteq> [] \<Longrightarrow> write_tag tag i o_tag eol
     = blanks (unat i) @ (if o_tag then ''<'' else ''</'') @ tag @ ''>'' @ eol"
  by (cases "i = 0") (auto simp: write_tag_def word_gt_0)

lemma xml_items_value:
  assumes "tag \<noteq> []" "plain tag" "plain v"
  shows "xml_items (write_tag_with_value tag v i)"
proof (cases "v = ''_removed_''")
  case True
  then show ?thesis
    using assms xml_items.leaf [of tag "[]" removed_attr "[]" "unat i"] xml_items.none
    by (simp add: write_tag_with_value_def write_tag_indent plain_def)
next
  case False
  then show ?thesis
    using assms xml_items.leaf [of tag v "[]" "[]" "unat i"] xml_items.none
    by (simp add: write_tag_with_value_def write_tag_indent)
qed

fun plain_values :: "xml_node \<Rightarrow> bool" where
  "plain_values (XmlNode children tag value) \<longleftrightarrow>
     list_all plain_values children \<and> plain tag
     \<and> (case value of None \<Rightarrow> True
        | Some s \<Rightarrow> tag \<noteq> [] \<and> plain (scalar_value s) \<and> list_all plain (vector_value s))"

lemma xml_items_build: "plain_values n \<Longrightarrow> xml_items (build_xml i tab n)"
proof (induction i tab n rule: build_xml.induct)
  case (1 i tab children tag v)
  show ?case
  proof (cases v)
    case None
    have "xml_items (concat (map (build_xml (i + tab) tab) children))"
      using 1 None by (intro xml_items_concat) (auto simp: list_all_iff)
    then show ?thesis
      using None xml_items.element [of tag _ "[]" "unat i"] 1(2) xml_items.none
      by (cases "tag = []") (simp_all add: write_tag_indent write_tag_def [of "[]"])
  next
    case (Some s)
    with 1(2) show ?thesis
      by (auto simp: list_all_iff intro!: xml_items_value xml_items_concat)
  qed
qed

lemma plain_values_update_child:
  "list_all plain_values cs \<Longrightarrow> plain tag \<Longrightarrow>
   (\<And>c. plain_values c \<Longrightarrow> xn_tag c = tag \<Longrightarrow> plain_values (f c)) \<Longrightarrow>
   list_all plain_values (update_child tag f cs)"
  by (induction cs) auto

lemma plain_values_add_branch:
  assumes "plain_values n" "tags = [] \<longrightarrow> xn_tag n \<noteq> []" "tags \<noteq> [] \<longrightarrow> last tags \<noteq> []"
    and "list_all plain tags" "plain (scalar_value s)" "list_all plain (vector_value s)"
  shows "plain_values (add_branch tags s n)"
  using assms
proof (induction tags arbitrary: n)
  case Nil
  then show ?case by (cases n) simp
next
  case (Cons t tags)
  have "plain_values (add_branch tags s c)" if "plain_values c" "xn_tag c = t" for c
    using Cons that by (intro Cons.IH) (auto split: if_splits)
  moreover obtain cs t' v where "n = XmlNode cs t' v" by (cases n)
  ultimately show ?case using Cons.prems(1,4) by (auto intro: plain_values_update_child)
qed

lemma set_trim_char: "set (trim_char c s) \<subseteq> set s"
  by (auto simp: trim_char_def dest!: set_dropWhileD)

lemma set_squeeze: "set (squeeze c s) \<subseteq> set s"
  by (induction c s rule: squeeze.induct) auto

lemma plain_split: "plain s \<Longrightarrow> list_all plain (go_split c s)"
proof -
  have "p \<in> set (go_split c s) \<Longrightarrow> set p \<subseteq> set s" for p
  proof (induction s arbitrary: p)
    case (Cons x s)
    then show ?case by (fastforce split: list.splits if_splits)
  qed simp
  then show "plain s \<Longrightarrow> list_all plain (go_split c s)" by (auto simp: plain_def list_all_iff subset_iff)
qed

lemma last_trim_char:
  assumes "trim_char c s \<noteq> []"
  shows "last (trim_char c s) \<noteq> c"
proof -
  let ?t = "dropWhile ((=) c) (rev (dropWhile ((=) c) s))"
  have "?t \<noteq> []" using assms by (simp add: trim_char_def)
  then have "\<not> (c = hd ?t)" by (rule dropWhile_hd)
  then show ?thesis using \<open>?t \<noteq> []\<close> by (simp add: trim_char_def last_rev)
qed

lemma last_split_nonempty:
  assumes "s \<noteq> []" "last s \<noteq> c"
  shows "last (go_split c s) \<noteq> []"
proof (cases "c \<in> set s")
  case True
  then obtain p q where s: "s = p @ c # q" "c \<notin> set q" by (metis split_list_last)
  with assms(2) have "q \<noteq> []" by auto
  with s show ?thesis by (simp add: last_go_split_append)
qed (use assms in \<open>simp add: go_split_no_sep\<close>)

definition printable :: "setting entries \<Rightarrow> bool" where
  "printable es \<longleftrightarrow> (\<forall>(k, s) \<in> set es. plain k \<and> plain (scalar_value s) \<and> list_all plain (vector_value s)
     \<and> trim_char (CHR ''/'') (squeeze (CHR ''/'') k) \<noteq> [])"

lemma plain_normalize_path:
  assumes "plain pre" "plain k" "trim_char (CHR ''/'') (squeeze (CHR ''/'') k) \<noteq> []"
  shows "list_all plain (go_split (CHR ''/'') (xml_normalize_path pre k))"
    and "last (go_split (CHR ''/'') (xml_normalize_path pre k)) \<noteq> []"
proof -
  let ?p = "trim_char (CHR ''/'') (squeeze (CHR ''/'') k)"
  have "plain ?p"
    using assms(2) set_trim_char [of "CHR ''/''" "squeeze (CHR ''/'') k"] set_squeeze [of "CHR ''/''" k]
    by (auto simp: plain_def)
  then have "plain (xml_normalize_path pre k)"
    using assms(1) by (simp add: xml_normalize_path_def Let_def plain_def)
  then show "list_all plain (go_split (CHR ''/'') (xml_normalize_path pre k))" by (rule plain_split)
  show "last (go_split (CHR ''/'') (xml_normalize_path pre k)) \<noteq> []"
    using assms(3) last_trim_char [OF assms(3)]
    by (intro last_split_nonempty) (auto simp: xml_normalize_path_def Let_def)
qed

lemma plain_values_xml_tree:
  assumes "printable es" "plain pre"
  shows "plain_values (xml_tree es pre)"
  unfolding xml_tree_def Let_def
proof (rule fold_invariant)
  show "plain_values xml_root" by (simp add: xml_root_def plain_def)
next
  fix path n assume "plain_values n"
  let ?d = "fold (\<lambda>(path, name). put path name) (xml_paths pre es) []"
  show "plain_values (case map_of ?d path of None \<Rightarrow> n
      | Some name \<Rightarrow> (case map_of es name of None \<Rightarrow> n
          | Some s \<Rightarrow> add_branch (go_split (CHR ''/'') path) s n))"
  proof (cases "map_of ?d path")
    case (Some name)
    then have "(path, name) \<in> set (xml_paths pre es)" by (auto simp: xml_data dest: map_of_SomeD)
    then have path: "path = xml_normalize_path pre name" by (simp add: xml_paths_mem)
    show ?thesis
    proof (cases "map_of es name")
      case s: (Some s)
      then have "(name, s) \<in> set es" by (rule map_of_SomeD)
      with assms(1) have "plain name" "plain (scalar_value s)" "list_all plain (vector_value s)"
        "trim_char (CHR ''/'') (squeeze (CHR ''/'') name) \<noteq> []"
        by (auto simp: printable_def)
      then show ?thesis
        using \<open>plain_values n\<close> Some s plain_normalize_path [OF assms(2)]
        by (simp add: path plain_values_add_branch)
    qed (use Some \<open>plain_values n\<close> in simp)
  qed (use \<open>plain_values n\<close> in simp)
qed

text \<open>
  C26: The tree built for a section is that section: two settings whose normalized paths differ
  never disturb each other, each is found under the tags of its path, and nothing else is in
  the tree.
\<close>

theorem xml_tree_holds_settings:
  assumes "keys_distinct es"
    and "inj_on (xml_normalize_path pre) (keys_of es)"
  shows "node_value ts (xml_tree es pre) = Some s \<longleftrightarrow>
     (\<exists>name. (name, s) \<in> set es \<and> xml_normalize_path pre name \<noteq> []
        \<and> go_split (CHR ''/'') (xml_normalize_path pre name) = ts)"
proof -
  have paths: "keys_distinct (xml_paths pre es)"
    unfolding xml_paths_def using assms
    by (intro keys_distinct_filter) (auto simp: distinct_map o_def split_def inj_on_def)
  then have data: "map_of (rev (xml_paths pre es)) p = Some name \<longleftrightarrow>
      name \<in> keys_of es \<and> p = xml_normalize_path pre name \<and> p \<noteq> []" for p name
    by (simp add: map_of_rev_distinct xml_paths_mem)
  show ?thesis
  proof
    assume "node_value ts (xml_tree es pre) = Some s"
    then obtain name where name: "map_of (rev (xml_paths pre es)) (go_join ''/'' ts) = Some name"
      "go_split (CHR ''/'') (go_join ''/'' ts) = ts" "map_of es name = Some s"
      by (auto simp: node_value_xml_tree split: option.splits if_splits)
    then have "(name, s) \<in> set es" "go_join ''/'' ts = xml_normalize_path pre name" "go_join ''/'' ts \<noteq> []"
      using data by (auto dest: map_of_SomeD)
    with name(2) show "\<exists>name. (name, s) \<in> set es \<and> xml_normalize_path pre name \<noteq> []
        \<and> go_split (CHR ''/'') (xml_normalize_path pre name) = ts" by auto
  next
    assume "\<exists>name. (name, s) \<in> set es \<and> xml_normalize_path pre name \<noteq> []
        \<and> go_split (CHR ''/'') (xml_normalize_path pre name) = ts"
    then obtain name where name: "(name, s) \<in> set es" "xml_normalize_path pre name \<noteq> []"
      "ts = go_split (CHR ''/'') (xml_normalize_path pre name)" by auto
    then have "map_of (rev (xml_paths pre es)) (go_join ''/'' ts) = Some name"
      using data by (force simp: go_join_split)
    then show "node_value ts (xml_tree es pre) = Some s"
      using name assms(1) by (simp add: node_value_xml_tree go_join_split)
  qed
qed

theorem xml_tree_holds_settings_witness:
  "node_value [''users'', ''a'', ''quota''] (xml_tree [(''a/quota'', new_scalar_setting ''q'')] ''users'')
     = Some (new_scalar_setting ''q'')"
proof -
  have "xml_normalize_path ''users'' ''a/quota'' = ''users/a/quota''"
    "go_split (CHR ''/'') ''users/a/quota'' = [''users'', ''a'', ''quota'']" by code_simp+
  then show ?thesis
    using xml_tree_holds_settings [of "[(''a/quota'', new_scalar_setting ''q'')]" "''users''"
        "[''users'', ''a'', ''quota'']" "new_scalar_setting ''q''"] by simp
qed

text \<open>
  C27: When no path and no value contains a markup character, what \<open>GenerateXML\<close> writes is well
  nested: every element is closed by its own tag after its content, at any depth, also when the
  8-bit indentation has wrapped around. Values are written as they are; one with a \<open><\<close> breaks the
  document.
\<close>

theorem generate_xml_nested:
  assumes "printable es" "plain pre"
  shows "xml_items (generate_xml es pre)"
  unfolding generate_xml_def by (rule xml_items_build) (rule plain_values_xml_tree [OF assms])

theorem generate_xml_nested_witness:
  "xml_items (generate_xml [(''a/quota'', new_scalar_setting ''q''), (''a/ip'', new_vector_setting [''x'', ''y''])] ''users'')"
proof (rule generate_xml_nested)
  have "trim_char (CHR ''/'') (squeeze (CHR ''/'') ''a/quota'') = ''a/quota''"
    "trim_char (CHR ''/'') (squeeze (CHR ''/'') ''a/ip'') = ''a/ip''" by code_simp+
  then show "printable [(''a/quota'', new_scalar_setting ''q''), (''a/ip'', new_vector_setting [''x'', ''y''])]"
    by (simp add: printable_def plain_def new_scalar_setting_def new_vector_setting_def)
qed (simp add: plain_def)

end
