(* ===== verification/Operator_Config.thy ===== *)
theory Operator_Config
  imports Member_Context
begin

text \<open>
  The operator's own configuration: \<open>api/v1/daisyoperatorconfiguration_types.go\<close>,
  \<open>api/v1/type_config.go\<close> and \<open>controllers/daisymanager/config_manager.go\<close>. Environment variables,
  the file system and YAML parsing are read through the record \<open>host_env\<close>; \<open>mergo.Merge\<close> is
  a parameter. The catalogue of templates holds pointers that are never nil.
\<close>

section \<open>Data\<close>

record operator_config =
  oc_config_file_path :: string
  oc_config_folder_path :: string
  oc_watch_namespaces :: "string list"
  oc_common_configs_path :: string
  oc_host_configs_path :: string
  oc_users_configs_path :: string
  oc_common_configs :: "string gomap"
  oc_host_configs :: "string gomap"
  oc_users_configs :: "string gomap"
  oc_templates_path :: string
  oc_template_files :: "string gomap"
  oc_templates :: "daisy_installation list"
  oc_template :: "daisy_installation option"
  oc_update_timeout :: int
  oc_update_poll_period :: int
  oc_on_create_failure :: string
  oc_on_update_failure :: string
  oc_user_default_profile :: string
  oc_user_default_quota :: string
  oc_user_default_networks_ip :: "string list"
  oc_user_default_password :: string
  oc_host_regexp_template :: string
  oc_username :: string
  oc_password :: string
  oc_port :: int
  oc_logtostderr :: string
  oc_alsologtostderr :: string
  oc_v :: string
  oc_stderrthreshold :: string
  oc_vmodule :: string
  oc_log_backtrace_at :: string
  oc_reconcile_threads :: int

definition zero_operator_config :: operator_config where
  "zero_operator_config = \<lparr>oc_config_file_path = [], oc_config_folder_path = [],
     oc_watch_namespaces = [], oc_common_configs_path = [], oc_host_configs_path = [],
     oc_users_configs_path = [], oc_common_configs = None, oc_host_configs = None,
     oc_users_configs = None, oc_templates_path = [], oc_template_files = None, oc_templates = [],
     oc_template = None, oc_update_timeout = 0, oc_update_poll_period = 0,
     oc_on_create_failure = [], oc_on_update_failure = [], oc_user_default_profile = [],
     oc_user_default_quota = [], oc_user_default_networks_ip = [], oc_user_default_password = [],
     oc_host_regexp_template = [], oc_username = [], oc_password = [], oc_port = 0,
     oc_logtostderr = [], oc_alsologtostderr = [], oc_v = [], oc_stderrthreshold = [],
     oc_vmodule = [], oc_log_backtrace_at = [], oc_reconcile_threads = 0\<rparr>"

record host_env =
  he_getenv :: "string \<Rightarrow> string"
  he_abs :: "string \<Rightarrow> string option"
  he_dir :: "string \<Rightarrow> string"
  he_is_dir :: "string \<Rightarrow> bool"
  he_glob :: "string \<Rightarrow> (string \<times> string \<times> string option) list"
  he_read :: "string \<Rightarrow> string option"
  he_home :: "string option"
  he_yaml_installation :: "string \<Rightarrow> daisy_installation option"
  he_yaml_config :: "string \<Rightarrow> operator_config option"

section \<open>The catalogue of templates\<close>

definition enlist_daisy_template :: "daisy_installation \<Rightarrow> operator_config \<Rightarrow> operator_config" where
  "enlist_daisy_template t config = config\<lparr>oc_templates := oc_templates config @ [t]\<rparr>"

text \<open>An unlisted template stays in the slice, without its name.\<close>

definition unlist_daisy_template :: "daisy_installation \<Rightarrow> operator_config \<Rightarrow> operator_config" where
  "unlist_daisy_template t config =
     config\<lparr>oc_templates := map (\<lambda>u. if di_name u = di_name t \<and> di_namespace u = di_namespace t
         then u\<lparr>di_meta := (di_meta u)\<lparr>om_name := [], om_namespace := []\<rparr>\<rparr> else u)
       (oc_templates config)\<rparr>"

definition find_template :: "operator_config \<Rightarrow> use_template \<Rightarrow> string \<Rightarrow> daisy_installation option" where
  "find_template config u namespace =
     find (\<lambda>t. match_full_name (Some t) (ut_namespace u) (ut_name u)) (oc_templates config)"

definition build_unified_template :: "operator_config \<Rightarrow> operator_config" where
  "build_unified_template config = config"

definition add_daisy_template :: "daisy_installation \<Rightarrow> operator_config \<Rightarrow> operator_config" where
  "add_daisy_template t config = build_unified_template (enlist_daisy_template t config)"

definition update_daisy_template :: "daisy_installation \<Rightarrow> operator_config \<Rightarrow> operator_config" where
  "update_daisy_template t config = build_unified_template (enlist_daisy_template t config)"

definition delete_daisy_template :: "daisy_installation \<Rightarrow> operator_config \<Rightarrow> operator_config" where
  "delete_daisy_template t config = build_unified_template (unlist_daisy_template t config)"

text \<open>
  \<open>FetchTemplate\<close>: \<open>fetch\<close> is \<open>client.Get\<close> of a \<open>DaisyTemplate\<close> by namespace and name. A template
  that is found is enlisted.
\<close>

definition fetch_template ::
  "(string \<Rightarrow> string \<Rightarrow> daisy_installation option) \<Rightarrow> use_template \<Rightarrow> string \<Rightarrow> operator_config
   \<Rightarrow> daisy_installation option \<times> operator_config" where
  "fetch_template fetch u namespace config =
     (case fetch namespace (ut_name u) of
        None \<Rightarrow> (None, config)
      | Some t \<Rightarrow> (Some t, enlist_daisy_template t config))"

lemma find_template_enlisted:
  "find_template (enlist_daisy_template t config) u ns =
     (case find_template config u ns of
        Some t' \<Rightarrow> Some t'
      | None \<Rightarrow> if match_full_name (Some t) (ut_namespace u) (ut_name u) then Some t else None)"
  by (simp add: find_template_def enlist_daisy_template_def find_append split: option.splits)

lemma find_template_name:
  "find_template config u ns = Some t \<Longrightarrow>
   t \<in> set (oc_templates config) \<and> di_name t = ut_name u \<and> di_namespace t = ut_namespace u"
  by (auto simp: find_template_def match_full_name_def dest!: find_SomeD)

lemma find_after_delete:
  assumes "di_name t = ut_name u" "di_namespace t = ut_namespace u" "ut_name u \<noteq> [] \<or> ut_namespace u \<noteq> []"
  shows "find_template (delete_daisy_template t config) u ns = None"
proof -
  have "find (\<lambda>t. match_full_name (Some t) (ut_namespace u) (ut_name u))
      (map (\<lambda>v. if di_name v = di_name t \<and> di_namespace v = di_namespace t
         then v\<lparr>di_meta := (di_meta v)\<lparr>om_name := [], om_namespace := []\<rparr>\<rparr> else v) ts) = None" for ts
    using assms by (induction ts) (auto simp: match_full_name_def)
  then show ?thesis
    by (simp add: find_template_def delete_daisy_template_def unlist_daisy_template_def
        build_unified_template_def)
qed

section \<open>Post-processing\<close>

definition common_dir :: string where "common_dir = ''config.d''"
definition host_dir :: string where "host_dir = ''conf.d''"
definition users_dir :: string where "users_dir = ''users.d''"
definition templates_dir :: string where "templates_dir = ''templates.d''"

definition or_default :: "'a \<Rightarrow> 'a \<Rightarrow> 'a \<Rightarrow> 'a" where
  "or_default missing d x = (if x = missing then d else x)"

definition config_normalize :: "host_env \<Rightarrow> operator_config \<Rightarrow> operator_config" where
  "config_normalize env config =
     (let path = (\<lambda>p d. prepare_path (he_abs env) (he_is_dir env) p (oc_config_folder_path config) d)
      in config\<lparr>
        oc_common_configs_path := path (oc_common_configs_path config) common_dir,
        oc_host_configs_path := path (oc_host_configs_path config) host_dir,
        oc_users_configs_path := path (oc_users_configs_path config) users_dir,
        oc_templates_path := path (oc_templates_path config) templates_dir,
        oc_update_timeout := or_default 0 300 (oc_update_timeout config),
        oc_update_poll_period := or_default 0 15 (oc_update_poll_period config),
        oc_on_create_failure := or_default [] ''delete'' (oc_on_create_failure config),
        oc_on_update_failure := or_default [] ''rollback'' (oc_on_update_failure config),
        oc_user_default_profile := or_default [] ''default'' (oc_user_default_profile config),
        oc_user_default_quota := or_default [] ''default'' (oc_user_default_quota config),
        oc_user_default_networks_ip := or_default [] [''::/0''] (oc_user_default_networks_ip config),
        oc_user_default_password := or_default [] ''default'' (oc_user_default_password config),
        oc_username := or_default [] [] (oc_username config),
        oc_password := or_default [] [] (oc_password config),
        oc_port := or_default 0 8123 (oc_port config),
        oc_reconcile_threads := or_default 0 1 (oc_reconcile_threads config)\<rparr>)"

definition is_config_ext :: "string \<Rightarrow> bool" where
  "is_config_ext file \<longleftrightarrow> ext_to_lower file = ''.xml''"

definition is_template_ext :: "string \<Rightarrow> bool" where
  "is_template_ext file \<longleftrightarrow> ext_to_lower file = ''.yaml'' \<or> ext_to_lower file = ''.json''"

definition read_custom_config_files :: "host_env \<Rightarrow> operator_config \<Rightarrow> operator_config" where
  "read_custom_config_files env config =
     config\<lparr>
       oc_common_configs := read_files_into_map (he_glob env) (oc_common_configs_path config) is_config_ext,
       oc_host_configs := read_files_into_map (he_glob env) (oc_host_configs_path config) is_config_ext,
       oc_users_configs := read_files_into_map (he_glob env) (oc_users_configs_path config) is_config_ext\<rparr>"

definition read_templates :: "host_env \<Rightarrow> operator_config \<Rightarrow> operator_config" where
  "read_templates env config =
     (let files = read_files_into_map (he_glob env) (oc_templates_path config) is_template_ext
      in fold (\<lambda>(_, text) c. case he_yaml_installation env text of
                 None \<Rightarrow> c
               | Some t \<Rightarrow> enlist_daisy_template t c)
           (mentries files) (config\<lparr>oc_template_files := files\<rparr>))"

definition apply_env_var_params :: "host_env \<Rightarrow> operator_config \<Rightarrow> operator_config" where
  "apply_env_var_params env config =
     (let ns = he_getenv env ''WATCH_NAMESPACE'';
          nss = he_getenv env ''WATCH_NAMESPACES'';
          config1 = (if 0 < length ns then config\<lparr>oc_watch_namespaces := [ns]\<rparr> else config)
      in if 0 < length nss
         then config1\<lparr>oc_watch_namespaces :=
                filter (\<lambda>n. 0 < length n) (fields_func (\<lambda>r. r = CHR '':'' \<or> r = CHR '','') nss)\<rparr>
         else config1)"

definition apply_default_watch_namespace :: "host_env \<Rightarrow> operator_config \<Rightarrow> operator_config" where
  "apply_default_watch_namespace env config =
     (if 0 < length (oc_watch_namespaces config) then config
      else let namespace = he_getenv env ''OPERATOR_POD_NAMESPACE''
           in if namespace = ''kube-system'' then config
              else config\<lparr>oc_watch_namespaces := [namespace]\<rparr>)"

definition postprocess :: "host_env \<Rightarrow> operator_config \<Rightarrow> operator_config" where
  "postprocess env config =
     apply_default_watch_namespace env (apply_env_var_params env (build_unified_template
       (read_templates env (read_custom_config_files env (config_normalize env config)))))"

definition is_watched_namespace :: "operator_config \<Rightarrow> string \<Rightarrow> bool" where
  "is_watched_namespace config namespace \<longleftrightarrow>
     length (oc_watch_namespaces config) = 0 \<or> in_array namespace (oc_watch_namespaces config)"

definition get_informer_namespace :: "operator_config \<Rightarrow> string" where
  "get_informer_namespace config =
     (if length (oc_watch_namespaces config) = 1 then oc_watch_namespaces config ! 0 else [])"

definition line :: "string \<Rightarrow> string \<Rightarrow> string" where
  "line name v = name @ '': '' @ v @ newline"

definition config_string :: "operator_config \<Rightarrow> bool \<Rightarrow> string" where
  "config_string c hide =
     line ''ConfigFilePath'' (oc_config_file_path c)
     @ line ''ConfigFolderPath'' (oc_config_folder_path c)
     @ slice2string ''WatchNamespaces'' (oc_watch_namespaces c)
     @ line ''CHCommonConfigsPath'' (oc_common_configs_path c)
     @ line ''CHHostConfigsPath'' (oc_host_configs_path c)
     @ line ''CHUsersConfigsPath'' (oc_users_configs_path c)
     @ map2string ''CHCommonConfigs'' (oc_common_configs c)
     @ map2string ''CHHostConfigs'' (oc_host_configs c)
     @ map2string ''CHUsersConfigs'' (oc_users_configs c)
     @ line ''CHITemplatesPath'' (oc_templates_path c)
     @ map2string ''CHITemplateFiles'' (oc_template_files c)
     @ line ''StatefulSetUpdateTimeout'' (itoa (oc_update_timeout c))
     @ line ''StatefulSetUpdatePollPeriod'' (itoa (oc_update_poll_period c))
     @ line ''OnStatefulSetCreateFailureAction'' (oc_on_create_failure c)
     @ line ''OnStatefulSetUpdateFailureAction'' (oc_on_update_failure c)
     @ line ''CHConfigUserDefaultProfile'' (oc_user_default_profile c)
     @ line ''CHConfigUserDefaultQuota'' (oc_user_default_quota c)
     @ slice2string ''CHConfigUserDefaultNetworksIP'' (oc_user_default_networks_ip c)
     @ line ''CHConfigUserDefaultPassword'' (if hide then ''***'' else oc_user_default_password c)
     @ line ''CHConfigNetworksHostRegexpTemplate'' (oc_host_regexp_template c)
     @ line ''CHUsername'' (if hide then ''***'' else oc_username c)
     @ line ''CHPassword'' (if hide then ''***'' else oc_password c)
     @ line ''CHPort'' (itoa (oc_port c))
     @ line ''Logtostderr'' (oc_logtostderr c)
     @ line ''Alsologtostderr'' (oc_alsologtostderr c)
     @ line ''V'' (oc_v c)
     @ line ''Stderrthreshold'' (oc_stderrthreshold c)
     @ line ''Vmodule'' (oc_vmodule c)
     @ line ''Log_backtrace_at string'' (oc_log_backtrace_at c)
     @ line ''ReconcileThreadsNumber'' (itoa (oc_reconcile_threads c))"

text \<open>What reaches the log does not depend on the credentials.\<close>

lemma config_string_hides:
  "config_string (c\<lparr>oc_user_default_password := p, oc_username := u, oc_password := q\<rparr>) True
   = config_string c True"
  by (simp add: config_string_def)

lemma read_templates_preserves:
  "\<exists>ts fs. read_templates env c = c\<lparr>oc_template_files := fs, oc_templates := ts\<rparr>"
proof -
  let ?files = "read_files_into_map (he_glob env) (oc_templates_path c) is_template_ext"
  have "\<exists>ts. fold (\<lambda>(_, text) c. case he_yaml_installation env text of
                 None \<Rightarrow> c
               | Some t \<Rightarrow> enlist_daisy_template t c)
           es (c\<lparr>oc_template_files := ?files\<rparr>) = c\<lparr>oc_template_files := ?files, oc_templates := ts\<rparr>" for es
    by (rule fold_invariant [where P = "\<lambda>s. \<exists>ts. s = c\<lparr>oc_template_files := ?files, oc_templates := ts\<rparr>"])
      (auto simp: enlist_daisy_template_def intro: exI [of _ "oc_templates c"] split: option.splits)
  then show ?thesis unfolding read_templates_def Let_def by blast
qed

text \<open>What \<open>normalize\<close> guarantees: every setting the operator reads later has a value.\<close>

definition config_ready :: "operator_config \<Rightarrow> bool" where
  "config_ready c \<longleftrightarrow> oc_user_default_profile c \<noteq> [] \<and> oc_user_default_quota c \<noteq> []
     \<and> oc_user_default_networks_ip c \<noteq> [] \<and> oc_user_default_password c \<noteq> [] \<and> oc_port c \<noteq> 0
     \<and> oc_update_timeout c \<noteq> 0 \<and> oc_update_poll_period c \<noteq> 0 \<and> oc_reconcile_threads c \<noteq> 0
     \<and> oc_on_create_failure c \<noteq> [] \<and> oc_on_update_failure c \<noteq> []"

lemma config_normalize_ready: "config_ready (config_normalize env c)"
  by (simp add: config_ready_def config_normalize_def or_default_def Let_def)

lemma postprocess_keeps_ready:
  assumes "config_ready c"
  shows "config_ready (apply_default_watch_namespace env (apply_env_var_params env
    (build_unified_template (read_templates env (read_custom_config_files env c)))))"
proof -
  obtain ts fs where "read_templates env (read_custom_config_files env c)
      = (read_custom_config_files env c)\<lparr>oc_template_files := fs, oc_templates := ts\<rparr>"
    using read_templates_preserves by blast
  with assms show ?thesis
    by (simp add: config_ready_def apply_default_watch_namespace_def apply_env_var_params_def
        build_unified_template_def read_custom_config_files_def Let_def)
qed

lemma postprocess_ready: "config_ready (postprocess env c)"
  unfolding postprocess_def by (rule postprocess_keeps_ready) (rule config_normalize_ready)

section \<open>The configuration manager\<close>

text \<open>
  A \<open>DaisyOperatorConfiguration\<close> object: name, namespace, resource version and specification.
  The manager's fields are those the code reads after construction.
\<close>

record config_object =
  co_name :: string
  co_namespace :: string
  co_resource_version :: string
  co_spec :: operator_config

record config_manager =
  cm_config_list :: "config_object list"
  cm_file_config :: "operator_config option"
  cm_cr_configs :: "operator_config list"
  cm_config :: "operator_config option"
  cm_runtime_params :: "string gomap"

definition env_var_param_names :: "string list" where
  "env_var_param_names =
     [''OPERATOR_POD_NODE_NAME'', ''OPERATOR_POD_NAME'', ''OPERATOR_POD_NAMESPACE'',
      ''OPERATOR_POD_IP'', ''OPERATOR_POD_SERVICE_ACCOUNT'', ''OPERATOR_CONTAINER_CPU_REQUEST'',
      ''OPERATOR_CONTAINER_CPU_LIMIT'', ''OPERATOR_CONTAINER_MEM_REQUEST'',
      ''OPERATOR_CONTAINER_MEM_LIMIT'', ''WATCH_NAMESPACE'', ''WATCH_NAMESPACES'']"

definition get_env_var_params :: "host_env \<Rightarrow> string gomap" where
  "get_env_var_params env = Some (fold (\<lambda>n m. put n (he_getenv env n) m) env_var_param_names [])"

definition get_runtime_param :: "host_env \<Rightarrow> string \<Rightarrow> string option" where
  "get_runtime_param env name = mget (get_env_var_params env) name"

text \<open>
  \<open>buildConfigFromFile\<close>: an unreadable or malformed file is an error; a failure of
  \<open>filepath.Abs\<close> is returned neither, the path is empty then.
\<close>

datatype config_error = ConfigUnreadable string | ConfigMalformed string

definition build_config_from_file :: "host_env \<Rightarrow> string \<Rightarrow> config_error + operator_config" where
  "build_config_from_file env path =
     (case he_read env path of
        None \<Rightarrow> Inl (ConfigUnreadable path)
      | Some text \<Rightarrow>
          (case he_yaml_config env text of
             None \<Rightarrow> Inl (ConfigMalformed path)
           | Some config \<Rightarrow>
               (let abs_path = (case he_abs env path of Some p \<Rightarrow> p | None \<Rightarrow> [])
                in Inr (config\<lparr>oc_config_file_path := abs_path,
                               oc_config_folder_path := he_dir env abs_path\<rparr>))))"

definition build_default_config :: "config_error + operator_config" where
  "build_default_config = Inr zero_operator_config"

definition get_file_based_config :: "host_env \<Rightarrow> string \<Rightarrow> config_error + operator_config" where
  "get_file_based_config env path =
     (if 0 < length path then build_config_from_file env path
      else if 0 < length (he_getenv env ''CHOP_CONFIG'')
      then build_config_from_file env (he_getenv env ''CHOP_CONFIG'')
      else
        let in_etc = (case build_config_from_file env ''/etc/clickhouse-operator/config.yaml'' of
                        Inr c \<Rightarrow> Inr c
                      | Inl _ \<Rightarrow> build_default_config)
        in (case he_home env of
              None \<Rightarrow> in_etc
            | Some home \<Rightarrow>
                (case build_config_from_file env (home @ ''/.clickhouse-operator/config.yaml'') of
                   Inr c \<Rightarrow> Inr c
                 | Inl _ \<Rightarrow> in_etc)))"

text \<open>
  \<open>getCRBasedConfigs\<close>: \<open>items\<close> is the result of \<open>client.List\<close>, \<open>None\<close> an error (the list stays
  empty). For each of the sorted names, repetitions included, every object of that name is added.
\<close>

definition get_cr_based_configs ::
  "config_object list option \<Rightarrow> string \<Rightarrow> config_manager \<Rightarrow> config_manager" where
  "get_cr_based_configs items namespace cm =
     (case items of
        None \<Rightarrow> cm\<lparr>cm_config_list := []\<rparr>
      | Some objs \<Rightarrow>
          cm\<lparr>cm_config_list := objs,
             cm_cr_configs := cm_cr_configs cm @ concat (map (\<lambda>name.
               map (\<lambda>ob. (co_spec ob)\<lparr>oc_config_folder_path := namespace, oc_config_file_path := name\<rparr>)
                 (filter (\<lambda>ob. co_name ob = name) objs)) (sort (map co_name objs)))\<rparr>)"

definition merge_config ::
  "(bool \<Rightarrow> operator_config \<Rightarrow> operator_config \<Rightarrow> operator_config) \<Rightarrow> operator_config
   \<Rightarrow> operator_config \<Rightarrow> merge_type \<Rightarrow> operator_config" where
  "merge_config mg config src ty =
     (case ty of
        MergeTypeFillEmptyValues \<Rightarrow> mg False config src
      | MergeTypeOverrideByNonEmptyValues \<Rightarrow> mg True config src)"

definition build_unified_config ::
  "(bool \<Rightarrow> operator_config \<Rightarrow> operator_config \<Rightarrow> operator_config) \<Rightarrow> config_manager \<Rightarrow> config_manager" where
  "build_unified_config mg cm =
     cm\<lparr>cm_config := map_option (\<lambda>base.
          fold (\<lambda>c acc. merge_config mg acc c MergeTypeOverrideByNonEmptyValues) (cm_cr_configs cm) base)
          (cm_file_config cm),
        cm_file_config := None\<rparr>"

definition is_config_listed :: "config_manager \<Rightarrow> config_object \<Rightarrow> bool" where
  "is_config_listed cm config \<longleftrightarrow>
     list_ex (\<lambda>ob. co_namespace config = co_namespace ob \<and> co_name config = co_name ob
       \<and> co_resource_version config = co_resource_version ob) (cm_config_list cm)"

text \<open>\<open>Init\<close>, on which \<open>NewConfigManager\<close> rests; without a client no custom resource is read.\<close>

definition init_config_manager ::
  "host_env \<Rightarrow> (bool \<Rightarrow> operator_config \<Rightarrow> operator_config \<Rightarrow> operator_config) \<Rightarrow> bool
   \<Rightarrow> config_object list option \<Rightarrow> string \<Rightarrow> config_error + config_manager" where
  "init_config_manager env mg has_client items path =
     (case get_file_based_config env path of
        Inl e \<Rightarrow> Inl e
      | Inr fc \<Rightarrow>
          (let cm = \<lparr>cm_config_list = [], cm_file_config = Some fc, cm_cr_configs = [],
                     cm_config = None, cm_runtime_params = get_env_var_params env\<rparr>;
               cm1 = (if has_client then get_cr_based_configs items (get_informer_namespace fc) cm else cm);
               cm2 = build_unified_config mg cm1
           in Inr (cm2\<lparr>cm_config := map_option (postprocess env) (cm_config cm2)\<rparr>)))"

definition new_config_manager ::
  "host_env \<Rightarrow> (bool \<Rightarrow> operator_config \<Rightarrow> operator_config \<Rightarrow> operator_config) \<Rightarrow> bool
   \<Rightarrow> config_object list option \<Rightarrow> string \<Rightarrow> config_error + config_manager" where
  "new_config_manager env mg has_client items init_config_file_path =
     (case init_config_manager env mg has_client items init_config_file_path of Inl err \<Rightarrow> Inl err | Inr cm \<Rightarrow> Inr cm)"

definition config_manager_config :: "config_manager \<Rightarrow> operator_config option" where
  "config_manager_config cm = cm_config cm"

lemma init_config_manager_ready:
  assumes "init_config_manager env mg has_client items path = Inr cm"
  shows "\<exists>c. cm_config cm = Some c \<and> config_ready c"
  using assms
  by (auto simp: init_config_manager_def build_unified_config_def get_cr_based_configs_def Let_def
      postprocess_ready split: sum.splits option.splits if_splits)

lemma env_var_lookup: "name \<in> set env_var_param_names \<Longrightarrow> get_runtime_param env name = Some (he_getenv env name)"
  by (auto simp: get_runtime_param_def get_env_var_params_def env_var_param_names_def)

end
