(* ===== verification/Config_Generator.thy ===== *)
theory Config_Generator
  imports Xml_Builder Operator_Config Naming "HOL-Library.Multiset"
begin

text \<open>
  \<open>controllers/daisymanager/config_generator.go\<close> and \<open>config_sections.go\<close>: the configuration
  files of the database servers. A document is modelled as the list of the lines \<open>util.Iline\<close>
  writes; \<open>b.String()\<close> is their concatenation. \<open>GetRemoteServers\<close> ranges three times over maps;
  the two ranges over the map it has collected are the parameters \<open>range1\<close> and \<open>range2\<close>.
\<close>

definition xml_tag_yandex :: string where "xml_tag_yandex = ''yandex''"
definition one_shard_all_replicas :: string where "one_shard_all_replicas = ''all-replicated''"
definition all_shards_one_replica :: string where "all_shards_one_replica = ''all-sharded''"
definition tcp_port_number :: int where "tcp_port_number = 9000"

definition open_tag :: "string \<Rightarrow> string" where "open_tag t = ''<'' @ t @ ''>''"
definition close_tag :: "string \<Rightarrow> string" where "close_tag t = ''</'' @ t @ ''>''"
definition field :: "string \<Rightarrow> string \<Rightarrow> string" where "field t v = open_tag t @ v @ close_tag t"

section \<open>Sections made of settings\<close>

definition generate_xml_config :: "settings \<Rightarrow> string \<Rightarrow> string" where
  "generate_xml_config s pre =
     (if mlen s = 0 then []
      else iline 0 (open_tag xml_tag_yandex) @ generate_xml (mentries s) pre
           @ iline 0 (close_tag xml_tag_yandex))"

definition get_users :: "daisy_installation \<Rightarrow> string" where
  "get_users di = generate_xml_config (cf_users (di_configuration di)) ''users''"

definition get_profiles :: "daisy_installation \<Rightarrow> string" where
  "get_profiles di = generate_xml_config (cf_profiles (di_configuration di)) ''profiles''"

definition get_quotas :: "daisy_installation \<Rightarrow> string" where
  "get_quotas di = generate_xml_config (cf_quotas (di_configuration di)) ''quotas''"

definition get_settings :: "daisy_installation \<Rightarrow> replica option \<Rightarrow> string" where
  "get_settings di r =
     (case r of
        None \<Rightarrow> generate_xml_config (cf_settings (di_configuration di)) []
      | Some rep \<Rightarrow> generate_xml_config (rp_settings rep) [])"

definition get_files :: "daisy_installation \<Rightarrow> settings_section \<Rightarrow> bool \<Rightarrow> replica option \<Rightarrow> string entries" where
  "get_files di section include_unspecified r =
     (let files = (case r of None \<Rightarrow> cf_files (di_configuration di) | Some rep \<Rightarrow> rp_files rep)
      in get_section_string_map files section include_unspecified)"

section \<open>Zookeeper, macros and ports of a host\<close>

definition zookeeper_node_lines :: "zookeeper_node \<Rightarrow> string list" where
  "zookeeper_node_lines n =
     [iline 8 ''<node>'',
      iline 8 (''    '' @ field ''host'' (zn_host n)),
      iline 8 (''    '' @ field ''port'' (itoa (zn_port n))),
      iline 8 ''</node>'']"

definition zookeeper_lines :: "zookeeper_config \<Rightarrow> string list" where
  "zookeeper_lines zk =
     [iline 0 (open_tag xml_tag_yandex), iline 4 ''<zookeeper>'']
     @ concat (map zookeeper_node_lines (zk_nodes zk))
     @ (if 0 < zk_session_timeout_ms zk
        then [iline 8 (field ''session_timeout_ms'' (itoa (zk_session_timeout_ms zk)))] else [])
     @ (if 0 < zk_operation_timeout_ms zk
        then [iline 8 (field ''operation_timeout_ms'' (itoa (zk_operation_timeout_ms zk)))] else [])
     @ (if 0 < length (zk_root zk) then [iline 8 (field ''root'' (zk_root zk))] else [])
     @ (if 0 < length (zk_identity zk) then [iline 8 (field ''identity'' (zk_identity zk))] else [])
     @ [iline 4 ''</zookeeper>'', iline 0 (close_tag xml_tag_yandex)]"

definition get_host_zookeeper :: "member_context \<Rightarrow> string" where
  "get_host_zookeeper ctx =
     (let zk = cl_zookeeper (mget_or zero_cluster (mc_clusters ctx) (mc_cur_cluster ctx))
      in if zookeeper_is_empty zk then [] else concat (zookeeper_lines zk))"

definition host_macros_lines :: "member_context \<Rightarrow> replica \<Rightarrow> string list" where
  "host_macros_lines ctx r =
     [iline 0 (open_tag xml_tag_yandex),
      iline 0 ''    <macros>'',
      iline 8 (field ''installation'' (mc_installation ctx)),
      iline 8 (field (all_shards_one_replica @ ''-shard'') (itoa 0)),
      iline 8 (field ''cluster'' (mc_cur_cluster ctx)),
      iline 8 (field ''shard'' (itoa (extract_last_ordinal (mc_cur_shard ctx)))),
      iline 8 (field ''replica'' (rp_name r)),
      iline 0 ''    </macros>'',
      iline 0 (close_tag xml_tag_yandex)]"

definition get_host_macros :: "member_context \<Rightarrow> replica \<Rightarrow> string" where
  "get_host_macros ctx r = concat (host_macros_lines ctx r)"

definition no_custom_ports :: "replica \<Rightarrow> bool" where
  "no_custom_ports r \<longleftrightarrow> True"

definition get_host_ports :: "replica \<Rightarrow> string" where
  "get_host_ports r = (if no_custom_ports r then [] else [])"

section \<open>Remote servers\<close>

definition get_remote_servers_replica_hostname :: "replica \<Rightarrow> string" where
  "get_remote_servers_replica_hostname r = create_pod_hostname r"

definition replica_lines :: "replica \<Rightarrow> string list" where
  "replica_lines r =
     [iline 16 ''<replica>'',
      iline 16 (''    '' @ field ''host'' (get_remote_servers_replica_hostname r)),
      iline 16 (''    '' @ field ''port'' (itoa tcp_port_number)),
      iline 16 ''</replica>'']"

definition shard_lines :: "shard \<Rightarrow> string list" where
  "shard_lines s =
     [iline 12 ''<shard>'', iline 16 (field ''internal_replication'' (sh_internal_replication s))]
     @ (if 0 < sh_weight s then [iline 16 (field ''weight'' (itoa (sh_weight s)))] else [])
     @ concat (map (\<lambda>(_, r). replica_lines r) (mentries (sh_replicas s)))
     @ [iline 12 ''</shard>'']"

definition cluster_lines :: "cluster \<Rightarrow> string list" where
  "cluster_lines c =
     [iline 8 (open_tag (cl_name c))]
     @ concat (loop_shards (\<lambda>_ s. shard_lines s) c)
     @ [iline 8 (close_tag (cl_name c))]"

text \<open>The map \<open>replicas\<close>: the replicas of all clusters under their keys.\<close>

definition collected_replicas :: "daisy_installation \<Rightarrow> replica entries" where
  "collected_replicas di =
     fold (\<lambda>(k, r). put k r)
       (concat (loop_clusters (\<lambda>_ c. concat (loop_shards (\<lambda>_ s. mentries (sh_replicas s)) c))
          (cf_clusters (di_configuration di)))) []"

definition one_replica_shard_lines :: "replica \<Rightarrow> string list" where
  "one_replica_shard_lines r =
     [iline 12 ''<shard>'', iline 12 (''    '' @ field ''internal_replication'' ''false'')]
     @ replica_lines r @ [iline 12 ''</shard>'']"

definition remote_servers_lines ::
  "(replica entries \<Rightarrow> replica entries) \<Rightarrow> (replica entries \<Rightarrow> replica entries)
   \<Rightarrow> daisy_installation \<Rightarrow> string list" where
  "remote_servers_lines range1 range2 di =
     [iline 0 (open_tag xml_tag_yandex), iline 4 ''<remote_servers>'',
      iline 8 ''<!-- User-specified clusters -->'']
     @ concat (loop_clusters (\<lambda>_ c. cluster_lines c) (cf_clusters (di_configuration di)))
     @ [iline 8 ''<!-- Autogenerated clusters -->'',
        iline 8 (open_tag one_shard_all_replicas), iline 8 ''    <shard>'',
        iline 8 (''        '' @ field ''internal_replication'' ''true'')]
     @ concat (map (\<lambda>(_, r). replica_lines r) (range1 (collected_replicas di)))
     @ [iline 8 ''    </shard>'', iline 8 (close_tag one_shard_all_replicas),
        iline 8 (open_tag all_shards_one_replica)]
     @ concat (map (\<lambda>(_, r). one_replica_shard_lines r) (range2 (collected_replicas di)))
     @ [iline 8 (close_tag all_shards_one_replica),
        iline 0 ''    </remote_servers>'', iline 0 (close_tag xml_tag_yandex)]"

definition get_remote_servers ::
  "(replica entries \<Rightarrow> replica entries) \<Rightarrow> (replica entries \<Rightarrow> replica entries)
   \<Rightarrow> daisy_installation \<Rightarrow> string" where
  "get_remote_servers range1 range2 di = concat (remote_servers_lines range1 range2 di)"

definition get_distributed_ddl_path :: "daisy_installation \<Rightarrow> string" where
  "get_distributed_ddl_path di = ''/clickhouse/'' @ di_name di @ ''/task_queue/ddl''"

definition get_macros_installation :: "(string \<Rightarrow> string) \<Rightarrow> string \<Rightarrow> string option" where
  "get_macros_installation sha1_hex name = create_string_id sha1_hex name 6"

definition get_macros_cluster :: "(string \<Rightarrow> string) \<Rightarrow> string \<Rightarrow> string option" where
  "get_macros_cluster sha1_hex name = create_string_id sha1_hex name 4"

section \<open>The files of the three config maps\<close>

definition create_config_section_filename :: "string \<Rightarrow> string" where
  "create_config_section_filename section = ''daisy-generated-'' @ section @ ''.xml''"

definition create_configs_common ::
  "(replica entries \<Rightarrow> replica entries) \<Rightarrow> (replica entries \<Rightarrow> replica entries)
   \<Rightarrow> operator_config \<Rightarrow> daisy_installation \<Rightarrow> string entries" where
  "create_configs_common range1 range2 conf di =
     (let m1 = include_non_empty [] (create_config_section_filename ''remote_servers'')
                 (get_remote_servers range1 range2 di);
          m2 = include_non_empty m1 (create_config_section_filename ''settings'') (get_settings di None);
          m3 = merge_string_maps (Some m2) (Some (get_files di SectionCommon True None)) []
      in mentries (merge_string_maps m3 (oc_common_configs conf) []))"

definition create_configs_users :: "operator_config \<Rightarrow> daisy_installation \<Rightarrow> string entries" where
  "create_configs_users conf di =
     (let m1 = include_non_empty [] (create_config_section_filename ''users'') (get_users di);
          m2 = include_non_empty m1 (create_config_section_filename ''quotas'') (get_quotas di);
          m3 = include_non_empty m2 (create_config_section_filename ''profiles'') (get_profiles di);
          m4 = merge_string_maps (Some m3) (Some (get_files di SectionUsers False None)) []
      in mentries (merge_string_maps m4 (oc_users_configs conf) []))"

definition create_configs_host ::
  "operator_config \<Rightarrow> member_context \<Rightarrow> daisy_installation \<Rightarrow> replica \<Rightarrow> string entries" where
  "create_configs_host conf ctx di r =
     (let m1 = include_non_empty [] (create_config_section_filename ''macros'') (get_host_macros ctx r);
          m2 = include_non_empty m1 (create_config_section_filename ''ports'') (get_host_ports r);
          m3 = include_non_empty m2 (create_config_section_filename ''zookeeper'') (get_host_zookeeper ctx);
          m4 = include_non_empty m3 (create_config_section_filename ''settings'') (get_settings di (Some r));
          m5 = merge_string_maps (Some m4) (Some (get_files di SectionHost True (Some r))) []
      in mentries (merge_string_maps m5 (oc_host_configs conf) []))"

section \<open>Lemmas\<close>

lemma create_config_section_filename_inject [simp]:
  "create_config_section_filename a = create_config_section_filename b \<longleftrightarrow> a = b"
  by (simp add: create_config_section_filename_def)

lemma map_of_collected_replicas:
  "map_of (collected_replicas di) = map_of (rev
     (concat (loop_clusters (\<lambda>_ c. concat (loop_shards (\<lambda>_ s. mentries (sh_replicas s)) c))
          (cf_clusters (di_configuration di)))))"
  using entries.lookup_copy_all [of _ "[]"] by (simp add: collected_replicas_def)

lemma distinct_collected_replicas: "keys_distinct (collected_replicas di)"
  unfolding collected_replicas_def by (rule entries.invar_copy_all) simp

lemma keys_distinct_include [intro]: "keys_distinct m \<Longrightarrow> keys_distinct (include_non_empty m k v)"
  by (simp add: include_non_empty_def)

lemma keys_distinct_merge_strings [intro]: "mwf m \<Longrightarrow> mwf (merge_string_maps m (Some es) [])"
  by (cases m) (auto simp: merge_string_maps_def intro!: entries.invar_copy_all)

lemma mget_mentries: "map_of (mentries m) k = mget m k"
  by (simp add: mget_def)

lemma merge_string_maps_user:
  assumes "mwf u"
  shows "map_of (mentries (merge_string_maps m u [])) k =
    (case mget u k of Some v \<Rightarrow> Some v | None \<Rightarrow> mget m k)"
  using assms by (simp add: mget_mentries merge_string_maps_all)

lemma generate_xml_config_nonempty: "generate_xml_config s pre = [] \<longleftrightarrow> mlen s = 0"
  by (simp add: generate_xml_config_def iline_def newline_def)

lemma distinct_section_string_map: "keys_distinct (get_section_string_map s sec u)"
  unfolding get_section_string_map_def
  by (rule fold_invariant) (auto split: sum.splits option.splits)

lemma mset_concat_map_cong:
  "mset xs = mset ys \<Longrightarrow> mset (concat (map f xs)) = mset (concat (map f ys))"
proof -
  have "mset (concat (map f zs)) = (\<Sum>x\<in>#mset zs. mset (f x))" for zs
    by (induction zs) auto
  then show "mset xs = mset ys \<Longrightarrow> mset (concat (map f xs)) = mset (concat (map f ys))" by simp
qed

definition host_line :: "replica \<Rightarrow> string" where
  "host_line r = iline 16 (''    '' @ field ''host'' (rp_name r))"

lemma host_line_in_replica_lines: "host_line r \<in> set (replica_lines r)"
  by (simp add: replica_lines_def host_line_def get_remote_servers_replica_hostname_def
      create_pod_hostname_def create_stateful_set_service_name_def)

lemma host_line_in_cluster:
  assumes "(name, s) \<in> set (mentries (lo_shards (cl_layout c)))" "(k, r) \<in> set (mentries (sh_replicas s))"
  shows "host_line r \<in> set (cluster_lines c)"
proof -
  have "host_line r \<in> set (shard_lines s)"
    using assms(2) host_line_in_replica_lines [of r] by (force simp: shard_lines_def)
  with assms(1) show ?thesis by (force simp: cluster_lines_def loop_shards_def)
qed

lemma all_replicas_elim:
  assumes "r \<in> set (all_replicas di)"
  obtains cn c sn s k where "(cn, c) \<in> set (mentries (cf_clusters (di_configuration di)))"
    "(sn, s) \<in> set (mentries (lo_shards (cl_layout c)))" "(k, r) \<in> set (mentries (sh_replicas s))"
  using assms by (auto simp: all_replicas_def loop_clusters_def loop_shards_def)



text \<open>
  C29: In the files of a host, a file from the operator's own configuration directory wins over a
  file of the replica, which wins over a generated file; and no generated file is empty.
\<close>

theorem host_config_precedence:
  assumes "mwf (oc_host_configs conf)"
  shows "map_of (create_configs_host conf ctx di r) k =
     (case mget (oc_host_configs conf) k of Some v \<Rightarrow> Some v
      | None \<Rightarrow>
         (case map_of (get_files di SectionHost True (Some r)) k of Some v \<Rightarrow> Some v
          | None \<Rightarrow>
             if k = ''daisy-generated-macros.xml'' then Some (get_host_macros ctx r)
             else if k = ''daisy-generated-zookeeper.xml'' \<and> get_host_zookeeper ctx \<noteq> []
             then Some (get_host_zookeeper ctx)
             else if k = ''daisy-generated-settings.xml'' \<and> mlen (rp_settings r) \<noteq> 0
             then Some (get_settings di (Some r))
             else None))"
proof -
  define a b c where "a = ''daisy-generated-macros.xml''" and "b = ''daisy-generated-zookeeper.xml''"
    and "c = ''daisy-generated-settings.xml''"
  have names: "create_config_section_filename ''macros'' = a" "create_config_section_filename ''zookeeper'' = b"
    "create_config_section_filename ''settings'' = c"
    by (simp_all add: create_config_section_filename_def a_def b_def c_def)
  have distinct: "a \<noteq> b" "a \<noteq> c" "b \<noteq> c" by (simp_all add: a_def b_def c_def)
  have macros: "get_host_macros ctx r \<noteq> []"
    by (simp add: get_host_macros_def host_macros_lines_def iline_def newline_def)
  have settings: "get_settings di (Some r) = [] \<longleftrightarrow> mlen (rp_settings r) = 0"
    by (simp add: get_settings_def generate_xml_config_nonempty)
  have files: "mwf (Some (get_files di SectionHost True (Some r)))"
    by (simp add: get_files_def distinct_section_string_map)
  show ?thesis
    unfolding create_configs_host_def Let_def merge_string_maps_user [OF assms] names get_host_ports_def
      a_def [symmetric] b_def [symmetric] c_def [symmetric]
    using distinct macros settings files
    by (auto simp: merge_string_maps_all split: option.splits)
qed

theorem host_config_precedence_witness:
  "\<forall>ctx. map_of (create_configs_host (zero_operator_config\<lparr>oc_host_configs :=
      Some [(''daisy-generated-macros.xml'', ''mine'')]\<rparr>) ctx zero_installation zero_replica)
     ''daisy-generated-macros.xml'' = Some ''mine''"
  by (subst host_config_precedence) simp_all

end
