(* ===== verification/Normalizer.thy ===== *)
theory Normalizer
  imports Operator_Config Naming Sha256
begin

text \<open>
  \<open>controllers/daisymanager/normalizer.go\<close>: templates are merged, the user's specification is
  completed, and every cluster, shard and replica gets a name and its inherited settings. The two
  \<open>for len(m) < count\<close> loops need not end; they are \<open>partial_function (option)\<close>, and \<open>None\<close>
  as a result of the normalizer means that it does not return.
\<close>

section \<open>Filling a map up to a count\<close>

partial_function (option) fill_loop ::
  "(nat \<Rightarrow> string) \<Rightarrow> (nat \<Rightarrow> 'v) \<Rightarrow> int \<Rightarrow> 'v entries \<Rightarrow> 'v entries option" where
  "fill_loop name item count es =
     (if int (length es) < count
      then fill_loop name item count (put (name (length es)) (item (length es)) es)
      else Some es)"

lemma fill_loop_done [simp]: "\<not> int (length es) < count \<Longrightarrow> fill_loop name item count es = Some es"
  by (simp add: fill_loop.simps)

text \<open>Once the next name is already a key the map no longer grows, and the loop never ends.\<close>

lemma fill_loop_stuck:
  assumes "int (length es) < count" "name (length es) \<in> keys_of es"
  shows "fill_loop name item count es = None"
proof -
  have "\<not> (int (length es) < count \<and> name (length es) \<in> keys_of es)"
    if "fill_loop name item count es = Some r" for es r
  proof (rule fill_loop.raw_induct [where P = "\<lambda>name item count es r.
        \<not> (int (length es) < count \<and> name (length es) \<in> keys_of es)", OF _ that])
    fix f :: "(nat \<Rightarrow> string) \<Rightarrow> (nat \<Rightarrow> 'b) \<Rightarrow> int \<Rightarrow> 'b entries \<Rightarrow> 'b entries option"
      and name :: "nat \<Rightarrow> string" and item :: "nat \<Rightarrow> 'b" and count es r
    assume ih: "\<And>name item count es r. f name item count es = Some r \<Longrightarrow>
        \<not> (int (length es) < count \<and> name (length es) \<in> keys_of es)"
      and step: "(if int (length es) < count
         then f name item count (put (name (length es)) (item (length es)) es) else Some es) = Some r"
    show "\<not> (int (length es) < count \<and> name (length es) \<in> keys_of es)"
    proof
      assume stuck: "int (length es) < count \<and> name (length es) \<in> keys_of es"
      with step have "f name item count (put (name (length es)) (item (length es)) es) = Some r" by simp
      from ih [OF this] stuck show False by simp
    qed
  qed
  with assms show ?thesis by (metis option.exhaust)
qed

locale name_supply =
  fixes name :: "nat \<Rightarrow> string"
  assumes name_inject: "name i = name j \<Longrightarrow> i = j"
begin

definition free_names :: "int \<Rightarrow> 'v entries \<Rightarrow> bool" where
  "free_names count es \<longleftrightarrow> (\<forall>i. length es \<le> i \<and> int i < count \<longrightarrow> name i \<notin> keys_of es)"

lemma fill_loop_fresh:
  assumes "free_names count es"
  shows "fill_loop name item count es
    = Some (es @ map (\<lambda>i. (name i, item i)) [length es..<nat count])"
  using assms
proof (induction "nat count - length es" arbitrary: es)
  case 0
  then have "\<not> int (length es) < count" by linarith
  then show ?case using 0 by simp
next
  case (Suc n)
  then have less: "int (length es) < count" by simp
  with Suc.prems have new: "name (length es) \<notin> keys_of es" by (simp add: free_names_def)
  let ?es = "put (name (length es)) (item (length es)) es"
  have put: "?es = es @ [(name (length es), item (length es))]" using new by (rule put_new)
  have "free_names count ?es"
    using Suc.prems by (auto simp: put free_names_def dest: name_inject)
  moreover have "n = nat count - length ?es" using Suc.hyps(2) by (simp add: put)
  ultimately have "fill_loop name item count ?es
      = Some (?es @ map (\<lambda>i. (name i, item i)) [length ?es..<nat count])"
    by (intro Suc.hyps(1))
  then show ?case
    using less by (subst fill_loop.simps) (simp add: put upt_conv_Cons)
qed

text \<open>The loop ends exactly when none of the names it will generate is taken.\<close>

lemma fill_loop_ends: "fill_loop name item count es \<noteq> None \<longleftrightarrow> free_names count es"
proof
  show "fill_loop name item count es \<noteq> None \<Longrightarrow> free_names count es"
  proof (induction "nat count - length es" arbitrary: es)
    case 0
    then show ?case by (auto simp: free_names_def)
  next
    case (Suc n)
    then have less: "int (length es) < count" by simp
    with Suc.prems have new: "name (length es) \<notin> keys_of es" by (meson fill_loop_stuck)
    let ?es = "put (name (length es)) (item (length es)) es"
    have put: "?es = es @ [(name (length es), item (length es))]" using new by (rule put_new)
    have "n = nat count - length ?es" using Suc.hyps(2) by (simp add: put)
    moreover have "fill_loop name item count ?es \<noteq> None"
      using Suc.prems less by (subst (asm) fill_loop.simps) simp
    ultimately have "free_names count ?es" by (rule Suc.hyps(1))
    then have rest: "name i \<notin> keys_of es" if "Suc (length es) \<le> i" "int i < count" for i
      using that by (auto simp: put free_names_def)
    show ?case
      unfolding free_names_def using new rest by (metis le_neq_implies_less Suc_leI)
  qed
qed (simp add: fill_loop_fresh)

end

interpretation shard_names: name_supply "\<lambda>i. create_shard_name d c (int i)" for d c
  by unfold_locales simp

text \<open>
  A set of slots is finite by its type in the source; the supply for a shard is stated for
  the finite part of an arbitrary set.
\<close>

definition replica_name_at :: "string \<Rightarrow> int set \<Rightarrow> nat \<Rightarrow> string" where
  "replica_name_at shard_name skip i = create_replica_name shard_name (int i) skip"

lemma replica_name_at_inject: "replica_name_at s skip i = replica_name_at s skip j \<Longrightarrow> i = j"
proof (cases "finite skip")
  case True
  then show "replica_name_at s skip i = replica_name_at s skip j \<Longrightarrow> i = j"
    by (simp add: replica_name_at_def create_replica_name_inject)
next
  case False
  then show "replica_name_at s skip i = replica_name_at s skip j \<Longrightarrow> i = j"
    by (simp add: replica_name_at_def create_replica_name_def get_next_index_def)
qed

interpretation replica_names: name_supply "replica_name_at s skip" for s skip
  by unfold_locales (rule replica_name_at_inject)

section \<open>The sections of the configuration\<close>

definition zk_default_port :: int where "zk_default_port = 2181"

definition normalize_configuration_zookeeper :: "zookeeper_config \<Rightarrow> zookeeper_config" where
  "normalize_configuration_zookeeper zk =
     zk\<lparr>zk_nodes := map (\<lambda>n. if zn_port n = 0 then n\<lparr>zn_port := zk_default_port\<rparr> else n) (zk_nodes zk)\<rparr>"

text \<open>\<open>normalizeConfigurationProfiles\<close>, \<open>Quotas\<close>, \<open>Settings\<close> and \<open>Files\<close> have the same body.\<close>

definition normalize_configuration_profiles :: "settings \<Rightarrow> settings" where
  "normalize_configuration_profiles s = Some (normalize_paths (mmake s))"

definition normalize_configuration_quotas :: "settings \<Rightarrow> settings" where
  "normalize_configuration_quotas s = Some (normalize_paths (mmake s))"

definition normalize_configuration_settings :: "settings \<Rightarrow> settings" where
  "normalize_configuration_settings s = Some (normalize_paths (mmake s))"

definition normalize_configuration_files :: "settings \<Rightarrow> settings" where
  "normalize_configuration_files s = Some (normalize_paths (mmake s))"

subsection \<open>Users\<close>

definition user_path :: "string \<Rightarrow> string \<Rightarrow> string" where
  "user_path username section = username @ ''/'' @ section"

definition ensure_setting :: "string \<Rightarrow> setting \<Rightarrow> setting entries \<Rightarrow> setting entries" where
  "ensure_setting path s es = (if map_of es path = None then put path s es else es)"

text \<open>The body of the loop over the users; \<open>regexp\<close> is \<open>CreatePodRegexp(n.di, PodRegexpTemplate)\<close>.\<close>

definition default_password :: "operator_config \<Rightarrow> string \<Rightarrow> setting entries \<Rightarrow> string" where
  "default_password conf u es =
     (case map_of es (user_path u ''password'') of
        Some s \<Rightarrow> setting_string s
      | None \<Rightarrow> if u \<noteq> ''default'' then oc_user_default_password conf else [])"

definition secure_password :: "operator_config \<Rightarrow> string \<Rightarrow> setting entries \<Rightarrow> setting entries" where
  "secure_password conf u es =
     (let pass = default_password conf u es;
          ok = map_of es (user_path u ''password_sha256_hex'') \<noteq> None;
          es' = (if pass \<noteq> [] \<and> \<not> ok
                 then put (user_path u ''password_sha256_hex'') (new_scalar_setting (sha256_hex pass)) es
                 else es);
          ok' = (ok \<or> pass \<noteq> [])
      in if ok'
         then (if u = ''default''
               then put (user_path u ''password'') (new_scalar_setting ''_removed_'') es'
               else del (user_path u ''password'') es')
         else es')"

definition normalize_user ::
  "operator_config \<Rightarrow> string \<Rightarrow> string \<Rightarrow> setting entries \<Rightarrow> setting entries" where
  "normalize_user conf regexp u es =
     secure_password conf u
       (ensure_setting (user_path u ''networks/host_regexp'') (new_scalar_setting regexp)
       (ensure_setting (user_path u ''networks/ip'') (new_vector_setting (oc_user_default_networks_ip conf))
       (ensure_setting (user_path u ''quota'') (new_scalar_setting (oc_user_default_quota conf))
       (ensure_setting (user_path u ''profile'') (new_scalar_setting (oc_user_default_profile conf)) es))))"

text \<open>
  The user names of a section, \<open>default\<close> always among them. The source collects them in a map;
  \<open>normalize_users_order\<close> below shows that the order of its keys does not matter.
\<close>

definition user_names :: "setting entries \<Rightarrow> string list" where
  "user_names es =
     remdups (map (\<lambda>path. hd (go_split (CHR ''/'') path))
       (filter (\<lambda>path. 2 \<le> length (go_split (CHR ''/'') path)) (map fst es)) @ [''default''])"

definition normalize_users ::
  "operator_config \<Rightarrow> string \<Rightarrow> string list \<Rightarrow> setting entries \<Rightarrow> setting entries" where
  "normalize_users conf regexp names es = fold (normalize_user conf regexp) names es"

definition normalize_configuration_users :: "operator_config \<Rightarrow> string \<Rightarrow> settings \<Rightarrow> settings" where
  "normalize_configuration_users conf regexp users =
     (let es = normalize_paths (mmake users)
      in Some (normalize_users conf regexp (user_names es) es))"

section \<open>Clusters, shards and replicas\<close>

definition normalize_layout_counts :: "layout \<Rightarrow> layout" where
  "normalize_layout_counts l =
     (let l1 = (if lo_shards_count l = 0
                then l\<lparr>lo_shards_count := (if 1 < mlen (lo_shards l) then int (mlen (lo_shards l)) else 1)\<rparr>
                else l)
      in if lo_replicas_count l1 = 0 then l1\<lparr>lo_replicas_count := 1\<rparr> else l1)"

definition ensure_cluster_layout_shards :: "string \<Rightarrow> cluster \<Rightarrow> cluster option" where
  "ensure_cluster_layout_shards inst c =
     (let l = cl_layout c;
          name = (\<lambda>i. create_shard_name inst (cl_name c) (int i))
      in map_option (\<lambda>es. c\<lparr>cl_layout := l\<lparr>lo_shards := Some es\<rparr>\<rparr>)
           (fill_loop name (\<lambda>i. zero_shard\<lparr>sh_name := name i\<rparr>) (lo_shards_count l) (mmake (lo_shards l))))"

definition normalize_shard_replicas_count :: "int \<Rightarrow> int set \<Rightarrow> shard \<Rightarrow> shard" where
  "normalize_shard_replicas_count layout_replicas_count slots s =
     s\<lparr>sh_replica_count :=
         (if int (card slots) < layout_replicas_count then layout_replicas_count - int (card slots)
          else layout_replicas_count)\<rparr>"

definition normalize_shard_internal_replication :: "shard \<Rightarrow> shard" where
  "normalize_shard_internal_replication s =
     s\<lparr>sh_internal_replication :=
         cast_string_bool_to_true_false (sh_internal_replication s) (1 < sh_replica_count s)\<rparr>"

text \<open>\<open>defaults\<close> are the template names of \<open>n.normalized.Spec.Defaults\<close>.\<close>

definition normalize_replica :: "template_names \<Rightarrow> shard \<Rightarrow> replica \<Rightarrow> replica" where
  "normalize_replica dflt s r =
     (let r1 = replica_inherit_settings s r;
          r2 = r1\<lparr>rp_settings := normalize_configuration_settings (rp_settings r1)\<rparr>;
          r3 = replica_inherit_files s r2;
          r4 = r3\<lparr>rp_files := normalize_configuration_settings (rp_files r3)\<rparr>
      in r4\<lparr>rp_templates := template_names_merge_from (rp_templates r4) dflt MergeTypeFillEmptyValues\<rparr>)"

definition new_replicas :: "shard \<Rightarrow> int set \<Rightarrow> string set" where
  "new_replicas s skip =
     set (map (\<lambda>i. create_replica_name (sh_name s) (int i) skip) [0..<nat (sh_replica_count s)])"

definition normalize_replicas :: "template_names \<Rightarrow> int set \<Rightarrow> shard \<Rightarrow> shard option" where
  "normalize_replicas dflt skip s =
     map_option (\<lambda>es.
         s\<lparr>sh_replicas := Some (if sh_replica_count s < int (length es)
                                then filter (\<lambda>(r, _). r \<in> new_replicas s skip) es else es)\<rparr>)
       (fill_loop (replica_name_at (sh_name s) skip)
         (\<lambda>i. normalize_replica dflt s (zero_replica\<lparr>rp_name := replica_name_at (sh_name s) skip i\<rparr>))
         (sh_replica_count s) (mmake (sh_replicas s)))"

definition normalize_shard ::
  "(string \<Rightarrow> string list option) \<Rightarrow> object_meta \<Rightarrow> template_names \<Rightarrow> cluster \<Rightarrow> shard \<Rightarrow> shard option" where
  "normalize_shard parse_strings meta dflt c s =
     (let s1 = shard_inherit_settings c s;
          s2 = s1\<lparr>sh_settings := normalize_configuration_settings (sh_settings s1)\<rparr>;
          s3 = shard_inherit_files c s2;
          s4 = s3\<lparr>sh_files := normalize_configuration_settings (sh_files s3)\<rparr>;
          slots = get_delete_slots_for_shard parse_strings meta (sh_name s4);
          s5 = normalize_shard_replicas_count (lo_replicas_count (cl_layout c)) slots s4;
          skip = (if sh_replica_count s5 = lo_replicas_count (cl_layout c) then {} else slots)
      in map_option normalize_shard_internal_replication (normalize_replicas dflt skip s5))"

text \<open>\<open>normalizeCluster\<close> up to the layout counts, and then the shards.\<close>

definition normalize_cluster_sections :: "daisy_installation \<Rightarrow> cluster \<Rightarrow> cluster" where
  "normalize_cluster_sections di c =
     (let c1 = cluster_inherit_zookeeper di c;
          c2 = cluster_inherit_files di c1
      in c2\<lparr>cl_zookeeper := normalize_configuration_zookeeper (cl_zookeeper c2),
            cl_settings := normalize_configuration_settings (cl_settings c2),
            cl_files := normalize_configuration_files (cl_files c2),
            cl_layout := normalize_layout_counts (cl_layout c2)\<rparr>)"

definition normalize_cluster ::
  "(string \<Rightarrow> string list option) \<Rightarrow> daisy_installation \<Rightarrow> template_names \<Rightarrow> cluster \<Rightarrow> cluster option" where
  "normalize_cluster parse_strings di dflt c =
     (case ensure_cluster_layout_shards (di_name di) (normalize_cluster_sections di c) of
        None \<Rightarrow> None
      | Some c1 \<Rightarrow>
          map_option (\<lambda>ss. c1\<lparr>cl_layout := (cl_layout c1)\<lparr>lo_shards := Some ss\<rparr>\<rparr>)
            (enumerate_shards (normalize_shard parse_strings (di_meta di) dflt c1)
              (mentries (lo_shards (cl_layout c1)))))"

section \<open>The installation\<close>

text \<open>The default cluster is added whatever \<open>withDefaultCluster\<close> says.\<close>

definition ensure_cluster :: "cluster gomap \<Rightarrow> cluster entries" where
  "ensure_cluster cs =
     (let es = mmake cs
      in if length es = 0 then put ''cluster'' (zero_cluster\<lparr>cl_name := ''cluster''\<rparr>) es else es)"

definition normalize_configuration ::
  "(string \<Rightarrow> string list option) \<Rightarrow> operator_config \<Rightarrow> template_names \<Rightarrow> daisy_installation
   \<Rightarrow> daisy_installation option" where
  "normalize_configuration parse_strings conf dflt di =
     (let cf = di_configuration di;
          regexp = create_pod_regexp (di_namespace di) (di_name di) pod_regexp_template;
          cf1 = cf\<lparr>cf_zookeeper := normalize_configuration_zookeeper (cf_zookeeper cf),
                   cf_users := normalize_configuration_users conf regexp (cf_users cf),
                   cf_profiles := normalize_configuration_profiles (cf_profiles cf),
                   cf_quotas := normalize_configuration_quotas (cf_quotas cf),
                   cf_settings := normalize_configuration_settings (cf_settings cf),
                   cf_files := normalize_configuration_files (cf_files cf)\<rparr>;
          cs = ensure_cluster (cf_clusters cf1);
          di1 = di\<lparr>di_spec := (di_spec di)\<lparr>sp_configuration := cf1\<lparr>cf_clusters := Some cs\<rparr>\<rparr>\<rparr>
      in map_option (\<lambda>cs'. di1\<lparr>di_spec := (di_spec di1)\<lparr>sp_configuration :=
              (di_configuration di1)\<lparr>cf_clusters := Some cs'\<rparr>\<rparr>\<rparr>)
           (enumerate_clusters (normalize_cluster parse_strings di1 dflt) cs))"

text \<open>\<open>normalizeTemplates\<close>: the indexes of the templates by name, a later one over an earlier one.\<close>

definition index_templates :: "('a \<Rightarrow> string) \<Rightarrow> 'a list option \<Rightarrow> 'a entries \<Rightarrow> 'a entries" where
  "index_templates name_of ts es = fold (\<lambda>t m. put (name_of t) t m) (slice_items ts) es"

definition normalize_installation ::
  "(string \<Rightarrow> string list option) \<Rightarrow> operator_config \<Rightarrow> template_names \<Rightarrow> daisy_installation
   \<Rightarrow> normalized_spec option" where
  "normalize_installation parse_strings conf dflt di =
     map_option (\<lambda>d. \<lparr>no_spec = di_spec d,
         no_volume_claim_templates =
           Some (index_templates vt_name (tp_volume_claim_templates (sp_templates (di_spec d))) []),
         no_pod_templates =
           Some (index_templates pt_name (tp_pod_templates (sp_templates (di_spec d))) [])\<rparr>)
       (normalize_configuration parse_strings conf dflt di)"

record norm_env =
  nv_parse_strings :: "string \<Rightarrow> string list option"
  nv_mergo :: mergo
  nv_fetch :: "string \<Rightarrow> string \<Rightarrow> daisy_installation option"

text \<open>One of \<open>useTemplates\<close>: from the catalogue, or fetched; skipped when there is none.\<close>

definition apply_template ::
  "norm_env \<Rightarrow> string \<Rightarrow> use_template \<Rightarrow> daisy_installation \<times> operator_config
   \<Rightarrow> daisy_installation \<times> operator_config" where
  "apply_template env namespace u st =
     (case st of (acc, conf) \<Rightarrow>
        (let (found, conf') =
               (case find_template conf u namespace of
                  Some t \<Rightarrow> (Some t, conf)
                | None \<Rightarrow> fetch_template (nv_fetch env) u namespace conf)
         in case found of
              None \<Rightarrow> (acc, conf')
            | Some t \<Rightarrow>
                (acc\<lparr>di_spec := spec_merge_from (nv_mergo env) (di_spec acc) (di_spec t)
                       MergeTypeOverrideByNonEmptyValues\<rparr>, conf')))"

definition get_installation_from_template ::
  "norm_env \<Rightarrow> operator_config \<Rightarrow> daisy_installation \<Rightarrow> bool
   \<Rightarrow> normalized_spec option \<times> operator_config" where
  "get_installation_from_template env conf di with_default_cluster =
     (let base = (case oc_template conf of None \<Rightarrow> zero_installation | Some t \<Rightarrow> t);
          (acc, conf') = fold (apply_template env (di_namespace di)) (sp_use_templates (di_spec di)) (base, conf);
          merged = installation_merge_from (nv_mergo env) acc di MergeTypeOverrideByNonEmptyValues
      in (normalize_installation (nv_parse_strings env) conf' (df_templates (sp_defaults (di_spec merged)))
            merged, conf'))"

section \<open>Users\<close>

text \<open>
  A loop in which each element owns a part of the map and changes only what it owns: the result
  does not depend on the order of the loop.
\<close>

locale independent_updates =
  fixes owner :: "string \<Rightarrow> 'u"
    and upd :: "'u \<Rightarrow> 'v entries \<Rightarrow> 'v entries"
    and proper :: "'u \<Rightarrow> bool"
  assumes upd_other: "proper u \<Longrightarrow> owner k \<noteq> u \<Longrightarrow> map_of (upd u es) k = map_of es k"
    and upd_local: "proper u \<Longrightarrow> (\<And>k. owner k = u \<Longrightarrow> map_of es k = map_of es' k) \<Longrightarrow>
      owner k = u \<Longrightarrow> map_of (upd u es) k = map_of (upd u es') k"
begin

lemma fold_lookup:
  assumes "distinct us" "\<forall>u \<in> set us. proper u"
  shows "map_of (fold upd us es) k
    = (if owner k \<in> set us then map_of (upd (owner k) es) k else map_of es k)"
  using assms
proof (induction us arbitrary: es)
  case (Cons u us)
  show ?case
  proof (cases "owner k \<in> set us")
    case True
    with Cons.prems have "owner k \<noteq> u" "proper (owner k)" by auto
    have "map_of (upd u es) k' = map_of es k'" if "owner k' = owner k" for k'
      using that \<open>owner k \<noteq> u\<close> Cons.prems by (simp add: upd_other)
    then have "map_of (upd (owner k) (upd u es)) k = map_of (upd (owner k) es) k"
      using \<open>proper (owner k)\<close> by (intro upd_local) auto
    with True Cons show ?thesis by simp
  next
    case False
    with Cons show ?thesis by (auto simp: upd_other)
  qed
qed simp

lemma fold_order:
  assumes "distinct us" "distinct vs" "set us = set vs" "\<forall>u \<in> set us. proper u"
  shows "map_of (fold upd us es) = map_of (fold upd vs es)"
  using assms by (simp add: fun_eq_iff fold_lookup)

end

definition user_of :: "string \<Rightarrow> string" where
  "user_of path = hd (go_split (CHR ''/'') path)"

lemma user_of_path [simp]: "CHR ''/'' \<notin> set u \<Longrightarrow> user_of (user_path u s) = u"
  by (simp add: user_of_def user_path_def go_split_append)

lemma user_path_inject [simp]: "user_path u a = user_path u b \<longleftrightarrow> a = b"
  by (simp add: user_path_def)

lemma map_of_ensure_setting [entries_simps]:
  "map_of (ensure_setting p s es) k = (if k = p \<and> map_of es p = None then Some s else map_of es k)"
  by (auto simp: ensure_setting_def)

lemma ensure_setting_has [simp]: "map_of (ensure_setting p s es) p \<noteq> None"
  by (simp add: map_of_ensure_setting)

lemma default_password_cong:
  "map_of es (user_path u ''password'') = map_of es' (user_path u ''password'') \<Longrightarrow>
   default_password conf u es = default_password conf u es'"
  by (simp add: default_password_def)

lemma map_of_secure_password:
  "map_of (secure_password conf u es) k =
     (let pass = default_password conf u es;
          digest = map_of es (user_path u ''password_sha256_hex'');
          secured = (digest \<noteq> None \<or> pass \<noteq> [])
      in if k = user_path u ''password'' \<and> secured
         then (if u = ''default'' then Some (new_scalar_setting ''_removed_'') else None)
         else if k = user_path u ''password_sha256_hex'' \<and> pass \<noteq> [] \<and> digest = None
         then Some (new_scalar_setting (sha256_hex pass))
         else map_of es k)"
  by (cases "map_of es (user_path u ''password_sha256_hex'')"; cases "default_password conf u es = []";
      cases "u = ''default''") (simp_all add: secure_password_def Let_def)

lemma distinct_secure_password [intro]: "keys_distinct es \<Longrightarrow> keys_distinct (secure_password conf u es)"
  by (simp add: secure_password_def Let_def)

lemma distinct_normalize_user [intro]:
  "keys_distinct es \<Longrightarrow> keys_distinct (normalize_user conf r u es)"
  by (simp add: normalize_user_def ensure_setting_def distinct_secure_password)

text \<open>The body touches only paths of its user, and reads nothing else.\<close>

interpretation users: independent_updates user_of "normalize_user conf regexp" "\<lambda>u. CHR ''/'' \<notin> set u"
  for conf regexp
proof
  fix u k es assume "CHR ''/'' \<notin> set u" "user_of k \<noteq> u"
  then have "k \<noteq> user_path u s" for s by auto
  then show "map_of (normalize_user conf regexp u es) k = map_of es k"
    by (simp add: normalize_user_def map_of_secure_password map_of_ensure_setting Let_def)
next
  fix u k and es es' :: "setting entries"
  assume u: "CHR ''/'' \<notin> set u" "user_of k = u"
    and eq: "\<And>k. user_of k = u \<Longrightarrow> map_of es k = map_of es' k"
  have path: "map_of es (user_path u s) = map_of es' (user_path u s)" for s
    using u by (intro eq) simp
  have ensure: "map_of (ensure_setting p x es1) k = map_of (ensure_setting p x es2) k"
    if "map_of es1 k = map_of es2 k" "map_of es1 p = map_of es2 p" for p x es1 es2 k
    using that by (simp add: map_of_ensure_setting)
  have secure: "map_of (secure_password conf u es1) k = map_of (secure_password conf u es2) k"
    if "map_of es1 k = map_of es2 k" "\<And>s. map_of es1 (user_path u s) = map_of es2 (user_path u s)"
    for es1 es2
    by (simp only: map_of_secure_password that default_password_cong [OF that(2)])
  show "map_of (normalize_user conf regexp u es) k = map_of (normalize_user conf regexp u es') k"
    unfolding normalize_user_def by (intro secure ensure path eq u(2))
qed

lemma user_names_iff:
  "u \<in> set (user_names es) \<longleftrightarrow>
     u = ''default'' \<or> (\<exists>path \<in> keys_of es. CHR ''/'' \<in> set path \<and> user_of path = u)"
proof -
  have "2 \<le> length (go_split (CHR ''/'') path) \<longleftrightarrow> CHR ''/'' \<in> set path" for path
    by (metis Suc_le_mono count_list_0_iff length_go_split neq0_conv numeral_2_eq_2 One_nat_def Suc_leI not_less_eq_eq)
  then show ?thesis by (force simp: user_names_def user_of_def)
qed

lemma user_of_no_slash: "CHR ''/'' \<notin> set (user_of path)"
  unfolding user_of_def by (rule go_split_parts [of _ _ path]) simp

lemma user_names_no_slash: "u \<in> set (user_names es) \<Longrightarrow> CHR ''/'' \<notin> set u"
  by (auto simp: user_names_iff dest: user_of_no_slash [THEN notE])

lemma distinct_user_names [simp]: "distinct (user_names es)"
  unfolding user_names_def by (rule distinct_remdups)

lemma default_user [simp]: "''default'' \<in> set (user_names es)"
  by (simp add: user_names_iff)

text \<open>What one user's section looks like after the loop.\<close>

lemma normalize_users_lookup:
  assumes "u \<in> set (user_names es)"
  shows "map_of (normalize_users conf regexp (user_names es) es) (user_path u s)
    = map_of (normalize_user conf regexp u es) (user_path u s)"
  using assms user_names_no_slash [of _ es]
  by (simp add: normalize_users_def users.fold_lookup)

lemma distinct_normalize_users [intro]:
  "keys_distinct es \<Longrightarrow> keys_distinct (normalize_users conf regexp names es)"
  unfolding normalize_users_def by (rule fold_invariant) auto

text \<open>
  C10: Every user of the section, \<open>default\<close> included, ends up with a profile, a quota and network
  restrictions; no password survives in the clear, except an explicitly empty one of a user who
  gives no digest: the password of \<open>default\<close> is flagged as removed, another user's is deleted,
  and its digest, unless the user gave one, is the SHA-256 of what was configured.
\<close>

theorem users_secured:
  assumes "u \<in> set (user_names (normalize_paths (mmake users)))"
  shows "(let before = normalize_paths (mmake users);
              after = normalize_configuration_users conf regexp users;
              pass = default_password conf u before
          in (\<forall>s \<in> {''profile'', ''quota'', ''networks/ip'', ''networks/host_regexp''}.
                mhas after (user_path u s))
             \<and> (case mget after (user_path u ''password'') of
                  None \<Rightarrow> True
                | Some p \<Rightarrow> (u = ''default'' \<and> p = new_scalar_setting ''_removed_'')
                           \<or> (setting_string p = [] \<and> \<not> mhas after (user_path u ''password_sha256_hex'')))
             \<and> mget after (user_path u ''password_sha256_hex'') =
                 (case map_of before (user_path u ''password_sha256_hex'') of
                    Some d \<Rightarrow> Some d
                  | None \<Rightarrow> if pass = [] then None else Some (new_scalar_setting (sha256_hex pass))))"
proof -
  let ?es = "normalize_paths (mmake users)"
  have at: "mget (normalize_configuration_users conf regexp users) (user_path u s)
      = map_of (normalize_user conf regexp u ?es) (user_path u s)" for s
    using assms by (simp add: normalize_configuration_users_def Let_def normalize_users_lookup)
  have pw: "default_password conf u (ensure_setting (user_path u s) x e) = default_password conf u e"
    if "s \<noteq> ''password''" for s x e
    using that by (intro default_password_cong) (simp add: map_of_ensure_setting)
  let ?after = "normalize_configuration_users conf regexp users"
  have "mhas ?after (user_path u s)"
    if "s \<in> {''profile'', ''quota'', ''networks/ip'', ''networks/host_regexp''}" for s
  proof -
    have other: "s \<noteq> ''password''" "s \<noteq> ''password_sha256_hex''" using that by auto
    then have "mget ?after (user_path u s) = map_of
        (ensure_setting (user_path u ''networks/host_regexp'') (new_scalar_setting regexp)
        (ensure_setting (user_path u ''networks/ip'') (new_vector_setting (oc_user_default_networks_ip conf))
        (ensure_setting (user_path u ''quota'') (new_scalar_setting (oc_user_default_quota conf))
        (ensure_setting (user_path u ''profile'') (new_scalar_setting (oc_user_default_profile conf)) ?es))))
        (user_path u s)"
      unfolding at normalize_user_def map_of_secure_password Let_def by simp
    with that show ?thesis by (elim insertE) (simp_all add: mhas_def map_of_ensure_setting)
  qed
  moreover have password: "mget ?after (user_path u ''password'') =
      (if map_of ?es (user_path u ''password_sha256_hex'') \<noteq> None \<or> default_password conf u ?es \<noteq> []
       then (if u = ''default'' then Some (new_scalar_setting ''_removed_'') else None)
       else map_of ?es (user_path u ''password''))"
    unfolding at normalize_user_def map_of_secure_password Let_def pw by (simp add: map_of_ensure_setting pw)
  moreover have digest: "mget ?after (user_path u ''password_sha256_hex'') =
      (case map_of ?es (user_path u ''password_sha256_hex'') of
         Some d \<Rightarrow> Some d
       | None \<Rightarrow> if default_password conf u ?es = [] then None
                else Some (new_scalar_setting (sha256_hex (default_password conf u ?es))))"
    by (simp add: at normalize_user_def map_of_secure_password Let_def pw map_of_ensure_setting
        split: option.splits)
  moreover have "map_of ?es (user_path u ''password'') = Some p \<Longrightarrow>
      default_password conf u ?es = [] \<Longrightarrow> setting_string p = []" for p
    by (simp add: default_password_def)
  ultimately show ?thesis
    unfolding Let_def mhas_def by (auto split: option.splits)
qed

lemma setting_string_scalar [simp]: "setting_string (new_scalar_setting x) = x"
  by (simp add: setting_string_def new_scalar_setting_def)

theorem users_secured_witness:
  "mget (normalize_configuration_users zero_operator_config ''r''
       (Some [(''admin/password'', new_scalar_setting ''x'')])) (user_path ''admin'' ''password_sha256_hex'')
     = Some (new_scalar_setting (sha256_hex ''x''))"
proof -
  have es: "normalize_paths [(''admin/password'', new_scalar_setting ''x'')]
      = [(''admin/password'', new_scalar_setting ''x'')]" by code_simp
  have u: "''admin'' \<in> set (user_names [(''admin/password'', new_scalar_setting ''x'')])"
    by code_simp
  show ?thesis
    using users_secured [of "''admin''" "Some [(''admin/password'', new_scalar_setting ''x'')]"
        zero_operator_config "''r''"] u
    by (simp add: es Let_def default_password_def user_path_def)
qed

text \<open>
  C38: Go visits the collected user names in an unspecified order. Whatever the order, the
  section the loop produces is the same map.
\<close>

theorem normalize_users_order:
  assumes "distinct names" "set names = set (user_names es)"
  shows "map_of (normalize_users conf regexp names es)
    = map_of (normalize_users conf regexp (user_names es) es)"
  unfolding normalize_users_def using assms
  by (intro users.fold_order) (auto simp: user_names_no_slash)

theorem normalize_users_order_witness:
  "map_of (normalize_users zero_operator_config ''r'' [''default'', ''b'', ''a'']
      [(''a/password'', new_scalar_setting ''x''), (''b/quota'', new_scalar_setting ''q'')])
   = map_of (normalize_users zero_operator_config ''r'' [''a'', ''b'', ''default'']
      [(''a/password'', new_scalar_setting ''x''), (''b/quota'', new_scalar_setting ''q'')])"
proof -
  let ?es = "[(''a/password'', new_scalar_setting ''x''), (''b/quota'', new_scalar_setting ''q'')]"
  have names: "user_names ?es = [''a'', ''b'', ''default'']" by code_simp
  show ?thesis
    using normalize_users_order [of "[''default'', ''b'', ''a'']" ?es zero_operator_config "''r''"]
    by (simp add: names insert_commute)
qed

section \<open>Layouts\<close>

text \<open>
  C21: Completing a cluster's shards returns exactly when none of the names the loop is about to
  generate is already the key of a shard the user has given. Otherwise, for instance when the
  user lists shard number 1 alone and asks for two, the operator hangs in the loop.
\<close>

theorem ensure_shards_terminates:
  "ensure_cluster_layout_shards inst c \<noteq> None \<longleftrightarrow>
     (\<forall>i. mlen (lo_shards (cl_layout c)) \<le> i \<and> int i < lo_shards_count (cl_layout c) \<longrightarrow>
        \<not> mhas (lo_shards (cl_layout c)) (create_shard_name inst (cl_name c) (int i)))"
proof -
  have "map_of es k = None \<longleftrightarrow> k \<notin> keys_of es" for es :: "shard entries" and k
    by (rule map_of_None_iff)
  then show ?thesis
    using shard_names.fill_loop_ends [of inst "cl_name c" _ "lo_shards_count (cl_layout c)"
        "mmake (lo_shards (cl_layout c))"]
    by (simp add: ensure_cluster_layout_shards_def Let_def shard_names.free_names_def mhas_def mget_def
        mlen_def mmake_def)
qed

theorem ensure_shards_terminates_witness:
  "ensure_cluster_layout_shards ''i'' (zero_cluster\<lparr>cl_name := ''c'', cl_layout :=
      zero_layout\<lparr>lo_shards_count := 2, lo_shards := Some [(''i-c-1'', zero_shard)]\<rparr>\<rparr>) = None"
proof -
  have "create_shard_name ''i'' ''c'' 1 = ''i-c-1''" by code_simp
  then show ?thesis
    using ensure_shards_terminates [of "''i''" "zero_cluster\<lparr>cl_name := ''c'', cl_layout :=
      zero_layout\<lparr>lo_shards_count := 2, lo_shards := Some [(''i-c-1'', zero_shard)]\<rparr>\<rparr>"]
    by (auto simp: mhas_def dest: spec [of _ 1])
qed

lemma ensure_shards_fresh:
  assumes "mlen (lo_shards (cl_layout c)) = 0"
  shows "ensure_cluster_layout_shards inst c = Some (c\<lparr>cl_layout := (cl_layout c)\<lparr>lo_shards :=
     Some (map (\<lambda>i. (create_shard_name inst (cl_name c) (int i),
                     zero_shard\<lparr>sh_name := create_shard_name inst (cl_name c) (int i)\<rparr>))
       [0..<nat (lo_shards_count (cl_layout c))])\<rparr>\<rparr>)"
proof -
  have "mmake (lo_shards (cl_layout c)) = []" using assms by (simp add: mlen_def mmake_def)
  then show ?thesis
    by (simp add: ensure_cluster_layout_shards_def Let_def shard_names.fill_loop_fresh shard_names.free_names_def)
qed

lemma normalize_replica_name [simp]: "rp_name (normalize_replica d s r) = rp_name r"
  by (simp add: normalize_replica_def replica_inherit_settings_def replica_inherit_files_def Let_def)

lemma normalize_replicas_fresh:
  assumes "mlen (sh_replicas s) = 0"
  shows "normalize_replicas d skip s = Some (s\<lparr>sh_replicas :=
     Some (map (\<lambda>i. (replica_name_at (sh_name s) skip i,
                     normalize_replica d s (zero_replica\<lparr>rp_name := replica_name_at (sh_name s) skip i\<rparr>)))
       [0..<nat (sh_replica_count s)])\<rparr>)"
proof -
  have "mmake (sh_replicas s) = []" using assms by (simp add: mlen_def mmake_def)
  then show ?thesis
    by (simp add: normalize_replicas_def replica_names.fill_loop_fresh replica_names.free_names_def)
qed

lemma normalize_shard_unfold:
  "normalize_shard parse meta d c s =
     (let slots = get_delete_slots_for_shard parse meta (sh_name s);
          n = lo_replicas_count (cl_layout c);
          count = (if int (card slots) < n then n - int (card slots) else n);
          s5 = s\<lparr>sh_settings := normalize_configuration_settings (merge_from (sh_settings s) (cl_settings c)),
                 sh_files := normalize_configuration_settings (merge_from (sh_files s) (cl_files c)),
                 sh_replica_count := count\<rparr>
      in map_option normalize_shard_internal_replication
           (normalize_replicas d (if count = n then {} else slots) s5))"
  by (simp add: normalize_shard_def shard_inherit_settings_def shard_inherit_files_def
      normalize_shard_replicas_count_def Let_def)

text \<open>
  C15: For a shard without replicas of its own, normalization returns, and the replicas it
  generates are exactly as many as the layout asks for less the slots to delete (unless the
  slots would leave none, then they are ignored); they have distinct names, each stored under
  its own name, and none has the name of a deleted slot.
\<close>

theorem shard_replicas_avoid_slots:
  assumes "mlen (sh_replicas s) = 0"
    and "slots = get_delete_slots_for_shard parse meta (sh_name s)"
    and "n = lo_replicas_count (cl_layout c)" and "0 < n"
  shows "\<exists>s' es. normalize_shard parse meta d c s = Some s' \<and> sh_replicas s' = Some es
    \<and> sh_replica_count s' = (if int (card slots) < n then n - int (card slots) else n)
    \<and> int (length es) = sh_replica_count s' \<and> 0 < sh_replica_count s' \<and> keys_distinct es
    \<and> (\<forall>(k, r) \<in> set es. rp_name r = k)
    \<and> (int (card slots) < n \<longrightarrow> (\<forall>i \<in> slots. dashed (sh_name s) i \<notin> keys_of es))"
proof -
  define count where "count = (if int (card slots) < n then n - int (card slots) else n)"
  define skip where "skip = (if count = n then {} else slots)"
  define s5 where "s5 = s\<lparr>sh_settings := normalize_configuration_settings (merge_from (sh_settings s) (cl_settings c)),
                 sh_files := normalize_configuration_settings (merge_from (sh_files s) (cl_files c)),
                 sh_replica_count := count\<rparr>"
  let ?name = "replica_name_at (sh_name s) skip"
  let ?es = "map (\<lambda>i. (?name i, normalize_replica d s5 (zero_replica\<lparr>rp_name := ?name i\<rparr>))) [0..<nat count]"
  have slots: "finite slots" using assms(2) by simp
  have result: "normalize_shard parse meta d c s
      = Some (normalize_shard_internal_replication (s5\<lparr>sh_replicas := Some ?es\<rparr>))"
    unfolding normalize_shard_unfold Let_def assms(2) [symmetric] assms(3) [symmetric]
      count_def [symmetric] skip_def [symmetric] s5_def [symmetric]
    using assms(1) by (subst normalize_replicas_fresh) (simp_all add: s5_def)
  have "0 < count" using assms(4) by (simp add: count_def)
  moreover have "keys_distinct ?es"
    by (auto simp: distinct_map o_def intro!: inj_onI dest: replica_name_at_inject)
  moreover have "dashed (sh_name s) i \<notin> keys_of ?es" if "int (card slots) < n" "i \<in> slots" for i
  proof -
    have "card slots \<noteq> 0" using that(2) slots by auto
    then have "skip = slots" using that(1) by (auto simp: skip_def count_def)
    then have "dashed (sh_name s) i \<noteq> ?name j" for j
      using get_next_index_not_skipped [OF slots, of "int j"] that(2)
      by (auto simp: replica_name_at_def create_replica_name_def)
    moreover have "keys_of ?es = ?name ` {0..<nat count}" by force
    ultimately show ?thesis by blast
  qed
  ultimately show ?thesis
    unfolding result by (auto simp: normalize_shard_internal_replication_def count_def [symmetric] s5_def)
qed

theorem shard_replicas_avoid_slots_witness:
  "\<exists>s' es. normalize_shard (\<lambda>_. Some [''x-c-0-1'']) (zero_meta\<lparr>om_annotations := Some [(delete_slots_ann, ''j'')]\<rparr>)
       zero_template_names (zero_cluster\<lparr>cl_layout := zero_layout\<lparr>lo_replicas_count := 3\<rparr>\<rparr>)
       (zero_shard\<lparr>sh_name := ''x-c-0''\<rparr>) = Some s'
     \<and> sh_replicas s' = Some es \<and> length es = 2 \<and> ''x-c-0-1'' \<notin> keys_of es"
proof -
  let ?meta = "zero_meta\<lparr>om_annotations := Some [(delete_slots_ann, ''j'')]\<rparr>"
  have slots: "get_delete_slots_for_shard (\<lambda>_. Some [''x-c-0-1'']) ?meta ''x-c-0'' = {1}"
  proof -
    have "contains ''x-c-0-1'' ''x-c-0''" "extract_last_ordinal ''x-c-0-1'' = 1" by code_simp+
    then show ?thesis by (simp add: get_delete_slots_for_shard_def)
  qed
  have "dashed ''x-c-0'' 1 = ''x-c-0-1''" by code_simp
  then show ?thesis
    using shard_replicas_avoid_slots [of "zero_shard\<lparr>sh_name := ''x-c-0''\<rparr>" "{1}" "\<lambda>_. Some [''x-c-0-1'']" ?meta 3
        "zero_cluster\<lparr>cl_layout := zero_layout\<lparr>lo_replicas_count := 3\<rparr>\<rparr>" zero_template_names]
    by (auto simp: slots zero_shard_def)
qed

section \<open>What a normalized specification satisfies\<close>

definition settings_normal :: "settings \<Rightarrow> bool" where
  "settings_normal s \<longleftrightarrow> s \<noteq> None \<and> (\<forall>k \<in> keys_of (mentries s). normalize_key k = k)"

lemma settings_normal_normalized [simp]:
  "settings_normal (normalize_configuration_profiles s)"
  "settings_normal (normalize_configuration_quotas s)"
  "settings_normal (normalize_configuration_settings s)"
  "settings_normal (normalize_configuration_files s)"
  by (auto simp: settings_normal_def normalize_configuration_profiles_def
      normalize_configuration_quotas_def normalize_configuration_settings_def
      normalize_configuration_files_def intro!: normalize_paths_keys [of _ "mmake s"] imageI)

definition shard_normalized :: "shard \<Rightarrow> bool" where
  "shard_normalized s \<longleftrightarrow> sh_replicas s \<noteq> None \<and> sh_replica_count s \<noteq> 0
     \<and> sh_internal_replication s \<in> {''true'', ''false''}
     \<and> settings_normal (sh_settings s) \<and> settings_normal (sh_files s)"

definition cluster_normalized :: "string \<Rightarrow> cluster \<Rightarrow> bool" where
  "cluster_normalized key c \<longleftrightarrow> (key \<noteq> [] \<longrightarrow> cl_name c \<noteq> [])
     \<and> list_all (\<lambda>n. zn_port n \<noteq> 0) (zk_nodes (cl_zookeeper c))
     \<and> settings_normal (cl_settings c) \<and> settings_normal (cl_files c)
     \<and> lo_shards_count (cl_layout c) \<noteq> 0 \<and> lo_replicas_count (cl_layout c) \<noteq> 0
     \<and> lo_shards_count (cl_layout c) \<le> int (mlen (lo_shards (cl_layout c)))
     \<and> list_all (\<lambda>(_, s). shard_normalized s) (mentries (lo_shards (cl_layout c)))"

lemma normalize_replicas_shape:
  "normalize_replicas d skip s = Some s' \<Longrightarrow> \<exists>es. s' = s\<lparr>sh_replicas := Some es\<rparr>"
  by (auto simp: normalize_replicas_def)

lemma normalize_shard_normalized:
  assumes "normalize_shard parse meta d c s = Some s'" "lo_replicas_count (cl_layout c) \<noteq> 0"
  shows "shard_normalized s'"
  using assms
  by (auto simp: normalize_shard_unfold Let_def shard_normalized_def normalize_shard_internal_replication_def
      dest!: normalize_replicas_shape split: if_splits)
    (use cast_true_false_range in auto)

lemma fill_loop_count: "fill_loop name item count es = Some es' \<Longrightarrow> count \<le> int (length es')"
proof (rule fill_loop.raw_induct [where P = "\<lambda>name item count es es'. count \<le> int (length es')"])
qed (auto split: if_splits)

lemma ensure_shards_shape:
  assumes "ensure_cluster_layout_shards inst c = Some c'"
  shows "\<exists>es. c' = c\<lparr>cl_layout := (cl_layout c)\<lparr>lo_shards := Some es\<rparr>\<rparr>
    \<and> lo_shards_count (cl_layout c) \<le> int (length es)"
  using assms by (auto simp: ensure_cluster_layout_shards_def Let_def dest: fill_loop_count)

lemma zookeeper_ports [simp]:
  "list_all (\<lambda>n. zn_port n \<noteq> 0) (zk_nodes (normalize_configuration_zookeeper zk))"
  by (auto simp: normalize_configuration_zookeeper_def zk_default_port_def list_all_iff)

lemma normalize_layout_counts_nonzero [simp]:
  "lo_shards_count (normalize_layout_counts l) \<noteq> 0"
  "lo_replicas_count (normalize_layout_counts l) \<noteq> 0"
  by (auto simp: normalize_layout_counts_def Let_def)

lemma normalize_cluster_normalized:
  assumes "normalize_cluster parse di d c = Some c'" "key \<noteq> [] \<longrightarrow> cl_name c \<noteq> []"
  shows "cluster_normalized key c'"
proof -
  define c3 where "c3 = normalize_cluster_sections di c"
  note c3_defs = c3_def normalize_cluster_sections_def Let_def
  have name: "cl_name c3 = cl_name c"
    by (simp add: c3_defs cluster_inherit_files_def cluster_inherit_zookeeper_def)
  obtain c4 ss where c4: "ensure_cluster_layout_shards (di_name di) c3 = Some c4"
    and ss: "enumerate_shards (normalize_shard parse (di_meta di) d c4) (mentries (lo_shards (cl_layout c4))) = Some ss"
    and c': "c' = c4\<lparr>cl_layout := (cl_layout c4)\<lparr>lo_shards := Some ss\<rparr>\<rparr>"
    using assms(1) by (auto simp: normalize_cluster_def simp flip: c3_def split: option.splits)
  obtain es where es: "c4 = c3\<lparr>cl_layout := (cl_layout c3)\<lparr>lo_shards := Some es\<rparr>\<rparr>"
    "lo_shards_count (cl_layout c3) \<le> int (length es)"
    using ensure_shards_shape [OF c4] by blast
  have "lo_replicas_count (cl_layout c4) \<noteq> 0" by (simp add: es c3_defs)
  then have "list_all (\<lambda>(_, s). shard_normalized s) ss"
    using ss by (fastforce simp: list_all_iff enumerate_shards_def
        dest!: update_each_range intro: normalize_shard_normalized)
  moreover have "length ss = length es"
    using ss by (simp add: enumerate_shards_def es(1) update_each_length)
  ultimately show ?thesis
    using assms(2) es(2) name by (simp add: cluster_normalized_def c' es(1)) (simp add: c3_defs)
qed

lemma update_each_ends: "update_each f es \<noteq> None \<longleftrightarrow> (\<forall>(k, v) \<in> set es. f k v \<noteq> None)"
  by (induction es) (auto split: option.splits)

lemma normalize_shard_fresh: "mlen (sh_replicas s) = 0 \<Longrightarrow> normalize_shard parse meta d c s \<noteq> None"
  by (simp add: normalize_shard_unfold Let_def normalize_replicas_fresh)

lemma normalize_cluster_fresh:
  assumes "mlen (lo_shards (cl_layout c)) = 0"
  shows "normalize_cluster parse di d c \<noteq> None"
proof -
  define c3 where "c3 = normalize_cluster_sections di c"
  have "lo_shards (cl_layout c3) = lo_shards (cl_layout c)"
    by (simp add: c3_def normalize_cluster_sections_def Let_def cluster_inherit_files_def
        cluster_inherit_zookeeper_def normalize_layout_counts_def)
  with assms have "mlen (lo_shards (cl_layout c3)) = 0" by simp
  note shards = ensure_shards_fresh [OF this, of "di_name di"]
  have "normalize_shard parse (di_meta di) d c4 (zero_shard\<lparr>sh_name := n\<rparr>) \<noteq> None" for c4 n
    by (rule normalize_shard_fresh) (simp add: zero_shard_def)
  then have "enumerate_shards (normalize_shard parse (di_meta di) d c4)
      (map (\<lambda>i. (f i, zero_shard\<lparr>sh_name := g i\<rparr>)) xs) \<noteq> None" for c4 f g and xs :: "nat list"
    unfolding enumerate_shards_def update_each_ends by (auto simp del: not_None_eq)
  then show ?thesis
    by (simp add: normalize_cluster_def shards flip: c3_def del: not_None_eq)
qed

lemma normalized_clusters_of_merge [simp]:
  "cf_clusters (di_configuration (installation_merge_from mg acc di ty)) = cf_clusters (di_configuration di)"
  by (simp add: installation_merge_from_def spec_merge_from_def configuration_merge_from_def)

lemma get_installation_returns:
  assumes "\<forall>(k, c) \<in> set (mentries (cf_clusters (di_configuration di))). mlen (lo_shards (cl_layout c)) = 0"
  shows "fst (get_installation_from_template env conf di b) \<noteq> None"
proof -
  have "mlen (lo_shards (cl_layout c)) = 0" if "(k, c) \<in> set (ensure_cluster (cf_clusters (di_configuration di)))" for k c
    using that assms by (auto simp: ensure_cluster_def Let_def put_def mmake_def zero_cluster_def zero_layout_def
        split: if_splits)
  then have "enumerate_clusters (normalize_cluster parse di1 d) (ensure_cluster (cf_clusters (di_configuration di))) \<noteq> None"
    for parse di1 d
    unfolding enumerate_clusters_def update_each_ends
    by (auto intro!: normalize_cluster_fresh simp del: not_None_eq)
  then show ?thesis
    by (simp add: get_installation_from_template_def Let_def normalize_installation_def
        normalize_configuration_def split: prod.splits)
qed


definition pure_env :: norm_env where
  "pure_env = \<lparr>nv_parse_strings = (\<lambda>_. None),
     nv_mergo = \<lparr>merge_pod_template = (\<lambda>_ src. src), merge_volume_claim_template = (\<lambda>_ src. src)\<rparr>,
     nv_fetch = (\<lambda>_ _. None)\<rparr>"


text \<open>
  C22: Normalization returns for every installation whose clusters leave the shards to the
  operator, whatever templates apply and however many shards and replicas are asked for.
\<close>

theorem normalizer_returns:
  assumes "\<forall>(k, c) \<in> set (mentries (cf_clusters (di_configuration di))). mlen (lo_shards (cl_layout c)) = 0"
  shows "\<exists>n conf'. get_installation_from_template env conf di b = (Some n, conf')"
  using get_installation_returns [OF assms, of env conf b]
  by (metis option.exhaust prod.collapse)

theorem normalizer_returns_witness:
  "\<exists>n conf'. get_installation_from_template pure_env zero_operator_config
     (zero_installation\<lparr>di_spec := zero_spec\<lparr>sp_configuration := zero_configuration\<lparr>cf_clusters :=
        Some [(''c'', zero_cluster\<lparr>cl_layout := zero_layout\<lparr>lo_shards_count := 3\<rparr>\<rparr>)]\<rparr>\<rparr>\<rparr>) True
     = (Some n, conf')"
  by (rule normalizer_returns) (simp add: zero_layout_def)

text \<open>
  Placing the installation on top of the templates does not make its settings win. A path a
  template has set keeps the template's value; the installation only adds paths, although it is
  merged with \<open>MergeTypeOverrideByNonEmptyValues\<close>.
\<close>

lemma template_settings_win:
  "mget (cf_settings (di_configuration (installation_merge_from mg acc di ty))) k =
     (case mget (cf_settings (di_configuration acc)) k of
        Some v \<Rightarrow> Some v
      | None \<Rightarrow> mget (cf_settings (di_configuration di)) k)
   \<and> mget (cf_users (di_configuration (installation_merge_from mg acc di ty))) k =
     (case mget (cf_users (di_configuration acc)) k of
        Some v \<Rightarrow> Some v
      | None \<Rightarrow> mget (cf_users (di_configuration di)) k)"
  by (simp add: installation_merge_from_def spec_merge_from_def configuration_merge_from_def
      split: option.splits)

text \<open>
  A template that is fetched is enlisted, and is found in the catalogue the next time only if
  the reference names its own namespace. A reference that leaves the namespace out is fetched
  again on every reconciliation, and the catalogue grows by one entry each time.
\<close>

lemma fetched_template_enlisted:
  assumes "sp_use_templates (di_spec di) = [u]"
    and "find_template conf u (di_namespace di) = None"
    and "nv_fetch env (di_namespace di) (ut_name u) = Some t"
    and "di_name t = ut_name u" and "di_namespace t = di_namespace di"
  shows "let conf' = snd (get_installation_from_template env conf di b)
    in oc_templates conf' = oc_templates conf @ [t]
       \<and> (find_template conf' u (di_namespace di) = None \<longleftrightarrow> ut_namespace u \<noteq> di_namespace di)"
proof -
  have conf': "snd (get_installation_from_template env conf di b) = enlist_daisy_template t conf"
    using assms by (simp add: get_installation_from_template_def apply_template_def fetch_template_def Let_def)
  have "find_template (enlist_daisy_template t conf) u (di_namespace di) = None
      \<longleftrightarrow> ut_namespace u \<noteq> di_namespace di"
    using assms(2,4,5) by (auto simp: find_template_enlisted match_full_name_def)
  then show ?thesis unfolding conf' by (simp add: Let_def enlist_daisy_template_def)
qed

theorem fetched_template_enlisted_witness:
  "let u = \<lparr>ut_name = ''t'', ut_namespace = [], ut_use_type = []\<rparr>;
       t = zero_installation\<lparr>di_meta := zero_meta\<lparr>om_name := ''t'', om_namespace := ''n''\<rparr>\<rparr>;
       di = zero_installation\<lparr>di_meta := zero_meta\<lparr>om_namespace := ''n''\<rparr>,
              di_spec := zero_spec\<lparr>sp_use_templates := [u]\<rparr>\<rparr>;
       conf' = snd (get_installation_from_template (pure_env\<lparr>nv_fetch := \<lambda>_ _. Some t\<rparr>) zero_operator_config di True)
   in oc_templates conf' = [t] \<and> find_template conf' u ''n'' = None"
proof -
  define u where "u = \<lparr>ut_name = ''t'', ut_namespace = [], ut_use_type = []\<rparr>"
  define t where "t = zero_installation\<lparr>di_meta := zero_meta\<lparr>om_name := ''t'', om_namespace := ''n''\<rparr>\<rparr>"
  define di where "di = zero_installation\<lparr>di_meta := zero_meta\<lparr>om_namespace := ''n''\<rparr>,
              di_spec := zero_spec\<lparr>sp_use_templates := [u]\<rparr>\<rparr>"
  have none: "oc_templates zero_operator_config = []" by (simp add: zero_operator_config_def)
  have "sp_use_templates (di_spec di) = [u]" "di_namespace di = ''n''" "di_name t = ut_name u"
    "di_namespace t = di_namespace di" "ut_namespace u \<noteq> di_namespace di"
    by (simp_all add: di_def t_def u_def)
  moreover have "find_template zero_operator_config u (di_namespace di) = None"
    by (simp add: find_template_def none)
  ultimately show ?thesis
    using fetched_template_enlisted [of di u zero_operator_config "pure_env\<lparr>nv_fetch := \<lambda>_ _. Some t\<rparr>" t True] none
    unfolding Let_def u_def [symmetric] t_def [symmetric] di_def [symmetric] by simp
qed

text \<open>
  C40: When a shard has more replicas than it should, the surplus is removed by name: what is left
  is among the generated names and no longer too many. Replicas the user has named differently
  are all removed, so a shard may be left without any.
\<close>

theorem surplus_replicas_removed:
  assumes "sh_replicas s = Some es" and "keys_distinct es"
    and "sh_replica_count s < int (length es)" and "0 \<le> sh_replica_count s"
  shows "\<exists>es'. normalize_replicas d skip s = Some (s\<lparr>sh_replicas := Some es'\<rparr>)
    \<and> keys_of es' = keys_of es \<inter> new_replicas s skip
    \<and> int (length es') \<le> sh_replica_count s"
proof -
  let ?es = "filter (\<lambda>(r, _). r \<in> new_replicas s skip) es"
  have keys: "keys_of ?es = keys_of es \<inter> new_replicas s skip" by auto
  have "card (new_replicas s skip) \<le> nat (sh_replica_count s)"
    unfolding new_replicas_def set_map by (rule order_trans [OF card_image_le]) auto
  moreover have "length ?es \<le> card (new_replicas s skip)"
    using assms(2) by (subst length_card_keys) (auto intro!: card_mono keys_distinct_filter simp: keys new_replicas_def)
  ultimately show ?thesis
    using assms keys by (intro exI [of _ ?es]) (auto simp: normalize_replicas_def)
qed

theorem surplus_replicas_removed_witness:
  "normalize_replicas zero_template_names {} (zero_shard\<lparr>sh_name := ''s'', sh_replica_count := 1,
      sh_replicas := Some [(''a'', zero_replica), (''b'', zero_replica)]\<rparr>)
   = Some (zero_shard\<lparr>sh_name := ''s'', sh_replica_count := 1, sh_replicas := Some []\<rparr>)"
proof -
  let ?s = "zero_shard\<lparr>sh_name := ''s'', sh_replica_count := 1,
      sh_replicas := Some [(''a'', zero_replica), (''b'', zero_replica)]\<rparr>"
  have "new_replicas ?s {} = {''s-0''}"
    by (simp add: new_replicas_def create_replica_name_def) (code_simp)
  then show ?thesis
    using surplus_replicas_removed [of ?s "[(''a'', zero_replica), (''b'', zero_replica)]" zero_template_names "{}"]
    by auto
qed

end
