(* ===== verification/Manager_State.thy ===== *)
theory Manager_State
  imports Schemer Statefulset_Util Config_Generator Normalizer
begin

text \<open>
  The state of one reconciliation and the parts of \<open>daisy_member_manager.go\<close> and \<open>util.go\<close> that
  read and write config maps and services. What a manager is given is the record \<open>deps\<close>: the
  client, the encodings, the database driver, the normalizer's environment, the clock and the
  order in which one \<open>range\<close> statement visits a map. What it changes is the record \<open>mstate\<close>: the world
  behind the client, the connections, the installation it was called with, the context and the
  configuration of the operator. Logging and events are left out.
\<close>

record ('w, 'd) deps =
  dp_kube :: "'w kube"
  dp_codec :: codec
  dp_driver :: "'d driver"
  dp_schemer :: schemer
  dp_sql :: sql_texts
  dp_norm :: norm_env
  dp_version :: string
  dp_now :: "'w \<Rightarrow> int"
  dp_range1 :: "replica entries \<Rightarrow> replica entries"
  dp_range2 :: "replica entries \<Rightarrow> replica entries"

record ('w, 'd) mstate =
  ms_world :: 'w
  ms_db :: "'d db_state"
  ms_di :: daisy_installation
  ms_ctx :: member_context
  ms_conf :: operator_config
  ms_for_cfg :: daisy_installation

type_synonym ('w, 'd, 'a) mprog = "(('w, 'd) mstate, 'a) prog"

abbreviation ms_status :: "('w, 'd) mstate \<Rightarrow> installation_status" where
  "ms_status s \<equiv> di_status (ms_di s)"

section \<open>Steps on a part of the state\<close>

definition on_world :: "('w, 'a) prog \<Rightarrow> ('w, 'd, 'a) mprog" where
  "on_world m s = (case m (ms_world s) of (r, w) \<Rightarrow> (r, s\<lparr>ms_world := w\<rparr>))"

definition on_db :: "('d db_state \<Rightarrow> 'a \<times> 'd db_state) \<Rightarrow> ('w, 'd, 'a) mprog" where
  "on_db f s = (case f (ms_db s) of (x, d) \<Rightarrow> (Done x, s\<lparr>ms_db := d\<rparr>))"

definition set_ctx :: "(member_context \<Rightarrow> member_context) \<Rightarrow> ('w, 'd, unit) mprog" where
  "set_ctx f = modify (\<lambda>s. s\<lparr>ms_ctx := f (ms_ctx s)\<rparr>)"

definition set_di :: "(daisy_installation \<Rightarrow> daisy_installation) \<Rightarrow> ('w, 'd, unit) mprog" where
  "set_di f = modify (\<lambda>s. s\<lparr>ms_di := f (ms_di s)\<rparr>)"

definition on_status :: "(installation_status \<Rightarrow> installation_status) \<Rightarrow> ('w, 'd, unit) mprog" where
  "on_status f = set_di (\<lambda>d. d\<lparr>di_status := f (di_status d)\<rparr>)"

text \<open>A write into the nested maps of the status, which panics on a nil map.\<close>

definition write_status :: "(installation_status \<Rightarrow> installation_status option) \<Rightarrow> ('w, 'd, unit) mprog" where
  "write_status f = modify_or_panic (\<lambda>s.
     map_option (\<lambda>st. s\<lparr>ms_di := (ms_di s)\<lparr>di_status := st\<rparr>\<rparr>) (f (di_status (ms_di s))))"

text \<open>\<open>Client.Update\<close> and \<open>Status().Update\<close> of the installation decode the answer into it.\<close>

definition receive_di :: "kobject \<Rightarrow> ('w, 'd, unit) mprog" where
  "receive_di ob = (case as_installation ob of Some d \<Rightarrow> set_di (\<lambda>_. d) | None \<Rightarrow> throw (Failure ''decode''))"

definition update_di :: "('w, 'd) deps \<Rightarrow> ('w, 'd, unit) mprog" where
  "update_di D = bindp (gets ms_di) (\<lambda>d.
     bindp (on_world (api (kc_update (dp_kube D) (KInstallation d)))) receive_di)"

text \<open>\<open>UpdateInstallationStatus\<close>\<close>

definition update_installation_status :: "('w, 'd) deps \<Rightarrow> bool \<Rightarrow> ('w, 'd, unit) mprog" where
  "update_installation_status D tolerate_absence = bindp (gets ms_di) (\<lambda>d.
     bindp (try_prog (on_world (decoded as_installation
        (kc_get (dp_kube D) (OKey InstallationKind (di_namespace d) (di_name d)))))) (\<lambda>r.
       case r of
         Inl e \<Rightarrow> if tolerate_absence then ret () else throw e
       | Inr _ \<Rightarrow> bindp (on_world (api (kc_update_status (dp_kube D) (KInstallation d)))) receive_di))"

section \<open>Config maps\<close>

text \<open>The context the names of the common maps are made with: namespace and name only.\<close>

definition name_context :: "string \<Rightarrow> string \<Rightarrow> member_context" where
  "name_context namespace name =
     \<lparr>mc_namespace = namespace, mc_installation = name, mc_cur_shard = [], mc_cur_replica = [],
      mc_cur_cluster = [], mc_clusters = None,
      mc_normalized = \<lparr>no_spec = zero_spec, no_volume_claim_templates = None, no_pod_templates = None\<rparr>,
      mc_owner = \<lparr>or_api_version = [], or_kind = [], or_name = [], or_uid = [], or_controller = False,
        or_block_owner_deletion = False\<rparr>\<rparr>"

definition new_config_map :: "string \<Rightarrow> string \<Rightarrow> label \<Rightarrow> owner_ref \<Rightarrow> string entries \<Rightarrow> config_map" where
  "new_config_map name namespace labels owner data =
     \<lparr>cmap_meta = zero_meta\<lparr>om_name := name, om_namespace := namespace, om_labels := Some labels,
        om_owner_references := [owner]\<rparr>, cmap_data = data\<rparr>"

definition get_config_map_common :: "('w, 'd) deps \<Rightarrow> ('w, 'd) mstate \<Rightarrow> config_map" where
  "get_config_map_common D s =
     (let di = ms_di s in
      new_config_map (create_config_map_common_name (name_context (di_namespace di) (di_name di))) (di_namespace di)
        (config_map_type ''Common'' (lbl_instance (get_instance_name di) (lbl_namespace (di_namespace di) label_new)))
        (get_owner_ref di)
        (create_configs_common (dp_range1 D) (dp_range2 D) (ms_conf s) (ms_for_cfg s)))"

definition get_config_map_common_users :: "('w, 'd) mstate \<Rightarrow> config_map" where
  "get_config_map_common_users s =
     (let di = ms_di s in
      new_config_map (create_config_map_common_users_name (name_context (di_namespace di) (di_name di))) (di_namespace di)
        (config_map_type ''CommonUsers'' (lbl_instance (get_instance_name di) (lbl_namespace (di_namespace di) label_new)))
        (get_owner_ref di)
        (create_configs_users (ms_conf s) (ms_for_cfg s)))"

definition get_config_map_replica :: "replica \<Rightarrow> ('w, 'd) mstate \<Rightarrow> config_map" where
  "get_config_map_replica r s =
     (let ctx = ms_ctx s in
      new_config_map (create_config_map_pod_name ctx) (mc_namespace ctx)
        (config_map_type ''Host'' (lbl_instance (mc_installation ctx) (lbl_namespace (mc_namespace ctx) label_new)))
        (get_owner_ref (ms_di s))
        (create_configs_host (ms_conf s) ctx (ms_for_cfg s) r))"

text \<open>
  \<open>syncConfigMap\<close>: the error of a failed creation is returned only when no update follows. A
  creation decodes the answer into the object the update then sends.
\<close>

definition config_map_key :: "config_map \<Rightarrow> okey" where
  "config_map_key cm = OKey ConfigMapKind (om_namespace (cmap_meta cm)) (om_name (cmap_meta cm))"

definition sync_config_map :: "'w kube \<Rightarrow> config_map \<Rightarrow> bool \<Rightarrow> ('w, unit) prog" where
  "sync_config_map K cm update =
     bindp (try_prog (decoded as_config_map (kc_get K (config_map_key cm)))) (\<lambda>r.
     bindp (case r of
              Inr _ \<Rightarrow> ret (None, KConfigMap cm)
            | Inl e \<Rightarrow>
                if is_not_found e
                then bindp (try_prog (api (kc_create K (KConfigMap cm)))) (\<lambda>c.
                       ret (case c of Inl e' \<Rightarrow> (Some e', KConfigMap cm) | Inr ob \<Rightarrow> (None, ob)))
                else throw e) (\<lambda>(err, ob).
       if \<not> update then (case err of Some e \<Rightarrow> throw e | None \<Rightarrow> ret ())
       else andthen (api (kc_update K ob)) (ret ())))"

definition sync_config_maps :: "('w, 'd) deps \<Rightarrow> bool \<Rightarrow> ('w, 'd, unit) mprog" where
  "sync_config_maps D update =
     bindp (gets (get_config_map_common D)) (\<lambda>common.
     andthen (on_world (sync_config_map (dp_kube D) common update))
     (bindp (gets get_config_map_common_users) (\<lambda>users.
      on_world (sync_config_map (dp_kube D) users update))))"

definition delete_config_map :: "'w kube \<Rightarrow> okey \<Rightarrow> ('w, unit) prog" where
  "delete_config_map K key =
     bindp (try_prog (decoded as_config_map (kc_get K key))) (\<lambda>r.
       case r of
         Inr _ \<Rightarrow> api (kc_delete K key)
       | Inl e \<Rightarrow> if is_not_found e then ret () else throw e)"

text \<open>Both maps are tried; the first error stands for the aggregate.\<close>

definition delete_config_maps :: "'w kube \<Rightarrow> member_context \<Rightarrow> ('w, unit) prog" where
  "delete_config_maps K ctx =
     bindp (try_prog (delete_config_map K (OKey ConfigMapKind (mc_namespace ctx) (create_config_map_common_name ctx)))) (\<lambda>r1.
     bindp (try_prog (delete_config_map K (OKey ConfigMapKind (mc_namespace ctx) (create_config_map_common_users_name ctx)))) (\<lambda>r2.
       case (r1, r2) of
         (Inl e, _) \<Rightarrow> throw e
       | (Inr _, Inl e) \<Rightarrow> throw e
       | (Inr _, Inr _) \<Rightarrow> ret ()))"

section \<open>Services\<close>

definition tcp_port :: service_port where
  "tcp_port = \<lparr>po_name = ''tcp'', po_protocol = ''TCP'', po_port = 9000, po_target = ''tcp''\<rparr>"

definition http_port :: service_port where
  "http_port = \<lparr>po_name = ''http'', po_protocol = ''TCP'', po_port = 8123, po_target = ''http''\<rparr>"

definition interserver_port :: service_port where
  "interserver_port = \<lparr>po_name = ''interserver'', po_protocol = ''TCP'', po_port = 9009, po_target = ''interserver''\<rparr>"

text \<open>
  A new service and whether its selector is the map of its labels: then a label added later
  is part of the selector, too.
\<close>

definition get_new_installation_service :: "daisy_installation \<Rightarrow> service \<times> bool" where
  "get_new_installation_service di =
     (let labels = lbl_instance (get_instance_name di) label_new
      in (\<lparr>sv_meta = zero_meta\<lparr>om_name := create_installation_service_name di, om_namespace := di_namespace di,
             om_labels := Some labels, om_owner_references := [get_owner_ref di]\<rparr>,
           sv_spec = \<lparr>vs_ports = [http_port, tcp_port], vs_selector = Some labels, vs_cluster_ip = [],
             vs_type = ''NodePort'', vs_publish_not_ready = False\<rparr>\<rparr>, True))"

definition get_new_replica_service ::
  "member_context \<Rightarrow> daisy_installation \<Rightarrow> replica \<Rightarrow> service \<times> bool" where
  "get_new_replica_service ctx di r =
     (let select = label_replica ctx r;
          labels = lbl_service ''replica'' (label_copy select)
      in (\<lparr>sv_meta = zero_meta\<lparr>om_name := create_stateful_set_service_name r, om_namespace := mc_namespace ctx,
             om_labels := Some labels, om_owner_references := [get_owner_ref di]\<rparr>,
           sv_spec = \<lparr>vs_ports = [tcp_port, http_port, interserver_port], vs_selector = Some select,
             vs_cluster_ip = ''None'', vs_type = ''ClusterIP'', vs_publish_not_ready = True\<rparr>\<rparr>, False))"

definition sync_state_label :: string where "sync_state_label = ''daisy.com/sync-state''"

definition mark_synced :: "service \<times> bool \<Rightarrow> service" where
  "mark_synced svc =
     (case svc of (s, shared) \<Rightarrow>
        (let labels = Some (put sync_state_label ''Synced'' (mentries (om_labels (sv_meta s))))
         in s\<lparr>sv_meta := (sv_meta s)\<lparr>om_labels := labels\<rparr>,
              sv_spec := (if shared then (sv_spec s)\<lparr>vs_selector := labels\<rparr> else sv_spec s)\<rparr>))"

definition from_sum :: "error + 'a \<Rightarrow> ('s, 'a) prog" where
  "from_sum r = (case r of Inl e \<Rightarrow> throw e | Inr x \<Rightarrow> ret x)"

definition sync_service :: "'w kube \<Rightarrow> codec \<Rightarrow> string \<Rightarrow> service \<times> bool \<Rightarrow> ('w, unit) prog" where
  "sync_service K cd ns svc =
     bindp (try_prog (decoded as_service (kc_get K (OKey ServiceKind ns (om_name (sv_meta (fst svc))))))) (\<lambda>r.
       case r of
         Inl e \<Rightarrow>
           if is_not_found e
           then bindp (from_sum (set_service_last_applied cd (fst svc))) (\<lambda>s.
                  andthen (api (kc_create K (KService (mark_synced (s, snd svc))))) (ret ()))
           else throw (Failure ''syncService: failed to get svc'')
       | Inr old \<Rightarrow>
           bindp (from_sum (service_equal cd (fst svc) old)) (\<lambda>equal.
             if equal then ret ()
             else bindp (from_sum (set_service_last_applied cd (old\<lparr>sv_spec := sv_spec (fst svc)\<rparr>))) (\<lambda>s.
                    andthen (api (kc_update K (KService (s\<lparr>sv_spec := (sv_spec s)\<lparr>vs_cluster_ip :=
                        vs_cluster_ip (sv_spec old)\<rparr>\<rparr>)))) (ret ()))))"

definition sync_service_for_replica :: "('w, 'd) deps \<Rightarrow> replica \<Rightarrow> ('w, 'd, unit) mprog" where
  "sync_service_for_replica D r = bindp get_state (\<lambda>s.
     on_world (sync_service (dp_kube D) (dp_codec D) (mc_namespace (ms_ctx s))
       (get_new_replica_service (ms_ctx s) (ms_di s) r)))"

definition sync_service_for_installation :: "('w, 'd) deps \<Rightarrow> ('w, 'd, unit) mprog" where
  "sync_service_for_installation D = bindp get_state (\<lambda>s.
     on_world (sync_service (dp_kube D) (dp_codec D) (mc_namespace (ms_ctx s))
       (get_new_installation_service (ms_di s))))"

definition delete_service :: "'w kube \<Rightarrow> okey \<Rightarrow> ('w, unit) prog" where
  "delete_service K key =
     bindp (try_prog (decoded as_service (kc_get K key))) (\<lambda>r.
       case r of
         Inr _ \<Rightarrow> api (kc_delete K key)
       | Inl e \<Rightarrow> if is_not_found e then ret () else throw e)"

definition delete_service_for_installation :: "('w, 'd) deps \<Rightarrow> ('w, 'd, unit) mprog" where
  "delete_service_for_installation D = bindp get_state (\<lambda>s.
     on_world (delete_service (dp_kube D)
       (OKey ServiceKind (mc_namespace (ms_ctx s)) (create_installation_service_name (ms_di s)))))"

definition delete_service_for_replica :: "('w, 'd) deps \<Rightarrow> replica \<Rightarrow> ('w, 'd, unit) mprog" where
  "delete_service_for_replica D r = bindp get_state (\<lambda>s.
     on_world (delete_service (dp_kube D) (OKey ServiceKind (mc_namespace (ms_ctx s)) (rp_name r))))"

end
