(* ===== verification/Replica_Delete.thy ===== *)
theory Replica_Delete
  imports Manager_State
begin

text \<open>
  The operations of \<open>daisy_member_manager.go\<close> that take replicas, shards and clusters away. The
  context names the cluster, shard and replica being worked on; status writes go through the
  nested maps and panic where a map is missing.
\<close>

definition delete_tables :: "('w, 'd) deps \<Rightarrow> replica \<Rightarrow> ('w, 'd, string option) mprog" where
  "delete_tables D r = bindp get_state (\<lambda>s.
     if \<not> can_delete_all_pvcs r then ret None
     else on_db (delete_tables_for_replica (dp_driver D) (dp_schemer D) (dp_sql D) (mc_namespace (ms_ctx s)) r))"

definition set_key :: "member_context \<Rightarrow> replica \<Rightarrow> okey" where
  "set_key ctx r = OKey StatefulSetKind (mc_namespace ctx) (rp_name r)"

definition delete_stateful_set_for_replica :: "('w, 'd) deps \<Rightarrow> replica \<Rightarrow> ('w, 'd, unit) mprog" where
  "delete_stateful_set_for_replica D r = bindp get_state (\<lambda>s.
     bindp (try_prog (on_world (decoded as_stateful_set (kc_get (dp_kube D) (set_key (ms_ctx s) r))))) (\<lambda>res.
       case res of
         Inl e \<Rightarrow> if is_not_found e then ret () else throw e
       | Inr _ \<Rightarrow> on_world (api (kc_delete (dp_kube D) (set_key (ms_ctx s) r)))))"

definition delete_pvc :: "('w, 'd) deps \<Rightarrow> replica \<Rightarrow> ('w, 'd, unit) mprog" where
  "delete_pvc D r = bindp get_state (\<lambda>s.
     bindp (on_world (api (kc_list (dp_kube D) PvcKind (mc_namespace (ms_ctx s)) (label_replica (ms_ctx s) r)))) (\<lambda>obs.
       each (\<lambda>p. on_world (api (kc_delete (dp_kube D) (meta_key PvcKind (pc_meta p)))))
         (List.map_filter as_pvc obs)))"

definition forget_replica_status :: "member_context \<Rightarrow> replica \<Rightarrow> installation_status \<Rightarrow> installation_status option" where
  "forget_replica_status ctx r st =
     (let c = mc_cur_cluster ctx; sh = mc_cur_shard ctx; shard_st = status_shard st c sh
      in put_shard_status c sh (shard_st\<lparr>st_replicas := mdel (rp_name r) (st_replicas shard_st)\<rparr>) st)"

definition delete_replica :: "('w, 'd) deps \<Rightarrow> replica \<Rightarrow> ('w, 'd, unit) mprog" where
  "delete_replica D r =
     andthen (set_ctx (\<lambda>c. c\<lparr>mc_cur_replica := rp_name r\<rparr>))
     (bindp get_state (\<lambda>s.
      bindp (try_prog (on_world (decoded as_stateful_set (kc_get (dp_kube D) (set_key (ms_ctx s) r))))) (\<lambda>res.
        case res of
          Inl e \<Rightarrow> if is_not_found e then ret () else throw e
        | Inr _ \<Rightarrow>
            andthen (delete_tables D r)
            (andthen (delete_stateful_set_for_replica D r)
            (andthen (on_status (\<lambda>st. st\<lparr>is_deleted_replicas_count := is_deleted_replicas_count st + 1\<rparr>))
            (andthen (write_status (forget_replica_status (ms_ctx s) r))
            (andthen (if sp_pv_reclaim_policy (di_spec (ms_di s)) = ''Delete'' then delete_pvc D r else ret ())
            (andthen (on_world (delete_config_map (dp_kube D)
                (OKey ConfigMapKind (mc_namespace (ms_ctx s)) (create_config_map_pod_name (ms_ctx s)))))
            (andthen (delete_service_for_replica D r)
              (update_installation_status D True)))))))))) "

text \<open>The shard status \<open>deleteShard\<close> leaves; nothing when the cluster has no status.\<close>

definition shard_being_deleted :: "shard \<Rightarrow> shard_status option \<Rightarrow> shard_status" where
  "shard_being_deleted sh old =
     (case old of
        None \<Rightarrow> zero_shard_status\<lparr>st_name := sh_name sh, st_phase := ScalePhase, st_replicas := Some []\<rparr>
      | Some x \<Rightarrow> if int (mlen (st_replicas x)) \<noteq> sh_replica_count sh then x\<lparr>st_phase := ScalePhase\<rparr> else x)"

definition mark_shard_deleted :: "string \<Rightarrow> shard \<Rightarrow> installation_status \<Rightarrow> installation_status option" where
  "mark_shard_deleted c sh st =
     (case mget (is_clusters st) c of
        None \<Rightarrow> Some st
      | Some cs \<Rightarrow>
          (let shards = mmake (cs_shards cs)
           in put_cluster_status c (cs\<lparr>cs_shards :=
                Some (put (sh_name sh) (shard_being_deleted sh (map_of shards (sh_name sh))) shards)\<rparr>) st))"

definition delete_shard :: "('w, 'd) deps \<Rightarrow> shard \<Rightarrow> ('w, 'd, unit) mprog" where
  "delete_shard D sh =
     andthen (set_ctx (\<lambda>c. c\<lparr>mc_cur_shard := sh_name sh\<rparr>))
     (bindp get_state (\<lambda>s.
      andthen (write_status (mark_shard_deleted (mc_cur_cluster (ms_ctx s)) sh))
        (each (\<lambda>(_, r). delete_replica D r) (mentries (sh_replicas sh)))))"

definition delete_cluster :: "('w, 'd) deps \<Rightarrow> cluster \<Rightarrow> ('w, 'd, unit) mprog" where
  "delete_cluster D c = each (\<lambda>(_, sh). delete_shard D sh) (mentries (lo_shards (cl_layout c)))"

end
