(* ===== verification/Replica_Sync.thy ===== *)
theory Replica_Sync
  imports Replica_Delete
begin

text \<open>
  The operations of \<open>daisy_member_manager.go\<close> that bring the objects of one replica, shard or
  cluster to what the normalized specification asks for, and that record what they find in the
  status.
\<close>

section \<open>Volume expansion\<close>

definition needs_recreate :: "stateful_set \<Rightarrow> stateful_set \<Rightarrow> bool" where
  "needs_recreate expected actual \<longleftrightarrow>
     list_ex (\<lambda>c. case get_claim (set_claims actual) (claim_name c) of
         None \<Rightarrow> False
       | Some a \<Rightarrow> compare_storage_requests (pc_spec a) (pc_spec c) = IncreaseStorage) (set_claims expected)"

definition resize_pvc :: "'w kube \<Rightarrow> pvc \<Rightarrow> pvc \<Rightarrow> ('w, unit) prog" where
  "resize_pvc K expected_claim p =
     (if compare_storage_requests (pc_spec p) (pc_spec expected_claim) \<noteq> IncreaseStorage then ret ()
      else andthen (api (kc_update K (KPvc (p\<lparr>pc_spec := (pc_spec p)\<lparr>pv_storage :=
             Some (storage_of (pc_spec expected_claim))\<rparr>\<rparr>)))) (ret ()))"

definition resize_pvcs :: "'w kube \<Rightarrow> stateful_set \<Rightarrow> stateful_set \<Rightarrow> ('w, unit) prog" where
  "resize_pvcs K expected actual =
     bindp (retrieve_actual_pvcs K actual) (\<lambda>m.
       each (\<lambda>(name, ps).
         case get_claim (set_claims expected) name of
           None \<Rightarrow> ret ()
         | Some c \<Rightarrow> each (resize_pvc K c) ps) m)"

text \<open>\<open>annotateForRecreation\<close> only logs: its body is commented out.\<close>

definition annotate_for_recreation :: "daisy_installation \<Rightarrow> stateful_set \<Rightarrow> pvc list \<Rightarrow> ('w, unit) prog" where
  "annotate_for_recreation di actual expected_claims = ret ()"

definition handle_volume_expansion :: "'w kube \<Rightarrow> stateful_set \<Rightarrow> stateful_set \<Rightarrow> bool \<Rightarrow> ('w, bool) prog" where
  "handle_volume_expansion K cur old validate_storage_class =
     andthen (validate_claims_storage_update K (set_claims old) (set_claims cur) validate_storage_class)
     (andthen (resize_pvcs K cur old) (ret (needs_recreate cur old)))"

section \<open>The status of a replica\<close>

datatype sync_action = ActionAdd | ActionUpdate | ActionDelete | ActionNone

definition stateful_set_is_upgrading :: "stateful_set \<Rightarrow> bool" where
  "stateful_set_is_upgrading s = False"

text \<open>The phase \<open>syncRepliaStatus\<close> decides on, and whether the replica counts as ready.\<close>

definition observe_phase :: "stateful_set \<Rightarrow> bool \<Rightarrow> bool \<Rightarrow> replica_status \<Rightarrow> replica_status \<times> bool" where
  "observe_phase s upgrading ready st =
     (if ss_ready_replicas (set_status s) \<noteq> 1 then (st\<lparr>rs_phase := ScalePhase, rs_state := not_sync\<rparr>, False)
      else if upgrading then (st\<lparr>rs_phase := UpgradePhase\<rparr>, False)
      else if ready \<and> rs_state st = not_sync then (st\<lparr>rs_phase := ReadyPhase\<rparr>, False)
      else (st\<lparr>rs_phase := NormalPhase\<rparr>, True))"

definition count_action :: "sync_action \<Rightarrow> installation_status \<Rightarrow> installation_status" where
  "count_action a st =
     (case a of
        ActionAdd \<Rightarrow> st\<lparr>is_added_replicas_count := is_added_replicas_count st + 1\<rparr>
      | ActionUpdate \<Rightarrow> st\<lparr>is_updated_replicas_count := is_updated_replicas_count st + 1\<rparr>
      | _ \<Rightarrow> st)"

definition new_replica_status :: "member_context \<Rightarrow> int \<Rightarrow> installation_status \<Rightarrow> replica_status" where
  "new_replica_status ctx now st =
     (case status_replica st (mc_cur_cluster ctx) (mc_cur_shard ctx) (mc_cur_replica ctx) of
        Some x \<Rightarrow> x
      | None \<Rightarrow> zero_replica_status\<lparr>rs_name := mc_cur_replica ctx, rs_last_transition_time := now\<rparr>)"

definition record_replica ::
  "member_context \<Rightarrow> int \<Rightarrow> stateful_set \<Rightarrow> sync_action \<Rightarrow> bool \<Rightarrow> installation_status \<Rightarrow> installation_status option" where
  "record_replica ctx now s a ready st =
     (let x = (new_replica_status ctx now st)\<lparr>rs_stateful_set := Some (set_status s)\<rparr>;
          x' = (if a = ActionAdd \<or> a = ActionUpdate then x\<lparr>rs_last_transition_time := now\<rparr> else x);
          st' = count_action a st
      in case observe_phase s (stateful_set_is_upgrading s) ready x' of
           (y, counted) \<Rightarrow>
             put_replica_status (mc_cur_cluster ctx) (mc_cur_shard ctx) (mc_cur_replica ctx) y
               (if counted then st'\<lparr>is_ready_replicas := is_ready_replicas st' + 1\<rparr> else st'))"

definition sync_replica_status :: "('w, 'd) deps \<Rightarrow> stateful_set \<Rightarrow> sync_action \<Rightarrow> ('w, 'd, unit) mprog" where
  "sync_replica_status D s a = bindp get_state (\<lambda>m.
     case has_reached_generation (Some s) of
       None \<Rightarrow> panic ''nil pointer''
     | Some ready \<Rightarrow> write_status (record_replica (ms_ctx m) (dp_now D (ms_world m)) s a ready))"

section \<open>The stateful set of a replica\<close>

text \<open>The label that marks the pod of a synced replica; errors are ignored.\<close>

definition label_pod :: "'w kube \<Rightarrow> okey \<Rightarrow> ('w, unit) prog" where
  "label_pod K key =
     bindp (try_prog (decoded as_pod (kc_get K key))) (\<lambda>r.
       case r of
         Inl _ \<Rightarrow> ret ()
       | Inr p \<Rightarrow>
           (case om_labels (pd_meta p) of
              None \<Rightarrow> ret ()
            | Some ls \<Rightarrow>
                if map_of ls sync_state_label = Some ''Synced'' then ret ()
                else andthen (try_prog (api (kc_update K (KPod (p\<lparr>pd_meta := (pd_meta p)\<lparr>om_labels :=
                       Some (put sync_state_label ''Synced'' ls)\<rparr>\<rparr>))))) (ret ())))"

definition sync_pod_label :: "('w, 'd) deps \<Rightarrow> replica \<Rightarrow> ('w, 'd) mstate \<Rightarrow> ('w, 'd, unit) mprog" where
  "sync_pod_label D r s =
     (let ctx = ms_ctx s
      in case status_replica (di_status (ms_di s)) (mc_cur_cluster ctx) (mc_cur_shard ctx) (rp_name r) of
           None \<Rightarrow> ret ()
         | Some st \<Rightarrow>
             if rs_state st = sync
             then on_world (label_pod (dp_kube D) (OKey PodKind (mc_namespace ctx) (rp_name r @ ''-0'')))
             else ret ())"

definition create_stateful_set :: "('w, 'd) deps \<Rightarrow> stateful_set \<Rightarrow> ('w, 'd, unit) mprog" where
  "create_stateful_set D new =
     bindp (from_sum (set_stateful_set_last_applied (dp_codec D) new)) (\<lambda>x.
     bindp (on_world (decoded as_stateful_set (kc_create (dp_kube D) (KStatefulSet x)))) (\<lambda>created.
     andthen (sync_replica_status D created ActionAdd)
       (throw (RequeueError ''waiting for replica running''))))"

definition refresh_stateful_set :: "('w, 'd) deps \<Rightarrow> stateful_set \<Rightarrow> stateful_set \<Rightarrow> ('w, 'd, unit) mprog" where
  "refresh_stateful_set D new old =
     andthen (on_world (handle_volume_expansion (dp_kube D) new old False))
     (if stateful_set_equal (dp_codec D) new old then sync_replica_status D old ActionNone
      else andthen (try_prog (on_world (update_stateful_set (dp_kube D) (dp_codec D) new old)))
             (sync_replica_status D new ActionUpdate))"

definition sync_stateful_set :: "('w, 'd) deps \<Rightarrow> replica \<Rightarrow> ('w, 'd, unit) mprog" where
  "sync_stateful_set D r = bindp get_state (\<lambda>s.
     bindp (try_prog (on_world (decoded as_stateful_set (kc_get (dp_kube D) (set_key (ms_ctx s) r))))) (\<lambda>res.
       case res of
         Inl e \<Rightarrow>
           if \<not> is_not_found e then throw (Failure ''syncStatefulSet: failed to get sts'')
           else if sp_paused (di_spec (ms_di s)) then ret ()
           else andthen (sync_pod_label D r s) (create_stateful_set D (get_stateful_set_for_replica (ms_ctx s) (ms_di s) r))
       | Inr old \<Rightarrow>
           if sp_paused (di_spec (ms_di s)) then ret ()
           else andthen (sync_pod_label D r s)
             (refresh_stateful_set D (get_stateful_set_for_replica (ms_ctx s) (ms_di s) r) old)))"

section \<open>Replicas, shards, clusters\<close>

text \<open>The replica map of a shard status, made when it is nil.\<close>

definition make_replicas :: "member_context \<Rightarrow> installation_status \<Rightarrow> installation_status option" where
  "make_replicas ctx st =
     (let c = mc_cur_cluster ctx; sh = mc_cur_shard ctx; x = status_shard st c sh
      in if st_replicas x = None then put_shard_status c sh (x\<lparr>st_replicas := Some []\<rparr>) st else Some st)"

text \<open>The tables of a replica that has become ready are created once; then it counts as ready.\<close>

definition sync_tables :: "('w, 'd) deps \<Rightarrow> replica \<Rightarrow> ('w, 'd, unit) mprog" where
  "sync_tables D r = bindp get_state (\<lambda>s.
     let ctx = ms_ctx s; st = di_status (ms_di s); c = mc_cur_cluster ctx; sh = mc_cur_shard ctx
     in if replica_is_ready r c sh st \<and> \<not> replica_is_sync r c sh st then
          bindp (on_db (create_tables_for_replica (dp_driver D) (dp_schemer D) (dp_sql D) ctx (ms_di s) r)) (\<lambda>err.
            case err of
              Some e \<Rightarrow> throw (Failure e)
            | None \<Rightarrow>
                (case get_replica_status st r of
                   None \<Rightarrow> panic ''nil pointer''
                 | Some x \<Rightarrow>
                     on_status (\<lambda>st. (set_replica_status c sh (rp_name r) (x\<lparr>rs_state := sync\<rparr>) st)
                       \<lparr>is_ready_replicas := is_ready_replicas st + 1\<rparr>)))
        else ret ())"

definition sync_replica :: "('w, 'd) deps \<Rightarrow> replica \<Rightarrow> ('w, 'd, unit) mprog" where
  "sync_replica D r =
     andthen (set_ctx (\<lambda>c. c\<lparr>mc_cur_replica := rp_name r\<rparr>))
     (bindp get_state (\<lambda>s.
      andthen (write_status (make_replicas (ms_ctx s)))
      (andthen (on_world (sync_config_map (dp_kube D) (get_config_map_replica r s) True))
      (andthen (sync_stateful_set D r)
      (andthen (sync_service_for_replica D r)
        (sync_tables D r))))))"

definition synced_shard_status :: "shard \<Rightarrow> shard_status option \<Rightarrow> shard_status" where
  "synced_shard_status sh old =
     (case old of
        None \<Rightarrow> zero_shard_status\<lparr>st_name := sh_name sh, st_phase := ScalePhase, st_replicas := Some []\<rparr>
      | Some x \<Rightarrow> if int (mlen (st_replicas x)) \<noteq> sh_replica_count sh then x\<lparr>st_phase := ScalePhase\<rparr>
                  else x\<lparr>st_phase := NormalPhase, st_health := True\<rparr>)"

definition record_shard :: "string \<Rightarrow> shard \<Rightarrow> installation_status \<Rightarrow> installation_status option" where
  "record_shard c sh st =
     (let cs = status_cluster st c; shards = mmake (cs_shards cs)
      in put_cluster_status c (cs\<lparr>cs_shards :=
           Some (put (sh_name sh) (synced_shard_status sh (map_of shards (sh_name sh))) shards)\<rparr>) st)"

text \<open>The replicas of the shard in the specification applied last.\<close>

definition old_replicas :: "member_context \<Rightarrow> daisy_installation \<Rightarrow> replica entries" where
  "old_replicas ctx di =
     (let c = mget_or zero_cluster (cf_clusters (sp_configuration (is_prev_spec (di_status di)))) (mc_cur_cluster ctx)
      in mentries (sh_replicas (mget_or zero_shard (lo_shards (cl_layout c)) (mc_cur_shard ctx))))"

definition extra_replicas :: "member_context \<Rightarrow> shard \<Rightarrow> daisy_installation \<Rightarrow> replica list" where
  "extra_replicas ctx sh di =
     (let old = old_replicas ctx di
      in if mlen (sh_replicas sh) < length old
         then map snd (filter (\<lambda>(name, _). \<not> mhas (sh_replicas sh) name) old) else [])"

definition sync_shard :: "('w, 'd) deps \<Rightarrow> shard \<Rightarrow> ('w, 'd, unit) mprog" where
  "sync_shard D sh =
     andthen (set_ctx (\<lambda>c. c\<lparr>mc_cur_shard := sh_name sh\<rparr>))
     (bindp get_state (\<lambda>s.
      andthen (write_status (record_shard (mc_cur_cluster (ms_ctx s)) sh))
      (andthen (each (\<lambda>(_, r). sync_replica D r) (mentries (sh_replicas sh)))
      (bindp get_state (\<lambda>s1.
        each (delete_replica D) (extra_replicas (ms_ctx s1) sh (ms_di s1)))))))"

definition make_cluster_status :: "string \<Rightarrow> installation_status \<Rightarrow> installation_status" where
  "make_cluster_status c st =
     (let es = mmake (is_clusters st)
      in st\<lparr>is_clusters := Some (if map_of es c = None
           then put c (zero_cluster_status\<lparr>cs_shards := Some []\<rparr>) es else es)\<rparr>)"

definition sync_cluster :: "('w, 'd) deps \<Rightarrow> cluster \<Rightarrow> ('w, 'd, unit) mprog" where
  "sync_cluster D c =
     andthen (on_status (make_cluster_status (cl_name c)))
       (each (\<lambda>(_, sh). sync_shard D sh) (mentries (lo_shards (cl_layout c))))"

definition sync_configuration :: "('w, 'd) deps \<Rightarrow> ('w, 'd, unit) mprog" where
  "sync_configuration D = bindp get_state (\<lambda>s.
     let clusters = cf_clusters (sp_configuration (no_spec (mc_normalized (ms_ctx s))))
     in andthen (set_ctx (\<lambda>c. c\<lparr>mc_clusters := clusters\<rparr>))
        (each (\<lambda>(name, c). andthen (set_ctx (\<lambda>x. x\<lparr>mc_cur_cluster := name\<rparr>)) (sync_cluster D c))
          (mentries clusters)))"

end
