(* ===== verification/Member_Manager.thy ===== *)
theory Member_Manager
  imports Replica_Sync
begin

text \<open>
  \<open>Sync\<close> and \<open>deleteDaisyInstallation\<close> of \<open>daisy_member_manager.go\<close>: one reconciliation of an
  installation from the normalized specification to the final status update. \<open>None\<close> is a call
  that does not return because the normalizer does not.
\<close>

definition daisy_finalizer :: string where "daisy_finalizer = ''daisy-operator-finalizer''"

definition is_ready :: "daisy_installation option \<Rightarrow> bool" where
  "is_ready di =
     (case di of None \<Rightarrow> False
      | Some d \<Rightarrow> is_replicas_count (di_status d) = is_ready_replicas (di_status d))"

definition is_initialized :: "daisy_installation option \<Rightarrow> bool" where
  "is_initialized di \<longleftrightarrow> di \<noteq> None"

text \<open>
  The normalizer works on a copy of the installation; what it enlists in the catalogue of the
  configuration stays.
\<close>

definition normalize :: "('w, 'd) deps \<Rightarrow> ('w, 'd) mstate \<Rightarrow> (normalized_spec \<times> ('w, 'd) mstate) option" where
  "normalize D s =
     (case get_installation_from_template (dp_norm D) (ms_conf s) (ms_di s) True of
        (None, _) \<Rightarrow> None
      | (Some n, conf) \<Rightarrow> Some (n, s\<lparr>ms_conf := conf\<rparr>))"

definition add_finalizer :: "daisy_installation \<Rightarrow> daisy_installation" where
  "add_finalizer d =
     (if in_array daisy_finalizer (om_finalizers (di_meta d)) then d
      else d\<lparr>di_meta := (di_meta d)\<lparr>om_finalizers := om_finalizers (di_meta d) @ [daisy_finalizer]\<rparr>\<rparr>)"

definition sync_context :: "normalized_spec \<Rightarrow> daisy_installation \<Rightarrow> member_context" where
  "sync_context n d =
     (name_context (di_namespace d) (di_name d))\<lparr>mc_normalized := n, mc_owner := get_owner_ref d\<rparr>"

text \<open>\<open>DeepEqual\<close> compares the pointer \<open>oldStatus\<close> with the value \<open>cur.Status\<close>: never equal.\<close>

definition status_unchanged :: "installation_status \<Rightarrow> installation_status \<Rightarrow> bool" where
  "status_unchanged old new \<longleftrightarrow> False"

definition decide_state :: "daisy_installation \<Rightarrow> installation_status \<Rightarrow> installation_status" where
  "decide_state d st =
     (if is_ready (Some d) then st\<lparr>is_state := status_completed\<rparr>
      else if is_state st = status_completed then st\<lparr>is_state := status_in_progress\<rparr> else st)"

definition apply_annotation :: "('w, 'd) deps \<Rightarrow> normalized_spec \<Rightarrow> ('w, 'd, unit) mprog" where
  "apply_annotation D n = bindp (gets ms_di) (\<lambda>d.
     bindp (from_sum (set_installation_last_applied (dp_codec D) d (no_spec n))) (\<lambda>d'. set_di (\<lambda>_. d')))"

text \<open>The part of \<open>Sync\<close> after the normalizer has returned.\<close>

definition sync_normalized :: "('w, 'd) deps \<Rightarrow> installation_status \<Rightarrow> normalized_spec \<Rightarrow> ('w, 'd, unit) mprog" where
  "sync_normalized D old_status n =
     andthen (modify (\<lambda>s. s\<lparr>ms_for_cfg := (ms_di s)\<lparr>di_spec := no_spec n\<rparr>, ms_ctx := sync_context n (ms_di s)\<rparr>))
     (andthen (bindp get_state (\<lambda>s. on_status (\<lambda>st. status_reset (fill_status (dp_version D) (ms_ctx s) st))))
     (andthen (sync_service_for_installation D)
     (andthen (sync_config_maps D False)
     (andthen (sync_configuration D)
     (andthen (apply_annotation D n)
     (andthen (sync_config_maps D True)
     (andthen (bindp get_state (\<lambda>s. on_status (decide_state (ms_di s))))
     (bindp get_state (\<lambda>s.
        if status_unchanged old_status (di_status (ms_di s)) then ret ()
        else andthen (update_di D)
          (andthen (on_status (\<lambda>_. di_status (ms_di s)))
            (update_installation_status D True))))))))))) "

text \<open>\<open>deleteDaisyInstallation\<close> after the normalizer has returned. The instance name, not the name,
  goes into the context.\<close>

definition delete_context :: "normalized_spec \<Rightarrow> daisy_installation \<Rightarrow> member_context" where
  "delete_context n d =
     (name_context (di_namespace d) (get_instance_name d))\<lparr>mc_clusters := cf_clusters (di_configuration d),
        mc_normalized := n\<rparr>"

definition remove_finalizer :: "daisy_installation \<Rightarrow> daisy_installation" where
  "remove_finalizer d =
     d\<lparr>di_meta := (di_meta d)\<lparr>om_finalizers := remove_from_array daisy_finalizer (om_finalizers (di_meta d))\<rparr>\<rparr>"

definition delete_normalized :: "('w, 'd) deps \<Rightarrow> normalized_spec \<Rightarrow> ('w, 'd, unit) mprog" where
  "delete_normalized D n =
     andthen (on_status (\<lambda>st. st\<lparr>is_state := status_terminating\<rparr>))
     (andthen (modify (\<lambda>s. s\<lparr>ms_ctx := delete_context n (ms_di s)\<rparr>))
     (andthen (each (\<lambda>(name, c). andthen (set_ctx (\<lambda>x. x\<lparr>mc_cur_cluster := name\<rparr>)) (delete_cluster D c))
                 (mentries (cf_clusters (sp_configuration (no_spec n)))))
     (andthen (bindp get_state (\<lambda>s. try_prog (on_world (delete_config_maps (dp_kube D) (ms_ctx s)))))
     (andthen (delete_service_for_installation D)
     (andthen (on_status (\<lambda>st. st\<lparr>is_state := status_completed\<rparr>))
     (bindp (try_prog (update_installation_status D True)) (\<lambda>r.
        case r of
          Inl e \<Rightarrow> throw (if is_conflict e then RequeueError ''Conflict while updating status'' else e)
        | Inr _ \<Rightarrow> andthen (set_di remove_finalizer) (update_di D))))))))"

definition delete_installation ::
  "('w, 'd) deps \<Rightarrow> ('w, 'd) mstate \<Rightarrow> (unit outcome \<times> ('w, 'd) mstate) option" where
  "delete_installation D s =
     (if \<not> in_array daisy_finalizer (om_finalizers (di_meta (ms_di s))) then Some (ret () s)
      else map_option (\<lambda>(n, s'). delete_normalized D n s') (normalize D s))"

definition sync_installation ::
  "('w, 'd) deps \<Rightarrow> ('w, 'd) mstate \<Rightarrow> (unit outcome \<times> ('w, 'd) mstate) option" where
  "sync_installation D s =
     (if om_deletion_timestamp (di_meta (ms_di s)) \<noteq> None then delete_installation D s
      else let s1 = s\<lparr>ms_di := add_finalizer (ms_di s)\<rparr>
           in map_option (\<lambda>(n, s'). sync_normalized D (di_status (ms_di s)) n s') (normalize D s1))"

text \<open>\<open>GetActualStatefulSet\<close>: the items found so far come with the error.\<close>

definition get_actual_stateful_set :: "'w kube \<Rightarrow> member_context \<Rightarrow> ('w, stateful_set list) prog" where
  "get_actual_stateful_set K ctx =
     bindp (api (kc_list K StatefulSetKind (mc_namespace ctx) (label_installation ctx))) (\<lambda>obs.
       ret (sort_key (\<lambda>s. om_name (set_meta s)) (List.map_filter as_stateful_set obs)))"

text \<open>Names cut at the dashes; an index out of range panics.\<close>

definition get_cluster_name :: "string \<Rightarrow> string option" where
  "get_cluster_name name =
     (let parts = go_split (CHR ''-'') name
      in if length parts < 3 then None
         else Some (parts ! 0 @ ''-'' @ parts ! 1 @ ''-'' @ parts ! 2))"

definition get_pre_replica_name :: "string \<Rightarrow> string option" where
  "get_pre_replica_name name =
     (let parts = go_split (CHR ''-'') name
      in case get_cluster_name name of
           None \<Rightarrow> None
         | Some cluster_name \<Rightarrow>
             if length parts < 4 then None
             else let n = fst (atoi (parts ! 3))
                  in if n = 0 then Some [] else Some (dashed cluster_name (n - 1)))"

definition get_pre_replica_status :: "daisy_installation \<Rightarrow> string \<Rightarrow> string option" where
  "get_pre_replica_status di name =
     (if name = [] then Some []
      else map_option (\<lambda>sh.
             (case status_replica (di_status di) ''cluster'' sh name of
                None \<Rightarrow> rs_state zero_replica_status | Some st \<Rightarrow> rs_state st)) (get_cluster_name name))"

section \<open>New managers\<close>

text \<open>
  \<open>NewDaisyMemberManager\<close> takes the credentials of the schemer from the configuration; the rest of the
  dependencies is what it is given. A configuration manager without a configuration, which \<open>Init\<close>
  never leaves, would be a nil pointer: \<open>None\<close>.
\<close>

definition new_daisy_member_manager :: "('w, 'd) deps \<Rightarrow> config_manager \<Rightarrow> ('w, 'd) deps option" where
  "new_daisy_member_manager D cfg_mgr =
     map_option (\<lambda>c. D\<lparr>dp_schemer := new_schemer (oc_username c) (oc_password c) (oc_port c)\<rparr>)
       (config_manager_config cfg_mgr)"

lemma new_manager_made:
  assumes "new_config_manager env mg has_client items path = Inr cm"
  shows "new_daisy_member_manager D cm \<noteq> None"
  using assms init_config_manager_ready
  by (fastforce simp: new_config_manager_def new_daisy_member_manager_def config_manager_config_def split: sum.splits)

section \<open>The fake manager\<close>

record fake_manager =
  fm_err :: "error option"

definition new_fake_manager :: fake_manager where
  "new_fake_manager = \<lparr>fm_err = None\<rparr>"

definition fake_set_sync_error :: "error option \<Rightarrow> fake_manager \<Rightarrow> fake_manager" where
  "fake_set_sync_error e m = m\<lparr>fm_err := e\<rparr>"

definition fake_sync :: "fake_manager \<Rightarrow> daisy_installation \<Rightarrow> error option" where
  "fake_sync m di = (case fm_err m of Some e \<Rightarrow> Some e | None \<Rightarrow> None)"

end
