(* ===== verification/Kube_Answers.thy ===== *)
theory Kube_Answers
  imports K8s_Api
begin

text \<open>
  More of what the API server documents, as an extension of \<open>kube_api\<close>: stored stateful sets have
  a replica count (the server fills it in), and the status subresource stores the status it is
  given. The replica statuses of stored installations carry the names they are stored under, as
  long as those that are written do. \<open>ok\<close> is an invariant of the server's world. It is interpreted on the concrete server.
\<close>

definition object_ok :: "kobject \<Rightarrow> bool" where
  "object_ok ob \<longleftrightarrow> (case ob of KStatefulSet s \<Rightarrow> sx_replicas (set_spec s) \<noteq> None
     | KInstallation d \<Rightarrow> names_ok (di_status d) | _ \<Rightarrow> True)"

lemma object_ok_simps [simp]:
  "object_ok (KStatefulSet s) \<longleftrightarrow> sx_replicas (set_spec s) \<noteq> None" "object_ok (KService v)"
  "object_ok (KConfigMap c)" "object_ok (KPod p)" "object_ok (KPvc q)" "object_ok (KStorageClass t)"
  "object_ok (KInstallation d) \<longleftrightarrow> names_ok (di_status d)" "object_ok (KTemplate d)"
  by (simp_all add: object_ok_def)

locale kube_removals = kube_api K objs for K :: "'w kube" and objs :: "'w \<Rightarrow> okey \<Rightarrow> kobject option" +
  fixes ok :: "'w \<Rightarrow> bool"
  assumes stored_ok: "ok w \<Longrightarrow> objs w k = Some ob \<Longrightarrow> object_ok ob"
    and get_keeps: "ok w \<Longrightarrow> kc_get K k w = (r, w') \<Longrightarrow> ok w'"
    and list_keeps: "ok w \<Longrightarrow> kc_list K kd ns l w = (r', w') \<Longrightarrow> ok w'"
    and status_keeps: "ok w \<Longrightarrow> names_ok (di_status d) \<Longrightarrow> kc_update_status K (KInstallation d) w = (r, w') \<Longrightarrow> ok w'"
    and status_answer: "ok w \<Longrightarrow> kc_update_status K (KInstallation d) w = (Inr ob, w') \<Longrightarrow>
      \<exists>d'. ob = KInstallation d' \<and> di_status d' = di_status d"
    and delete_keeps: "ok w \<Longrightarrow> kc_delete K k w = (u, w') \<Longrightarrow> ok w'"
begin

lemma keeps_api:
  assumes "\<And>w r w'. ok w \<Longrightarrow> c w = (r, w') \<Longrightarrow> ok w'"
  shows "keeps ok (api c)"
  using assms by (auto simp: gives_def valid_def api_def split: prod.splits sum.splits)

lemma keeps_get [preserves]: "keeps ok (api (kc_get K k))"
  by (rule keeps_api) (rule get_keeps)

lemma keeps_list [preserves]: "keeps ok (api (kc_list K kd ns l))"
  by (rule keeps_api) (rule list_keeps)

lemma keeps_delete [preserves]: "keeps ok (api (kc_delete K k))"
  by (rule keeps_api) (rule delete_keeps)

text \<open>What a read returns is stored, hence well formed.\<close>

lemma gives_get: "gives ok (api (kc_get K k)) object_ok"
  by (auto simp: gives_def valid_def api_def split: prod.splits sum.splits dest: get_ok get_keeps stored_ok)

lemma gives_decoded:
  assumes "gives ok (api c) P" "\<And>ob x. P ob \<Longrightarrow> view ob = Some x \<Longrightarrow> Q x"
  shows "gives ok (decoded view c) Q"
  unfolding decoded_def
  by (rule gives_bind [OF assms(1)]) (auto intro: gives_ret gives_throw assms(2) split: option.splits)

lemma keeps_decoded [preserves]: "keeps ok (api c) \<Longrightarrow> keeps ok (decoded view c)"
  by (rule gives_decoded [where P = "\<lambda>_. True"]) auto

lemma gives_get_set:
  "gives ok (decoded as_stateful_set (kc_get K k)) (\<lambda>s. sx_replicas (set_spec s) \<noteq> None)"
  by (rule gives_decoded [OF gives_get]) (auto simp: as_stateful_set_def split: kobject.splits)

lemma gives_get_installation:
  "gives ok (decoded as_installation (kc_get K k)) (\<lambda>d. names_ok (di_status d))"
  by (rule gives_decoded [OF gives_get]) (auto simp: as_installation_def split: kobject.splits)

end

text \<open>With the laws of the requests that write new objects.\<close>

locale kube_answers = kube_removals K objs ok
  for K :: "'w kube" and objs :: "'w \<Rightarrow> okey \<Rightarrow> kobject option" and ok :: "'w \<Rightarrow> bool" +
  assumes create_keeps: "ok w \<Longrightarrow> object_ok ob \<Longrightarrow> kc_create K ob w = (r, w') \<Longrightarrow> ok w'"
    and update_keeps: "ok w \<Longrightarrow> object_ok ob \<Longrightarrow> kc_update K ob w = (r, w') \<Longrightarrow> ok w'"
begin

lemma keeps_create [preserves]: "object_ok ob \<Longrightarrow> keeps ok (api (kc_create K ob))"
  by (rule keeps_api) (rule create_keeps)

lemma keeps_update [preserves]: "object_ok ob \<Longrightarrow> keeps ok (api (kc_update K ob))"
  by (rule keeps_api) (rule update_keeps)

lemma gives_create: "object_ok ob \<Longrightarrow> gives ok (api (kc_create K ob)) object_ok"
  unfolding gives_def valid_def api_def
  by (auto split: prod.splits sum.splits dest: create_keeps)
    (metis create_ok create_keeps stored_ok fun_upd_same)

lemma gives_create_set:
  "sx_replicas (set_spec s) \<noteq> None \<Longrightarrow>
   gives ok (decoded as_stateful_set (kc_create K (KStatefulSet s))) (\<lambda>s. sx_replicas (set_spec s) \<noteq> None)"
  by (rule gives_decoded [OF gives_create]) (auto simp: as_stateful_set_def split: kobject.splits)

end

text \<open>
  Reading and removing never brings an object back: beside its own invariant a client that only
  reads, removes and reports an installation's status keeps a missing object missing.
\<close>

definition gone ::
  "('w \<Rightarrow> bool) \<Rightarrow> ('w \<Rightarrow> okey \<Rightarrow> kobject option) \<Rightarrow> okey \<Rightarrow> 'w \<Rightarrow> bool" where
  "gone ok objs k w \<longleftrightarrow> ok w \<and> objs w k = None"

context kube_removals
begin

lemma removals_gone:
  assumes "ok_kind k \<noteq> InstallationKind" "ok_kind k \<noteq> PvcKind"
  shows "kube_removals K objs (gone ok objs k)"
proof
  show "\<And>w k' ob. gone ok objs k w \<Longrightarrow> objs w k' = Some ob \<Longrightarrow> object_ok ob"
    by (auto simp: gone_def dest: stored_ok)
  show "\<And>w k' r w'. gone ok objs k w \<Longrightarrow> kc_get K k' w = (r, w') \<Longrightarrow> gone ok objs k w'"
    by (auto simp: gone_def get_pure dest: get_keeps)
  show "\<And>w kd ns l r w'. gone ok objs k w \<Longrightarrow> kc_list K kd ns l w = (r, w') \<Longrightarrow> gone ok objs k w'"
    by (auto simp: gone_def list_pure dest: list_keeps)
  show "\<And>w d r w'. gone ok objs k w \<Longrightarrow> names_ok (di_status d) \<Longrightarrow>
      kc_update_status K (KInstallation d) w = (r, w') \<Longrightarrow> gone ok objs k w'"
    using assms by (auto simp: gone_def ob_key_def meta_key_def dest: status_keeps status_kept [of _ _ _ _ k])
  show "\<And>w d ob w'. gone ok objs k w \<Longrightarrow> kc_update_status K (KInstallation d) w = (Inr ob, w') \<Longrightarrow>
      \<exists>d'. ob = KInstallation d' \<and> di_status d' = di_status d"
    by (auto simp: gone_def dest: status_answer)
  show "gone ok objs k w'" if "gone ok objs k w" "kc_delete K k' w = (u, w')" for w k' u w'
  proof (cases "k' = k")
    case True
    have "objs w' k = None"
      using that True assms(2) by (cases u) (auto simp: gone_def dest!: delete_ok delete_err split: if_splits)
    then show ?thesis using that by (auto simp: gone_def dest: delete_keeps)
  next
    case False
    then show ?thesis using that by (auto simp: gone_def delete_kept dest: delete_keeps)
  qed
qed

end

section \<open>The concrete server\<close>

definition stored_well :: "server \<Rightarrow> bool" where
  "stored_well w \<longleftrightarrow> (\<forall>k ob. store w k = Some ob \<longrightarrow> object_ok ob)"

lemma stored_well_same: "store w' = store w \<Longrightarrow> stored_well w \<Longrightarrow> stored_well w'"
  by (simp add: stored_well_def)

lemma stored_well_insert:
  "stored_well w \<Longrightarrow> object_ok ob \<Longrightarrow>
   stored_well (w\<lparr>sr_objects := insert_object (ob_key ob) ob (sr_objects w)\<rparr>)"
  by (auto simp: stored_well_def store_insert)

lemma stored_well_drop: "stored_well w \<Longrightarrow> stored_well (w\<lparr>sr_objects := drop_object k (sr_objects w)\<rparr>)"
  by (auto simp: stored_well_def store_drop)

lemma guarded_stored:
  assumes "guarded c w = (r, w')" "stored_well w"
    and "\<And>w1 r w'. stored_well w1 \<Longrightarrow> c w1 = (r, w') \<Longrightarrow> stored_well w'"
  shows "stored_well w'"
  using assms(1)
proof (cases rule: guarded_cases)
  case (fault e)
  then show ?thesis using assms(2) by (auto intro: stored_well_same)
next
  case (run w1)
  show ?thesis by (rule assms(3) [OF stored_well_same [OF run(2) assms(2)] run(1)])
qed

interpretation answers: kube_answers server_kube store stored_well
proof
  show "\<And>w k ob. stored_well w \<Longrightarrow> store w k = Some ob \<Longrightarrow> object_ok ob"
    by (simp add: stored_well_def)
  show "\<And>w k r w'. stored_well w \<Longrightarrow> kc_get server_kube k w = (r, w') \<Longrightarrow> stored_well w'"
    by (rule stored_well_same [OF server.get_pure])
  show "\<And>w kd ns l r w'. stored_well w \<Longrightarrow> kc_list server_kube kd ns l w = (r, w') \<Longrightarrow> stored_well w'"
    by (rule stored_well_same [OF server.list_pure])
  show "\<And>w ob r w'. stored_well w \<Longrightarrow> object_ok ob \<Longrightarrow> kc_create server_kube ob w = (r, w') \<Longrightarrow> stored_well w'"
    unfolding server_kube_def kube.simps
    by (erule guarded_stored) (auto intro: stored_well_insert split: if_splits)
  show "\<And>w ob r w'. stored_well w \<Longrightarrow> object_ok ob \<Longrightarrow> kc_update server_kube ob w = (r, w') \<Longrightarrow> stored_well w'"
    unfolding server_kube_def kube.simps
    by (erule guarded_stored) (auto intro: stored_well_insert stored_well_drop split: if_splits)
  show "\<And>w d r w'. stored_well w \<Longrightarrow> names_ok (di_status d) \<Longrightarrow> kc_update_status server_kube (KInstallation d) w = (r, w') \<Longrightarrow> stored_well w'"
    unfolding server_kube_def kube.simps
    by (erule guarded_stored) (auto intro: stored_well_insert split: if_splits)
  show "\<And>w d ob w'. stored_well w \<Longrightarrow> kc_update_status server_kube (KInstallation d) w = (Inr ob, w') \<Longrightarrow>
      \<exists>d'. ob = KInstallation d' \<and> di_status d' = di_status d"
    by (auto simp: server_kube_def elim!: guarded_cases split: if_splits)
  show "\<And>w k u w'. stored_well w \<Longrightarrow> kc_delete server_kube k w = (u, w') \<Longrightarrow> stored_well w'"
    unfolding server_kube_def kube.simps
    by (erule guarded_stored) (auto intro: stored_well_drop split: if_splits)
qed

interpretation removals: kube_removals server_kube store stored_well
  by (rule answers.kube_removals_axioms)

end
