(* ===== verification/Replica_Safety.thy ===== *)
theory Replica_Safety
  imports Member_Manager Kube_Answers
begin

text \<open>
  No step of a reconciliation panics, and each counts a replica as ready at most once. The
  statements are triples over the state of the manager, proved inside the locale of the API
  server's laws: first for the requests, then for replicas, shards, clusters and the whole
  reconciliation.
\<close>

section \<open>Requests\<close>

context kube_removals
begin

lemma keeps_delete_config_map [preserves]: "keeps ok (delete_config_map K key)"
  unfolding delete_config_map_def
  by (intro keeps_bind keeps_try keeps_decoded keeps_get) (auto intro!: preserves split: sum.splits)

lemma keeps_delete_config_maps [preserves]: "keeps ok (delete_config_maps K ctx)"
  unfolding delete_config_maps_def
  by (intro keeps_bind keeps_try keeps_delete_config_map) (auto intro!: preserves split: sum.splits)

lemma keeps_delete_service [preserves]: "keeps ok (delete_service K key)"
  unfolding delete_service_def
  by (intro keeps_bind keeps_try keeps_decoded keeps_get) (auto intro!: preserves split: sum.splits)

end

context kube_answers
begin

lemma keeps_from_sum [preserves]: "keeps I (from_sum r)"
  by (auto simp: from_sum_def intro: keeps_ret keeps_throw split: sum.splits)

lemma keeps_sync_config_map [preserves]: "keeps ok (sync_config_map K cm u)"
proof -
  let ?made = "\<lambda>r. case r of
      Inr _ \<Rightarrow> ret (None, KConfigMap cm)
    | Inl e \<Rightarrow> if is_not_found e
        then bindp (try_prog (api (kc_create K (KConfigMap cm)))) (\<lambda>c.
               ret (case c of Inl e' \<Rightarrow> (Some e', KConfigMap cm) | Inr ob \<Rightarrow> (None, ob)))
        else throw e"
  have made: "gives ok (?made r) (\<lambda>(_, ob). object_ok ob)" for r
    by (auto intro!: gives_ret gives_throw gives_bind [OF gives_try [OF gives_create]] split: sum.splits)
  show ?thesis
    unfolding sync_config_map_def
    by (intro keeps_bind keeps_try keeps_decoded keeps_get gives_bind [OF made])
      (auto intro!: preserves split: option.splits)
qed

lemma keeps_sync_service [preserves]: "keeps ok (sync_service K cd ns svc)"
  unfolding sync_service_def
  by (intro keeps_bind keeps_try keeps_decoded keeps_get) (auto intro!: preserves split: sum.splits)

lemma keeps_validate_claims [preserves]: "keeps ok (validate_claims_storage_update K xs ys False)"
  unfolding validate_claims_storage_update_def ensure_claim_supports_expansion_def
  by (auto intro!: preserves split: option.splits storage_comparison.splits)

lemma keeps_retrieve_pvcs [preserves]: "keeps ok (retrieve_pvcs K ns ps m)"
proof (induction ps arbitrary: m)
  case (Cons e ps)
  obtain p name where "e = (p, name)" by (cases e)
  then show ?case
    using Cons by (auto intro!: keeps_bind keeps_try keeps_decoded keeps_get keeps_throw split: sum.splits)
qed (simp add: keeps_ret)

lemma keeps_resize_pvc [preserves]: "keeps ok (resize_pvc K c p)"
  unfolding resize_pvc_def by (auto intro!: preserves)

lemma keeps_volume_expansion [preserves]: "keeps ok (handle_volume_expansion K new old False)"
  unfolding handle_volume_expansion_def resize_pvcs_def retrieve_actual_pvcs_def
  by (auto intro!: preserves split: option.splits)

lemma keeps_label_pod [preserves]: "keeps ok (label_pod K key)"
  unfolding label_pod_def
  by (intro keeps_bind keeps_try keeps_decoded keeps_get) (auto intro!: preserves split: sum.splits option.splits)

lemma updated_replicas:
  assumes "sx_replicas (set_spec new) = Some n" "sx_replicas (set_spec old) \<noteq> None"
  shows "\<exists>r. updated_stateful_set cd new old = Some r \<and>
    (\<forall>s. r = Inr (Some s) \<longrightarrow> sx_replicas (set_spec s) = Some n)"
  using assms
  by (auto simp: updated_stateful_set_def Let_def set_stateful_set_last_applied_def map_sum_def
      split: option.splits sum.splits)

lemma keeps_update_stateful_set [preserves]:
  assumes "sx_replicas (set_spec new) = Some n" "sx_replicas (set_spec old) \<noteq> None"
  shows "keeps ok (update_stateful_set K cd new old)"
proof -
  obtain r where r: "updated_stateful_set cd new old = Some r"
    and n: "\<And>s. r = Inr (Some s) \<Longrightarrow> sx_replicas (set_spec s) = Some n"
    using updated_replicas [OF assms] by blast
  show ?thesis
    unfolding update_stateful_set_def r
    by (auto intro!: preserves simp: n split: sum.splits option.splits)
qed

end

section \<open>Lifting to the manager\<close>

text \<open>An invariant of the manager: one of the world, and a relation of context and installation.\<close>

definition holds ::
  "('w \<Rightarrow> bool) \<Rightarrow> (member_context \<Rightarrow> daisy_installation \<Rightarrow> bool) \<Rightarrow> ('w, 'd) mstate \<Rightarrow> bool" where
  "holds ok R s \<longleftrightarrow> ok (ms_world s) \<and> R (ms_ctx s) (ms_di s)"

text \<open>Relations that look at the status only.\<close>

definition stat ::
  "(member_context \<Rightarrow> installation_status \<Rightarrow> bool) \<Rightarrow> member_context \<Rightarrow> daisy_installation \<Rightarrow> bool" where
  "stat P ctx di \<longleftrightarrow> P ctx (di_status di)"

lemma gives_on_world:
  assumes "gives ok m Q"
  shows "gives (holds ok R) (on_world m) Q"
  unfolding gives_def
proof (rule validI)
  fix s :: "('a, 'c) mstate" and x s'
  assume h: "holds ok R s"
  then have w: "ok (ms_world s)" by (simp add: holds_def)
  note v = assms [unfolded gives_def]
  {
    assume "on_world m s = (Done x, s')"
    then obtain w' where "m (ms_world s) = (Done x, w')" "s' = s\<lparr>ms_world := w'\<rparr>"
      by (auto simp: on_world_def split: prod.splits)
    with valid_Done [OF v w] h show "holds ok R s' \<and> Q x" by (simp add: holds_def)
  next
    fix e assume "on_world m s = (Err e, s')"
    then obtain w' where "m (ms_world s) = (Err e, w')" "s' = s\<lparr>ms_world := w'\<rparr>"
      by (auto simp: on_world_def split: prod.splits)
    with valid_Err [OF v w] h show "holds ok R s'" by (simp add: holds_def)
  next
    fix msg show "on_world m s \<noteq> (Panic msg, s')"
      using valid_no_panic [OF v w] by (auto simp: on_world_def split: prod.splits)
  }
qed

lemma keeps_on_world [preserves]: "keeps ok m \<Longrightarrow> keeps (holds ok R) (on_world m)"
  by (rule gives_on_world)

lemma keeps_on_db [preserves]: "keeps (holds ok R) (on_db f)"
  by (auto simp: gives_def valid_def on_db_def holds_def split: prod.splits)

lemma valid_set_ctx:
  "(\<And>ctx st. P ctx st \<Longrightarrow> P' (f ctx) st) \<Longrightarrow>
   valid (holds ok (stat P)) (set_ctx f) (\<lambda>_. holds ok (stat P')) E"
  by (auto simp: set_ctx_def holds_def stat_def intro!: valid_modify)

lemma valid_on_status:
  "(\<And>ctx st. P ctx st \<Longrightarrow> P' ctx (f st)) \<Longrightarrow>
   valid (holds ok (stat P)) (on_status f) (\<lambda>_. holds ok (stat P')) E"
  by (auto simp: on_status_def set_di_def holds_def stat_def intro!: valid_modify)

lemma valid_write_status:
  assumes "\<And>ctx st. P ctx st \<Longrightarrow> \<exists>st'. f st = Some st' \<and> P' ctx st'"
  shows "valid (holds ok (stat P)) (write_status f) (\<lambda>_. holds ok (stat P')) E"
  unfolding write_status_def
  by (rule valid_modify_or_panic) (use assms in \<open>fastforce simp: holds_def stat_def\<close>)

text \<open>Reading the state: what is read satisfies the relation; context and status stay the same.\<close>

lemma valid_read_holds:
  assumes "\<And>s0. ok (ms_world s0) \<Longrightarrow> P (ms_ctx s0) (di_status (ms_di s0)) \<Longrightarrow>
    valid (holds ok (stat (\<lambda>ctx st. P ctx st \<and> ctx = ms_ctx s0 \<and> st = di_status (ms_di s0)))) (f s0) Q E"
  shows "valid (holds ok (stat P)) (bindp get_state f) Q E"
  by (rule valid_read, rule valid_weaken [OF assms]) (auto simp: holds_def stat_def)

lemma stat_mono: "holds ok (stat P) s \<Longrightarrow> (\<And>ctx st. P ctx st \<Longrightarrow> P' ctx st) \<Longrightarrow> holds ok (stat P') s"
  by (auto simp: holds_def stat_def)

lemma valid_keeps:
  assumes "keeps (holds ok (stat P)) m" "\<And>ctx st. P ctx st \<Longrightarrow> P' ctx st"
  shows "valid (holds ok (stat P)) m (\<lambda>_. holds ok (stat P)) (\<lambda>_. holds ok (stat P'))"
  using assms(1) unfolding keeps_valid by (rule valid_weaken) (auto intro: stat_mono assms(2))

context kube_removals
begin

lemma valid_send_status:
  assumes names: "names_ok (di_status d)"
  shows "valid (holds ok (\<lambda>ctx di. stat P ctx di \<and> di = d))
     (bindp (on_world (api (kc_update_status K (KInstallation d)))) receive_di)
     (\<lambda>_. holds ok (stat P)) (\<lambda>_. holds ok (stat P))"
  unfolding valid_def
proof (intro allI impI)
  fix s assume h: "holds ok (\<lambda>ctx di. stat P ctx di \<and> di = d) s"
  obtain r w' where c: "kc_update_status K (KInstallation d) (ms_world s) = (r, w')" by fastforce
  have w: "ok w'" using h status_keeps [OF _ names c] by (simp add: holds_def)
  have answer: "\<exists>d'. ob = KInstallation d' \<and> di_status d' = di_status d" if "r = Inr ob" for ob
    using h status_answer [of "ms_world s" d ob w'] c that by (simp add: holds_def)
  show "case bindp (on_world (api (kc_update_status K (KInstallation d)))) receive_di s of
      (Done _, s') \<Rightarrow> holds ok (stat P) s' | (Err _, s') \<Rightarrow> holds ok (stat P) s' | (Panic _, _) \<Rightarrow> False"
    using h w answer
    by (auto simp: holds_def stat_def bindp_def on_world_def api_def c receive_di_def as_installation_def
        set_di_def modify_def split: sum.splits)
qed

lemma keeps_update_status:
  assumes "dp_kube D = K" and names: "\<And>ctx st. P ctx st \<Longrightarrow> names_ok st"
  shows "keeps (holds ok (stat P)) (update_installation_status D t)"
  unfolding keeps_valid update_installation_status_def assms(1)
proof (rule valid_read_fun)
  fix s0 :: "('w, 'b) mstate"
  let ?d = "ms_di s0"
  let ?get = "decoded as_installation (kc_get K (OKey InstallationKind (di_namespace ?d) (di_name ?d)))"
  let ?I = "holds ok (\<lambda>ctx di. stat P ctx di \<and> di = ?d)"
  assume "holds ok (stat P) s0"
  then have "names_ok (di_status ?d)" using names by (auto simp: holds_def stat_def)
  have "keeps ?I (on_world ?get)" by (intro keeps_on_world keeps_decoded keeps_get)
  then have get: "valid ?I (try_prog (on_world ?get)) (\<lambda>_. ?I) (\<lambda>_. holds ok (stat P))"
    unfolding keeps_valid by (intro valid_try) (auto elim!: valid_weaken)
  have pre: "(\<lambda>s. holds ok (stat P) s \<and> ms_di s = ?d) = ?I" by (auto simp: holds_def fun_eq_iff)
  show "valid (\<lambda>s. holds ok (stat P) s \<and> ms_di s = ?d) (bindp (try_prog (on_world ?get)) (\<lambda>r. case r of
      Inl e \<Rightarrow> if t then ret () else throw e
    | Inr _ \<Rightarrow> bindp (on_world (api (kc_update_status K (KInstallation ?d)))) receive_di))
    (\<lambda>_. holds ok (stat P)) (\<lambda>_. holds ok (stat P))"
    unfolding pre
  proof (rule valid_bind [OF get])
    fix r :: "error + daisy_installation"
    show "valid ?I (case r of
        Inl e \<Rightarrow> if t then ret () else throw e
      | Inr _ \<Rightarrow> bindp (on_world (api (kc_update_status K (KInstallation ?d)))) receive_di)
      (\<lambda>_. holds ok (stat P)) (\<lambda>_. holds ok (stat P))"
      using valid_send_status [OF \<open>names_ok (di_status ?d)\<close>, of P]
      by (auto intro!: valid_ret valid_throw simp: holds_def split: sum.splits)
  qed
qed

end

section \<open>Replicas\<close>

text \<open>
  The relations of the loops. \<open>in_shard\<close>: the context names the shard, the status has a shard map
  for its cluster, its replicas carry their names, and the replicas counted so far are at most \<open>n\<close>
  more than all replicas (\<open>n\<close> starts at minus their number and grows by one with each of them).
  \<open>in_replica\<close>: the shard has a replica map, too. \<open>counted\<close>: after the stateful set has been looked
  at; a replica in phase \<open>ReadyPhase\<close> has not been counted.
\<close>

definition in_shard :: "string \<Rightarrow> string \<Rightarrow> int \<Rightarrow> member_context \<Rightarrow> installation_status \<Rightarrow> bool" where
  "in_shard c sh n ctx st \<longleftrightarrow> mc_cur_cluster ctx = c \<and> mc_cur_shard ctx = sh \<and> names_ok st
     \<and> cs_shards (status_cluster st c) \<noteq> None
     \<and> 0 \<le> is_ready_replicas st \<and> is_ready_replicas st \<le> is_replicas_count st + n"

definition in_replica :: "string \<Rightarrow> string \<Rightarrow> replica \<Rightarrow> int \<Rightarrow> member_context \<Rightarrow> installation_status \<Rightarrow> bool" where
  "in_replica c sh r n ctx st \<longleftrightarrow> in_shard c sh n ctx st \<and> mc_cur_replica ctx = rp_name r
     \<and> st_replicas (status_shard st c sh) \<noteq> None"

definition counted :: "string \<Rightarrow> string \<Rightarrow> replica \<Rightarrow> int \<Rightarrow> member_context \<Rightarrow> installation_status \<Rightarrow> bool" where
  "counted c sh r n ctx st \<longleftrightarrow> in_replica c sh r (n + 1) ctx st
     \<and> (replica_is_ready r c sh st \<longrightarrow> is_ready_replicas st \<le> is_replicas_count st + n)"

lemma in_shard_mono: "in_shard c sh n ctx st \<Longrightarrow> n \<le> m \<Longrightarrow> in_shard c sh m ctx st"
  by (auto simp: in_shard_def)

lemma in_shard_replica [simp]: "in_shard c sh n (ctx\<lparr>mc_cur_replica := x\<rparr>) st \<longleftrightarrow> in_shard c sh n ctx st"
  by (simp add: in_shard_def)

lemma in_replica_counted: "in_replica c sh r n ctx st \<Longrightarrow> counted c sh r n ctx st"
  by (auto simp: in_replica_def counted_def in_shard_def)

lemma counted_in_shard: "counted c sh r n ctx st \<Longrightarrow> in_shard c sh (n + 1) ctx st"
  by (auto simp: in_replica_def counted_def)

lemma make_replicas_ok:
  assumes "in_shard c sh n ctx st" "mc_cur_replica ctx = rp_name r"
  shows "\<exists>st'. make_replicas ctx st = Some st' \<and> in_replica c sh r n ctx st'"
proof (cases "st_replicas (status_shard st c sh) = None")
  case False
  then show ?thesis using assms by (auto simp: make_replicas_def in_shard_def in_replica_def Let_def)
next
  case True
  let ?x = "(status_shard st c sh)\<lparr>st_replicas := Some []\<rparr>"
  obtain st' where w: "put_shard_status c sh ?x st = Some st'"
    using put_shard_status_defined [of c sh ?x st] assms(1) by (auto simp: in_shard_def)
  have "names_ok st'" using put_shard_names_ok [OF w] assms(1) by (simp add: in_shard_def)
  moreover have "is_ready_replicas st' = is_ready_replicas st" "is_replicas_count st' = is_replicas_count st"
    using put_status_only_clusters(2) [OF w] by auto
  moreover have "st_replicas (status_shard st' c sh) \<noteq> None"
    using put_shard_status_Some [OF w, of c sh] by simp
  ultimately show ?thesis
    using w True assms put_shard_shards [OF w]
    by (auto simp: make_replicas_def in_shard_def in_replica_def Let_def)
qed

lemma observe_phase_name: "observe_phase s up ready x = (y, b) \<Longrightarrow> rs_name y = rs_name x"
  by (auto simp: observe_phase_def split: if_splits)

lemma observe_phase_counted: "observe_phase s up ready x = (y, True) \<Longrightarrow> rs_phase y = NormalPhase"
  by (auto simp: observe_phase_def split: if_splits)

lemma count_action_same [simp]:
  "status_cluster (count_action a st) = status_cluster st"
  "is_ready_replicas (count_action a st) = is_ready_replicas st"
  "is_replicas_count (count_action a st) = is_replicas_count st"
  by (simp_all add: count_action_def split: sync_action.splits)

lemma new_replica_status_name:
  assumes "names_ok st"
  shows "rs_name (new_replica_status ctx now st) = mc_cur_replica ctx"
  using assms by (auto simp: new_replica_status_def names_ok_def split: option.splits)

text \<open>What \<open>syncRepliaStatus\<close> writes, without the intermediate values.\<close>

lemma record_replica_cases:
  "\<exists>y b. rs_name y = rs_name (new_replica_status ctx now st) \<and> (b \<longrightarrow> rs_phase y = NormalPhase)
     \<and> record_replica ctx now s a ready st = put_replica_status (mc_cur_cluster ctx) (mc_cur_shard ctx)
      (mc_cur_replica ctx) y ((count_action a st)\<lparr>is_ready_replicas := is_ready_replicas st + of_bool b\<rparr>)"
proof -
  let ?x = "(new_replica_status ctx now st)\<lparr>rs_stateful_set := Some (set_status s)\<rparr>"
  let ?x' = "if a = ActionAdd \<or> a = ActionUpdate then ?x\<lparr>rs_last_transition_time := now\<rparr> else ?x"
  obtain y b where o: "observe_phase s (stateful_set_is_upgrading s) ready ?x' = (y, b)" by fastforce
  show ?thesis
  proof (intro exI conjI impI)
    show "rs_name y = rs_name (new_replica_status ctx now st)" using observe_phase_name [OF o] by auto
    show "rs_phase y = NormalPhase" if b using that observe_phase_counted [of s _ ready ?x' y] o by auto
    have same: "(count_action a st)\<lparr>is_ready_replicas := is_ready_replicas st\<rparr> = count_action a st"
      by (simp add: count_action_def split: sync_action.splits)
    show "record_replica ctx now s a ready st = put_replica_status (mc_cur_cluster ctx) (mc_cur_shard ctx)
        (mc_cur_replica ctx) y ((count_action a st)\<lparr>is_ready_replicas := is_ready_replicas st + of_bool b\<rparr>)"
      using o by (cases b) (simp_all add: record_replica_def Let_def same)
  qed
qed

lemma record_replica_ok:
  assumes "in_replica c sh r n ctx st"
  shows "\<exists>st'. record_replica ctx now s a ready st = Some st' \<and> counted c sh r n ctx st'"
proof -
  obtain y b where name: "rs_name y = rs_name (new_replica_status ctx now st)"
    and phase: "b \<longrightarrow> rs_phase y = NormalPhase"
    and rec: "record_replica ctx now s a ready st = put_replica_status (mc_cur_cluster ctx) (mc_cur_shard ctx)
      (mc_cur_replica ctx) y ((count_action a st)\<lparr>is_ready_replicas := is_ready_replicas st + of_bool b\<rparr>)"
    using record_replica_cases [of ctx now st s a ready] by blast
  let ?st = "(count_action a st)\<lparr>is_ready_replicas := is_ready_replicas st + of_bool b\<rparr>"
  have c: "mc_cur_cluster ctx = c" "mc_cur_shard ctx = sh" "mc_cur_replica ctx = rp_name r"
    and names: "names_ok st" and reps: "st_replicas (status_shard st c sh) \<noteq> None"
    and n: "0 \<le> is_ready_replicas st" "is_ready_replicas st \<le> is_replicas_count st + n"
    using assms by (auto simp: in_replica_def in_shard_def)
  have same: "status_cluster ?st = status_cluster st" by simp
  have "put_replica_status c sh (rp_name r) y ?st \<noteq> None"
    unfolding put_replica_status_defined status_shard_cong [OF same] by (rule reps)
  then obtain st' where w: "put_replica_status c sh (rp_name r) y ?st = Some st'" by blast
  have "rs_name y = rp_name r" using name new_replica_status_name [OF names, of ctx now] c by simp
  then have "names_ok st'" using put_replica_names_ok [OF w names_ok_cong [OF same names]] by simp
  moreover have "is_ready_replicas st' = is_ready_replicas st + of_bool b"
    "is_replicas_count st' = is_replicas_count st"
    using put_status_only_clusters(3) [OF w] by auto
  moreover have "replica_is_ready r c sh st' \<longleftrightarrow> rs_phase y = ReadyPhase"
    using put_replica_status_Some [OF w, of c sh "rp_name r"] by (simp add: replica_is_ready_def)
  ultimately show ?thesis
    using put_replica_replicas [OF w] c rec w n phase
    by (auto simp: counted_def in_replica_def in_shard_def)
qed

lemma get_status_ready:
  "replica_is_ready r c sh st \<Longrightarrow> names_ok st \<Longrightarrow> \<exists>x. get_replica_status st r = Some x \<and> rs_name x = rp_name r"
  by (auto simp: replica_is_ready_def dest: get_replica_status_found split: option.splits)

lemma last_applied_replicas:
  "set_stateful_set_last_applied cd s = Inr x \<Longrightarrow> set_spec x = set_spec s"
  by (auto simp: set_stateful_set_last_applied_def split: option.splits)

lemma gives_last_applied:
  assumes "P (set_spec s)"
  shows "gives I (from_sum (set_stateful_set_last_applied cd s)) (\<lambda>x. P (set_spec x))"
  using assms last_applied_replicas [of cd s]
  by (auto simp: from_sum_def intro!: gives_ret gives_throw split: sum.splits)

lemma generation_decided:
  "sx_replicas (set_spec s) \<noteq> None \<Longrightarrow> \<exists>ready. has_reached_generation (Some s) = Some ready"
  by (cases "ss_observed_generation (set_status s) = om_generation (set_meta s)")
    (auto simp: has_reached_generation_def Let_def)

text \<open>A step from one relation to another, or to a third with an error.\<close>

abbreviation steps where
  "steps ok P m Q E \<equiv>
     valid (holds ok (stat P)) m (\<lambda>_. holds ok (stat Q)) (\<lambda>_. holds ok (stat E))"

lemma steps_keeps:
  assumes "keeps (holds ok (stat P)) m" "\<And>ctx st. P ctx st \<Longrightarrow> Q ctx st" "\<And>ctx st. P ctx st \<Longrightarrow> E ctx st"
  shows "steps ok P m Q E"
  using assms(1) unfolding keeps_valid by (rule valid_weaken) (auto elim!: stat_mono intro: assms)

lemma steps_weaken:
  assumes "steps ok P' m Q' E'" "\<And>ctx st. P ctx st \<Longrightarrow> P' ctx st" "\<And>ctx st. Q' ctx st \<Longrightarrow> Q ctx st"
    "\<And>ctx st. E' ctx st \<Longrightarrow> E ctx st"
  shows "steps ok P m Q E"
  using assms(1) by (rule valid_weaken) (auto elim!: stat_mono intro: assms)

lemma steps_ret: "(\<And>ctx st. P ctx st \<Longrightarrow> Q ctx st) \<Longrightarrow> steps ok P (ret x) Q E"
  by (rule valid_ret) (auto elim: stat_mono)

lemma steps_throw: "(\<And>ctx st. P ctx st \<Longrightarrow> E ctx st) \<Longrightarrow> steps ok P (throw e) Q E"
  by (rule valid_throw) (auto elim: stat_mono)

lemma steps_gives_bind:
  assumes "gives (holds ok (stat P)) m G" "\<And>x. G x \<Longrightarrow> steps ok P (f x) Q E" "\<And>ctx st. P ctx st \<Longrightarrow> E ctx st"
  shows "steps ok P (bindp m f) Q E"
  by (rule valid_gives_bind [OF assms(1,2)]) (auto elim: stat_mono intro: assms(3))

lemma steps_keeps_bind:
  assumes "keeps (holds ok (stat P)) m" "\<And>x. steps ok P (f x) Q E" "\<And>ctx st. P ctx st \<Longrightarrow> E ctx st"
  shows "steps ok P (bindp m f) Q E"
  by (rule steps_gives_bind [OF assms(1)]) (auto intro: assms)

lemma steps_then:
  assumes "steps ok P m R E" "steps ok R n Q E"
  shows "steps ok P (andthen m n) Q E"
  by (rule valid_bind [OF assms(1)]) (rule assms(2))

lemma in_replica_in_shard: "in_replica c sh r n ctx st \<Longrightarrow> in_shard c sh (n + 1) ctx st"
  by (rule counted_in_shard [OF in_replica_counted])

lemma set_replica_status_shards:
  "cs_shards (status_cluster st c) \<noteq> None \<Longrightarrow> cs_shards (status_cluster (set_replica_status c' s r x st) c) \<noteq> None"
  by (auto simp: set_replica_status_def status_cluster_def mget_or_def mget_def split: option.splits)

lemma set_replica_status_names:
  assumes "names_ok st" "rs_name x = r" "st_replicas (status_shard st c s) \<noteq> None"
  shows "names_ok (set_replica_status c s r x st)"
proof -
  obtain cs where cs: "mget (is_clusters st) c = Some cs"
    using clusters_of_shards [OF shards_of_replicas [OF assms(3)]] assms(3)
    by (auto simp: status_shard_def status_cluster_def mget_or_def zero_cluster_status_def zero_shard_status_def
        split: option.splits)
  obtain y where "mget (cs_shards cs) s = Some y"
    using assms(3) cs by (auto simp: status_shard_def status_cluster_def mget_or_def zero_shard_status_def
        split: option.splits)
  note look = set_replica_status_lookup [OF cs this]
  show ?thesis using assms(1,2) by (auto simp: names_ok_def look split: if_splits)
qed

lemma count_tables:
  assumes "counted c sh r n ctx st" "replica_is_ready r c sh st" "rs_name x = rp_name r"
  shows "in_shard c sh (n + 1) ctx
    ((set_replica_status c sh (rp_name r) x st)\<lparr>is_ready_replicas := is_ready_replicas st + 1\<rparr>)"
proof -
  let ?st = "set_replica_status c sh (rp_name r) x st"
  have st: "names_ok st" "st_replicas (status_shard st c sh) \<noteq> None" "is_ready_replicas st \<le> is_replicas_count st + n"
    using assms(1,2) by (auto simp: counted_def in_replica_def in_shard_def)
  have "names_ok (?st\<lparr>is_ready_replicas := is_ready_replicas st + 1\<rparr>)"
    by (rule names_ok_cong [OF _ set_replica_status_names [OF st(1) assms(3) st(2)]]) simp
  moreover have "is_replicas_count ?st = is_replicas_count st"
    using set_replica_status_other [of c sh "rp_name r" x st] by auto
  ultimately show ?thesis
    using assms(1) st set_replica_status_shards [of st c c sh "rp_name r" x]
    by (auto simp: counted_def in_replica_def in_shard_def)
qed

text \<open>
  The walk through one replica, for any relations that its writes respect: \<open>Pre\<close> before it, \<open>In\<close>
  when the replica map exists, \<open>Mid\<close> when the stateful set has been looked at, \<open>Out\<close> at the end and
  after an error.
\<close>

locale replica_relations =
  fixes r :: replica and Pre In Mid Out :: "member_context \<Rightarrow> installation_status \<Rightarrow> bool"
  assumes makes: "Pre ctx st \<Longrightarrow> \<exists>st'. make_replicas (ctx\<lparr>mc_cur_replica := rp_name r\<rparr>) st = Some st'
      \<and> In (ctx\<lparr>mc_cur_replica := rp_name r\<rparr>) st'"
    and records: "In ctx st \<Longrightarrow> \<exists>st'. record_replica ctx now s a ready st = Some st' \<and> Mid ctx st'"
    and untouched: "In ctx st \<Longrightarrow> Mid ctx st"
    and ends: "Mid ctx st \<Longrightarrow> Out ctx st"
    and tables: "Mid ctx st \<Longrightarrow> replica_is_ready r (mc_cur_cluster ctx) (mc_cur_shard ctx) st \<Longrightarrow>
      \<not> replica_is_sync r (mc_cur_cluster ctx) (mc_cur_shard ctx) st \<Longrightarrow>
      \<exists>x. get_replica_status st r = Some x
        \<and> Out ctx ((set_replica_status (mc_cur_cluster ctx) (mc_cur_shard ctx) (rp_name r) (x\<lparr>rs_state := sync\<rparr>) st)
            \<lparr>is_ready_replicas := is_ready_replicas st + 1\<rparr>)"
begin

lemma in_out: "In ctx st \<Longrightarrow> Out ctx st"
  by (rule ends [OF untouched])

lemma sync_replica_status_steps:
  fixes s :: stateful_set and D :: "('w, 'd) deps"
  assumes "sx_replicas (set_spec s) \<noteq> None"
  shows "steps ok In (sync_replica_status D s a) Mid E"
  unfolding sync_replica_status_def
proof (rule valid_read_holds)
  fix s0 :: "('w, 'd) mstate"
  obtain ready where "has_reached_generation (Some s) = Some ready"
    using generation_decided [OF assms] by blast
  then show "steps ok (\<lambda>ctx st. In ctx st \<and> ctx = ms_ctx s0 \<and> st = ms_status s0)
      (case has_reached_generation (Some s) of None \<Rightarrow> panic ''nil pointer''
       | Some ready \<Rightarrow> write_status (record_replica (ms_ctx s0) (dp_now D (ms_world s0)) s a ready))
      Mid E"
    by (auto intro!: valid_write_status records)
qed

lemma sync_tables_steps:
  fixes D :: "('w, 'd) deps"
  shows "steps ok Mid (sync_tables D r) Out Out"
  unfolding sync_tables_def Let_def
proof (rule valid_read_holds)
  fix s0 :: "('w, 'd) mstate"
  let ?ctx = "ms_ctx s0" and ?st = "ms_status s0"
  let ?P = "\<lambda>ctx st. Mid ctx st \<and> ctx = ?ctx \<and> st = ?st"
  let ?ready = "replica_is_ready r (mc_cur_cluster ?ctx) (mc_cur_shard ?ctx) ?st
    \<and> \<not> replica_is_sync r (mc_cur_cluster ?ctx) (mc_cur_shard ?ctx) ?st"
  let ?mark = "\<lambda>x. on_status (\<lambda>st. (set_replica_status (mc_cur_cluster ?ctx) (mc_cur_shard ?ctx) (rp_name r)
        (x\<lparr>rs_state := sync\<rparr>) st)\<lparr>is_ready_replicas := is_ready_replicas st + 1\<rparr>) :: ('w, 'd, unit) mprog"
  assume Mid: "Mid ?ctx ?st"
  have "steps ok ?P
      (bindp (on_db (create_tables_for_replica (dp_driver D) (dp_schemer D) (dp_sql D) ?ctx (ms_di s0) r)) (\<lambda>err.
         case err of Some e \<Rightarrow> throw (Failure e)
         | None \<Rightarrow> (case get_replica_status ?st r of None \<Rightarrow> panic ''nil pointer'' | Some x \<Rightarrow> ?mark x))) Out Out"
    if ready: ?ready
  proof (rule steps_keeps_bind [OF keeps_on_db])
    fix err :: "string option"
    obtain x where x: "get_replica_status ?st r = Some x"
      and out: "Out ?ctx ((set_replica_status (mc_cur_cluster ?ctx) (mc_cur_shard ?ctx) (rp_name r) (x\<lparr>rs_state := sync\<rparr>) ?st)
        \<lparr>is_ready_replicas := is_ready_replicas ?st + 1\<rparr>)"
      using tables [OF Mid] ready by blast
    have "steps ok ?P (?mark x) Out Out"
      by (rule valid_on_status) (use out in auto)
    then show "steps ok ?P (case err of Some e \<Rightarrow> throw (Failure e)
         | None \<Rightarrow> (case get_replica_status ?st r of None \<Rightarrow> panic ''nil pointer'' | Some x \<Rightarrow> ?mark x)) Out Out"
      by (auto simp: x intro!: steps_throw ends split: option.splits)
  qed (auto intro: ends)
  then show "steps ok ?P
      (if ?ready then
         bindp (on_db (create_tables_for_replica (dp_driver D) (dp_schemer D) (dp_sql D) ?ctx (ms_di s0) r)) (\<lambda>err.
           case err of None \<Rightarrow> (case get_replica_status ?st r of None \<Rightarrow> panic ''nil pointer'' | Some x \<Rightarrow> ?mark x)
           | Some e \<Rightarrow> throw (Failure e))
       else ret ()) Out Out"
    by (auto intro!: steps_ret ends)
qed

end

text \<open>The relations of the counts are respected.\<close>

interpretation counts: replica_relations r "in_shard c sh n" "in_replica c sh r n" "counted c sh r n"
    "in_shard c sh (n + 1)" for r c sh n
proof
  fix ctx st
  show "in_shard c sh n ctx st \<Longrightarrow> \<exists>st'. make_replicas (ctx\<lparr>mc_cur_replica := rp_name r\<rparr>) st = Some st'
      \<and> in_replica c sh r n (ctx\<lparr>mc_cur_replica := rp_name r\<rparr>) st'"
    by (rule make_replicas_ok) simp_all
  show "in_replica c sh r n ctx st \<Longrightarrow> \<exists>st'. record_replica ctx now s a ready st = Some st' \<and> counted c sh r n ctx st'"
    for now s a ready by (rule record_replica_ok)
  show "in_replica c sh r n ctx st \<Longrightarrow> counted c sh r n ctx st" by (rule in_replica_counted)
  show "counted c sh r n ctx st \<Longrightarrow> in_shard c sh (n + 1) ctx st" by (rule counted_in_shard)
  assume Mid: "counted c sh r n ctx st" and "replica_is_ready r (mc_cur_cluster ctx) (mc_cur_shard ctx) st"
  moreover from Mid have "mc_cur_cluster ctx = c" "mc_cur_shard ctx = sh" "names_ok st"
    by (auto simp: counted_def in_replica_def in_shard_def)
  ultimately show "\<exists>x. get_replica_status st r = Some x
      \<and> in_shard c sh (n + 1) ctx ((set_replica_status (mc_cur_cluster ctx) (mc_cur_shard ctx) (rp_name r)
          (x\<lparr>rs_state := sync\<rparr>) st)\<lparr>is_ready_replicas := is_ready_replicas st + 1\<rparr>)"
    using get_status_ready [of r c sh st] count_tables [OF Mid, of "_\<lparr>rs_state := sync\<rparr>"] by fastforce
qed

lemma keeps_set_ctx:
  "(\<And>ctx st. P ctx st \<Longrightarrow> P (f ctx) st) \<Longrightarrow> keeps (holds ok (stat P)) (set_ctx f)"
  unfolding keeps_valid by (rule valid_set_ctx)

lemma keeps_on_status:
  "(\<And>ctx st. P ctx st \<Longrightarrow> P ctx (f st)) \<Longrightarrow> keeps (holds ok (stat P)) (on_status f)"
  unfolding keeps_valid by (rule valid_on_status)

lemma keeps_write_status:
  "(\<And>ctx st. P ctx st \<Longrightarrow> \<exists>st'. f st = Some st' \<and> P ctx st') \<Longrightarrow> keeps (holds ok (stat P)) (write_status f)"
  unfolding keeps_valid by (rule valid_write_status)

lemma keeps_read_holds:
  "(\<And>s. P (ms_ctx s) (ms_status s) \<Longrightarrow> keeps (holds ok (stat P)) (f s)) \<Longrightarrow>
   keeps (holds ok (stat P)) (bindp get_state f)"
  by (rule keeps_read) (auto simp: holds_def stat_def)

lemma mget_mdel: "mget (mdel k m) k' = (if k' = k then None else mget m k')"
  by (cases m) (auto simp: mdel_def)

lemma forget_replica_ok:
  assumes "in_shard c sh n ctx st" "mc_cur_cluster ctx0 = c" "mc_cur_shard ctx0 = sh"
  shows "\<exists>st'. forget_replica_status ctx0 r st = Some st' \<and> in_shard c sh n ctx st'"
proof -
  let ?x = "(status_shard st c sh)\<lparr>st_replicas := mdel (rp_name r) (st_replicas (status_shard st c sh))\<rparr>"
  obtain st' where w: "put_shard_status c sh ?x st = Some st'"
    using put_shard_status_defined [of c sh ?x st] assms(1) by (auto simp: in_shard_def)
  have "names_ok st'"
    by (rule put_shard_names_ok [OF w]) (use assms(1) in
      \<open>auto simp: in_shard_def names_ok_def status_replica_def mget_mdel split: if_splits\<close>)
  moreover have "is_ready_replicas st' = is_ready_replicas st" "is_replicas_count st' = is_replicas_count st"
    using put_status_only_clusters(2) [OF w] by auto
  ultimately show ?thesis
    using w assms put_shard_shards [OF w] by (auto simp: forget_replica_status_def in_shard_def Let_def)
qed

text \<open>The relations that removing a replica of the current shard respects.\<close>

locale removal_relation =
  fixes P :: "member_context \<Rightarrow> installation_status \<Rightarrow> bool"
  assumes names: "P ctx st \<Longrightarrow> names_ok st"
    and moved: "P ctx st \<Longrightarrow> P (ctx\<lparr>mc_cur_replica := x\<rparr>) st"
    and deleted: "P ctx st \<Longrightarrow> P ctx (st\<lparr>is_deleted_replicas_count := k\<rparr>)"
    and forgets: "P ctx0 st0 \<Longrightarrow> P ctx st \<Longrightarrow> \<exists>st'. forget_replica_status ctx0 r st = Some st' \<and> P ctx st'"
begin

lemma keeps_cur_replica: "keeps (holds ok (stat P)) (set_ctx (\<lambda>c. c\<lparr>mc_cur_replica := x\<rparr>))"
  by (rule keeps_set_ctx) (rule moved)

lemma keeps_deleted_count:
  "keeps (holds ok (stat P)) (on_status (\<lambda>st. st\<lparr>is_deleted_replicas_count := is_deleted_replicas_count st + 1\<rparr>))"
  by (rule keeps_on_status) (rule deleted)

lemma keeps_forget:
  "P (ms_ctx s) (ms_status s) \<Longrightarrow> keeps (holds ok (stat P)) (write_status (forget_replica_status (ms_ctx s) r))"
  by (rule keeps_write_status) (rule forgets)

end

interpretation shard_removal: removal_relation "in_shard c sh n" for c sh n
proof
  fix ctx st
  show "in_shard c sh n ctx st \<Longrightarrow> names_ok st" by (simp add: in_shard_def)
  show "in_shard c sh n ctx st \<Longrightarrow> in_shard c sh n (ctx\<lparr>mc_cur_replica := x\<rparr>) st" for x by simp
  show "in_shard c sh n ctx st \<Longrightarrow> in_shard c sh n ctx (st\<lparr>is_deleted_replicas_count := k\<rparr>)" for k
    by (auto simp: in_shard_def elim: names_ok_cong [rotated])
  show "in_shard c sh n ctx0 st0 \<Longrightarrow> in_shard c sh n ctx st \<Longrightarrow>
      \<exists>st'. forget_replica_status ctx0 r st = Some st' \<and> in_shard c sh n ctx st'" for ctx0 st0 r
    by (rule forget_replica_ok) (auto simp: in_shard_def)
qed

context kube_removals
begin

lemma keeps_delete_replica:
  fixes D :: "('w, 'd) deps"
  assumes D: "dp_kube D = K" and P: "removal_relation P"
  shows "keeps (holds ok (stat P)) (delete_replica D r)"
proof -
  let ?I = "holds ok (stat P) :: ('w, 'd) mstate \<Rightarrow> bool"
  have tables: "keeps ?I (delete_tables D r)"
    unfolding delete_tables_def by (auto intro!: preserves)
  have set: "keeps ?I (delete_stateful_set_for_replica D r)"
    unfolding delete_stateful_set_for_replica_def D by (auto intro!: preserves split: sum.splits)
  have claims: "keeps ?I (delete_pvc D r)"
    unfolding delete_pvc_def D by (auto intro!: preserves)
  have service: "keeps ?I (delete_service_for_replica D r)"
    unfolding delete_service_for_replica_def D by (auto intro!: preserves)
  show ?thesis
    unfolding delete_replica_def D
    by (auto intro!: keeps_bind keeps_read_holds keeps_try keeps_on_world keeps_decoded keeps_get
        keeps_ret keeps_throw tables set claims service keeps_delete_config_map
        removal_relation.keeps_cur_replica [OF P] removal_relation.keeps_deleted_count [OF P]
        removal_relation.keeps_forget [OF P] keeps_update_status [OF D removal_relation.names [OF P]]
        split: sum.splits)
qed

end

context kube_answers
begin

lemma keeps_sync_pod_label [preserves]:
  assumes "dp_kube D = K"
  shows "keeps (holds ok R) (sync_pod_label D r s)"
  unfolding sync_pod_label_def Let_def assms
  by (auto intro!: preserves split: option.splits)

end

locale replica_walk = kube_answers K objs ok + replica_relations r Pre In Mid Out
  for K :: "'w kube" and objs :: "'w \<Rightarrow> okey \<Rightarrow> kobject option" and ok :: "'w \<Rightarrow> bool"
    and r :: replica and Pre In Mid Out :: "member_context \<Rightarrow> installation_status \<Rightarrow> bool"
begin

lemma create_stateful_set_steps:
  assumes D: "dp_kube D = K" and new: "sx_replicas (set_spec new) \<noteq> None"
  shows "steps ok In (create_stateful_set D new) Mid Out"
  unfolding create_stateful_set_def D
proof (rule steps_gives_bind [OF gives_last_applied [where P = "\<lambda>x. sx_replicas x \<noteq> None"]])
  fix x :: stateful_set assume x: "sx_replicas (set_spec x) \<noteq> None"
  show "steps ok In
      (bindp (on_world (decoded as_stateful_set (kc_create K (KStatefulSet x)))) (\<lambda>created.
         andthen (sync_replica_status D created ActionAdd) (throw (RequeueError ''waiting for replica running''))))
      Mid Out"
    by (rule steps_gives_bind [OF gives_on_world [OF gives_create_set [OF x]]])
      (auto intro!: steps_then [OF sync_replica_status_steps] steps_throw intro: ends in_out)
qed (use new in \<open>auto intro: in_out\<close>)

lemma refresh_stateful_set_steps:
  assumes D: "dp_kube D = K" and new: "sx_replicas (set_spec new) = Some k"
    and old: "sx_replicas (set_spec old) \<noteq> None"
  shows "steps ok In (refresh_stateful_set D new old) Mid Out"
proof -
  have "steps ok In
      (andthen (try_prog (on_world (update_stateful_set K (dp_codec D) new old))) (sync_replica_status D new ActionUpdate))
      Mid Out"
    using new old
    by (intro steps_keeps_bind [OF keeps_try [OF keeps_on_world [OF keeps_update_stateful_set]]]
        sync_replica_status_steps) (auto intro: in_out)
  then show ?thesis
    unfolding refresh_stateful_set_def D using old
    by (intro steps_keeps_bind [OF keeps_on_world [OF keeps_volume_expansion]])
      (auto intro: sync_replica_status_steps in_out)
qed

lemma sync_stateful_set_steps:
  fixes D :: "('w, 'd) deps"
  assumes D: "dp_kube D = K"
  shows "steps ok In (sync_stateful_set D r) Mid Out"
  unfolding sync_stateful_set_def D
proof (intro valid_read_any steps_gives_bind [OF gives_try [OF gives_on_world [OF gives_get_set]]])
  fix s0 :: "('w, 'd) mstate" and res :: "error + stateful_set"
  let ?new = "get_stateful_set_for_replica (ms_ctx s0) (ms_di s0) r"
  assume res: "case res of Inl _ \<Rightarrow> True | Inr s \<Rightarrow> sx_replicas (set_spec s) \<noteq> None"
  have label: "steps ok In m Mid Out \<Longrightarrow> steps ok In (andthen (sync_pod_label D r s0) m) Mid Out"
    for m :: "('w, 'd, unit) mprog"
    by (rule steps_keeps_bind [OF keeps_sync_pod_label [OF D]]) (auto intro: in_out)
  show "steps ok In
      (case res of
         Inl e \<Rightarrow>
           if \<not> is_not_found e then throw (Failure ''syncStatefulSet: failed to get sts'')
           else if sp_paused (di_spec (ms_di s0)) then ret ()
           else andthen (sync_pod_label D r s0) (create_stateful_set D ?new)
       | Inr old \<Rightarrow>
           if sp_paused (di_spec (ms_di s0)) then ret ()
           else andthen (sync_pod_label D r s0) (refresh_stateful_set D ?new old))
      Mid Out"
    using res
    by (auto intro!: steps_throw steps_ret label intro: untouched in_out
        create_stateful_set_steps [OF D] refresh_stateful_set_steps [OF D] split: sum.splits)
qed (auto intro: in_out)

lemma sync_replica_steps:
  fixes D :: "('w, 'd) deps"
  assumes D: "dp_kube D = K"
  shows "steps ok Pre (sync_replica D r) Out Out"
  unfolding sync_replica_def
proof (rule steps_then [OF valid_set_ctx valid_read_holds])
  fix s0 :: "('w, 'd) mstate"
  let ?P = "\<lambda>ctx st. \<exists>ctx0. Pre ctx0 st \<and> ctx = ctx0\<lparr>mc_cur_replica := rp_name r\<rparr>"
  show "Pre ctx st \<Longrightarrow> ?P (ctx\<lparr>mc_cur_replica := rp_name r\<rparr>) st" for ctx st by blast
  have service: "keeps (holds ok (stat Mid)) (sync_service_for_replica D r)"
    unfolding sync_service_for_replica_def D by (auto intro!: preserves)
  show "steps ok (\<lambda>ctx st. ?P ctx st \<and> ctx = ms_ctx s0 \<and> st = ms_status s0)
      (andthen (write_status (make_replicas (ms_ctx s0)))
        (andthen (on_world (sync_config_map (dp_kube D) (get_config_map_replica r s0) True))
        (andthen (sync_stateful_set D r) (andthen (sync_service_for_replica D r) (sync_tables D r)))))
      Out Out"
    unfolding D
    by (intro steps_then [OF valid_write_status [where P' = In]]
        steps_keeps_bind [OF keeps_on_world [OF keeps_sync_config_map], where P = In]
        steps_then [OF sync_stateful_set_steps [OF D]] steps_keeps_bind [OF service] sync_tables_steps)
      (auto intro: in_out ends dest: makes)
qed

end

interpretation count_walk: replica_walk server_kube store stored_well r "in_shard c sh n" "in_replica c sh r n"
    "counted c sh r n" "in_shard c sh (n + 1)" for r c sh n
  by (rule replica_walk.intro [OF answers.kube_answers_axioms counts.replica_relations_axioms])

section \<open>Shards and clusters\<close>

definition in_cluster :: "string \<Rightarrow> int \<Rightarrow> member_context \<Rightarrow> installation_status \<Rightarrow> bool" where
  "in_cluster c n ctx st \<longleftrightarrow> mc_cur_cluster ctx = c \<and> names_ok st \<and> is_clusters st \<noteq> None
     \<and> 0 \<le> is_ready_replicas st \<and> is_ready_replicas st \<le> is_replicas_count st + n"

text \<open>What holds between the clusters, and at the end with \<open>n = 0\<close>.\<close>

definition status_ok :: "int \<Rightarrow> installation_status \<Rightarrow> bool" where
  "status_ok n st \<longleftrightarrow> names_ok st
     \<and> 0 \<le> is_ready_replicas st \<and> is_ready_replicas st \<le> is_replicas_count st + n"

lemma relation_chain:
  "in_shard c sh n ctx st \<Longrightarrow> in_cluster c n ctx st"
  "in_cluster c n ctx st \<Longrightarrow> status_ok n st"
  using clusters_of_shards [of st c] by (auto simp: in_shard_def in_cluster_def status_ok_def)

lemma in_cluster_mono: "in_cluster c n ctx st \<Longrightarrow> n \<le> m \<Longrightarrow> in_cluster c m ctx st"
  by (auto simp: in_cluster_def)

lemma record_shard_ok:
  assumes "in_cluster c n ctx st" "mc_cur_shard ctx = sh_name sh"
  shows "\<exists>st'. record_shard c sh st = Some st' \<and> in_shard c (sh_name sh) n ctx st'"
proof -
  let ?cs = "status_cluster st c"
  let ?v = "?cs\<lparr>cs_shards := Some (put (sh_name sh)
    (synced_shard_status sh (map_of (mmake (cs_shards ?cs)) (sh_name sh))) (mmake (cs_shards ?cs)))\<rparr>"
  obtain st' where w: "put_cluster_status c ?v st = Some st'"
    using assms(1) by (auto simp: in_cluster_def put_cluster_status_def)
  have old: "rs_name x = r" if "mget (st_replicas (mget_or zero_shard_status (cs_shards ?cs) s)) r = Some x" for s r x
    using that assms(1) by (auto simp: in_cluster_def names_ok_def status_replica_def status_shard_def)
  have new: "rs_name x = r"
    if "mget (st_replicas (synced_shard_status sh (map_of (mmake (cs_shards ?cs)) s))) r = Some x" for s r x
    using that old [of s r x]
    by (cases "cs_shards ?cs")
      (auto simp: synced_shard_status_def mget_or_def mget_def split: option.splits if_splits)
  have "names_ok st'"
  proof (rule put_cluster_names_ok [OF w])
    show "names_ok st" using assms(1) by (simp add: in_cluster_def)
    show "rs_name x = r" if "mget (st_replicas (mget_or zero_shard_status (cs_shards ?v) s)) r = Some x" for s r x
      using that old [of s r x] new [of "sh_name sh" r x]
      by (cases "cs_shards ?cs") (auto simp: mget_or_def mget_def split: if_splits)
  qed
  moreover have "is_ready_replicas st' = is_ready_replicas st" "is_replicas_count st' = is_replicas_count st"
    using put_status_only_clusters(1) [OF w] by auto
  ultimately show ?thesis
    using w assms put_cluster_status_Some [OF w, of c]
    by (auto simp: record_shard_def in_shard_def in_cluster_def Let_def)
qed

lemma make_cluster_ok:
  assumes "status_ok n st" "mc_cur_cluster ctx = c"
  shows "in_cluster c n ctx (make_cluster_status k st)"
proof -
  have "status_replica (make_cluster_status k st) c' s r = status_replica st c' s r" for c' s r
    by (cases "is_clusters st") (auto simp: make_cluster_status_def status_replica_def status_shard_def
        status_cluster_def mget_or_def mget_def zero_cluster_status_def Let_def)
  then show ?thesis
    using assms by (auto simp: make_cluster_status_def in_cluster_def status_ok_def names_ok_def Let_def)
qed

text \<open>Loops over the entries of a map in which every step may count up to its weight.\<close>

lemma steps_each_count:
  fixes w :: "'x \<Rightarrow> int"
  assumes "\<And>x n. x \<in> set xs \<Longrightarrow> steps ok (P n) (f x) (P (n + w x)) (P (n + w x))"
    and "\<And>n m ctx st. n \<le> m \<Longrightarrow> P n ctx st \<Longrightarrow> P m ctx st" and "\<And>x. x \<in> set xs \<Longrightarrow> 0 \<le> w x"
  shows "steps ok (P n) (each f xs) (P (n + sum_list (map w xs))) (P (n + sum_list (map w xs)))"
  by (rule valid_each_count [where I = "\<lambda>n. holds ok (stat (P n))"])
    (auto intro: assms(1,3) elim!: stat_mono dest: assms(2))

definition shard_weight :: "string \<times> shard \<Rightarrow> int" where
  "shard_weight p = int (mlen (sh_replicas (snd p)))"

definition cluster_weight :: "string \<times> cluster \<Rightarrow> int" where
  "cluster_weight p = sum_list (map shard_weight (mentries (lo_shards (cl_layout (snd p)))))"

lemma weights_nonneg [simp]: "0 \<le> shard_weight p" "0 \<le> cluster_weight q"
proof -
  show weight: "0 \<le> shard_weight p" for p by (simp add: shard_weight_def)
  show "0 \<le> cluster_weight q"
    unfolding cluster_weight_def by (rule sum_list_nonneg) (auto simp: weight)
qed

lemma replicas_count_weight:
  "int (replicas_count n) = sum_list (map cluster_weight (mentries (cf_clusters (sp_configuration (no_spec n)))))"
proof -
  have int_sum: "int (sum_list (map g xs)) = sum_list (map (\<lambda>x. int (g x)) xs)" for g and xs :: "'z list"
    by (induction xs) simp_all
  show ?thesis
    by (simp add: replicas_count_def loop_clusters_def int_sum cluster_weight_def [abs_def]
        shard_weight_def [abs_def] split_def o_def)
qed

context kube_answers
begin

lemma sync_replicas_steps:
  fixes D :: "('w, 'd) deps"
  assumes D: "dp_kube D = K"
  shows "steps ok (in_shard c sh n) (each (\<lambda>(_, r). sync_replica D r) (mentries rs))
    (in_shard c sh (n + int (mlen rs))) (in_shard c sh (n + int (mlen rs)))"
proof -
  have walk: "replica_walk K objs ok r (in_shard c sh m) (in_replica c sh r m) (counted c sh r m) (in_shard c sh (m + 1))"
    for r m
    by (rule replica_walk.intro [OF kube_answers_axioms counts.replica_relations_axioms])
  have "steps ok (in_shard c sh n) (each (\<lambda>(_, r). sync_replica D r) (mentries rs))
      (in_shard c sh (n + sum_list (map (\<lambda>_. 1) (mentries rs))))
      (in_shard c sh (n + sum_list (map (\<lambda>_. 1) (mentries rs))))"
    by (rule steps_each_count) (auto intro: replica_walk.sync_replica_steps [OF walk D] in_shard_mono)
  moreover have "sum_list (map (\<lambda>_. 1) (mentries rs)) = int (mlen rs)"
    by (simp add: mlen_def sum_list_triv)
  ultimately show ?thesis by simp
qed

lemma sync_shard_steps:
  fixes D :: "('w, 'd) deps"
  assumes D: "dp_kube D = K"
  shows "steps ok (in_cluster c n) (sync_shard D sh)
    (in_cluster c (n + int (mlen (sh_replicas sh)))) (in_cluster c (n + int (mlen (sh_replicas sh))))"
  unfolding sync_shard_def
proof (rule steps_then [OF valid_set_ctx valid_read_holds])
  fix s0 :: "('w, 'd) mstate"
  let ?m = "n + int (mlen (sh_replicas sh))"
  let ?P = "\<lambda>ctx st. in_cluster c n ctx st \<and> mc_cur_shard ctx = sh_name sh"
  assume "?P (ms_ctx s0) (ms_status s0)"
  then have c: "mc_cur_cluster (ms_ctx s0) = c" by (simp add: in_cluster_def)
  have extra: "steps ok (in_shard c (sh_name sh) ?m) (each (delete_replica D) rs) (in_cluster c ?m) (in_cluster c ?m)" for rs
    by (rule steps_keeps [OF keeps_each [OF keeps_delete_replica [OF D shard_removal.removal_relation_axioms]]]) (auto dest: relation_chain)
  have replicas: "steps ok (in_shard c (sh_name sh) n) (each (\<lambda>(_, r). sync_replica D r) (mentries (sh_replicas sh)))
      (in_shard c (sh_name sh) ?m) (in_cluster c ?m)"
    by (rule steps_weaken [OF sync_replicas_steps [OF D]]) (auto dest: relation_chain)
  show "steps ok (\<lambda>ctx st. ?P ctx st \<and> ctx = ms_ctx s0 \<and> st = ms_status s0)
      (andthen (write_status (record_shard (mc_cur_cluster (ms_ctx s0)) sh))
        (andthen (each (\<lambda>(_, r). sync_replica D r) (mentries (sh_replicas sh)))
          (bindp get_state (\<lambda>s1. each (delete_replica D) (extra_replicas (ms_ctx s1) sh (ms_di s1))))))
      (in_cluster c ?m) (in_cluster c ?m)"
    unfolding c
    by (rule steps_then [OF valid_write_status [where P' = "in_shard c (sh_name sh) n"]
          steps_then [OF replicas valid_read_any [OF extra]]]) (auto dest: record_shard_ok)
qed (auto simp: in_cluster_def)

lemma sync_cluster_steps:
  fixes D :: "('w, 'd) deps"
  assumes D: "dp_kube D = K"
  shows "steps ok (\<lambda>ctx st. status_ok n st \<and> mc_cur_cluster ctx = name) (sync_cluster D c)
    (\<lambda>_. status_ok (n + cluster_weight (name, c))) (\<lambda>_. status_ok (n + cluster_weight (name, c)))"
  unfolding sync_cluster_def
proof (rule steps_then [OF valid_on_status [where P' = "in_cluster name n"]])
  let ?m = "n + cluster_weight (name, c)"
  have "steps ok (in_cluster name n) (each (\<lambda>(_, sh). sync_shard D sh) (mentries (lo_shards (cl_layout c))))
      (in_cluster name (n + sum_list (map shard_weight (mentries (lo_shards (cl_layout c))))))
      (in_cluster name (n + sum_list (map shard_weight (mentries (lo_shards (cl_layout c))))))"
    by (rule steps_each_count)
      (auto simp: shard_weight_def intro: sync_shard_steps [OF D] in_cluster_mono)
  then show "steps ok (in_cluster name n) (each (\<lambda>(_, sh). sync_shard D sh) (mentries (lo_shards (cl_layout c))))
      (\<lambda>_. status_ok ?m) (\<lambda>_. status_ok ?m)"
    by (rule steps_weaken) (auto simp: cluster_weight_def dest: relation_chain)
qed (auto intro: make_cluster_ok)

lemma sync_configuration_steps:
  fixes D :: "('w, 'd) deps"
  assumes D: "dp_kube D = K"
  shows "steps ok (\<lambda>ctx st. status_ok (- int (replicas_count n)) st \<and> mc_normalized ctx = n)
    (sync_configuration D) (\<lambda>_. status_ok 0) (\<lambda>_. status_ok 0)"
  unfolding sync_configuration_def Let_def
proof (rule valid_read_holds)
  fix s0 :: "('w, 'd) mstate"
  let ?N = "- int (replicas_count n)"
  let ?cs = "cf_clusters (sp_configuration (no_spec n))"
  let ?step = "\<lambda>(name, c). andthen (set_ctx (\<lambda>x. x\<lparr>mc_cur_cluster := name\<rparr>)) (sync_cluster D c)
    :: ('w, 'd, unit) mprog"
  assume "status_ok ?N (ms_status s0) \<and> mc_normalized (ms_ctx s0) = n"
  then have n: "mc_normalized (ms_ctx s0) = n" by simp
  have "steps ok (\<lambda>_. status_ok ?N) (each ?step (mentries ?cs))
      (\<lambda>_. status_ok (?N + sum_list (map cluster_weight (mentries ?cs))))
      (\<lambda>_. status_ok (?N + sum_list (map cluster_weight (mentries ?cs))))"
  proof (rule steps_each_count [where P = "\<lambda>n _. status_ok n"])
    fix p m assume "p \<in> set (mentries ?cs)"
    obtain name c where p: "p = (name, c)" by fastforce
    have "steps ok (\<lambda>_. status_ok m) (set_ctx (\<lambda>x. x\<lparr>mc_cur_cluster := name\<rparr>))
        (\<lambda>ctx st. status_ok m st \<and> mc_cur_cluster ctx = name) (\<lambda>_. status_ok (m + cluster_weight (name, c)))"
      by (rule valid_set_ctx) simp
    then show "steps ok (\<lambda>_. status_ok m) (?step p)
        (\<lambda>_. status_ok (m + cluster_weight p)) (\<lambda>_. status_ok (m + cluster_weight p))"
      unfolding p prod.case by (rule steps_then) (rule sync_cluster_steps [OF D])
  qed (auto simp: status_ok_def)
  then have loop: "steps ok (\<lambda>_. status_ok ?N) (each ?step (mentries ?cs)) (\<lambda>_. status_ok 0) (\<lambda>_. status_ok 0)"
    by (simp add: replicas_count_weight)
  show "steps ok (\<lambda>ctx st. (status_ok ?N st \<and> mc_normalized ctx = n) \<and> ctx = ms_ctx s0 \<and> st = ms_status s0)
      (andthen (set_ctx (\<lambda>c. c\<lparr>mc_clusters := cf_clusters (sp_configuration (no_spec (mc_normalized (ms_ctx s0))))\<rparr>))
        (each ?step (mentries (cf_clusters (sp_configuration (no_spec (mc_normalized (ms_ctx s0))))))))
      (\<lambda>_. status_ok 0) (\<lambda>_. status_ok 0)"
    unfolding n by (rule steps_then [OF valid_set_ctx loop]) simp
qed

end

end
