(* ===== verification/Sync_Safety.thy ===== *)
theory Sync_Safety
  imports Replica_Safety
begin

text \<open>
  The whole of \<open>Sync\<close>: it returns when the shards are left to the operator, it never panics, and
  the counts it reports are within bounds, whatever requests fail on the way.
\<close>

section \<open>The steps of \<open>Sync\<close> around the configuration\<close>

text \<open>The final status: bounded counts, and \<open>Completed\<close> exactly when all replicas are ready.\<close>

definition status_decided :: "installation_status \<Rightarrow> bool" where
  "status_decided st \<longleftrightarrow> status_ok 0 st
     \<and> (is_state st = status_completed \<longleftrightarrow> is_replicas_count st = is_ready_replicas st)"

lemma status_ok_cong:
  assumes "status_cluster st' = status_cluster st" "is_ready_replicas st' = is_ready_replicas st"
    "is_replicas_count st' = is_replicas_count st"
  shows "status_ok n st' \<longleftrightarrow> status_ok n st"
  using assms names_ok_cong [of st' st] names_ok_cong [of st st'] by (auto simp: status_ok_def)

lemma status_ok_state [simp]: "status_ok n (st\<lparr>is_state := t\<rparr>) \<longleftrightarrow> status_ok n st"
  by (rule status_ok_cong) simp_all

lemma start_status:
  assumes "names_ok st"
  shows "status_ok (- int (replicas_count (mc_normalized ctx))) (status_reset (fill_status v ctx st))"
proof -
  have "status_cluster (status_reset (fill_status v ctx st)) = status_cluster st"
    by (simp add: fun_eq_iff status_cluster_def status_reset_def fill_status_def)
  then show ?thesis
    using names_ok_cong [OF _ assms] by (simp add: status_ok_def status_reset_def fill_status_def)
qed

lemma decide_ok: "status_ok 0 (di_status d) \<Longrightarrow> status_decided (decide_state d (di_status d))"
  by (auto simp: decide_state_def is_ready_def status_decided_def status_in_progress_def status_completed_def)

lemma last_applied_status:
  assumes "set_installation_last_applied cd d sp = Inr d'" "status_ok n (di_status d)"
  shows "status_ok n (di_status d')"
proof -
  have "di_status d' = (di_status d)\<lparr>is_prev_spec := sp\<rparr>"
    using assms(1) by (auto simp: set_installation_last_applied_def split: option.splits)
  then have "status_ok n (di_status d') \<longleftrightarrow> status_ok n (di_status d)" by (intro status_ok_cong) simp_all
  then show ?thesis using assms(2) by simp
qed

lemma apply_annotation_steps:
  fixes D :: "('w, 'd) deps"
  shows "steps ok (\<lambda>_. status_ok n) (apply_annotation D spec) (\<lambda>_. status_ok n) (\<lambda>_. status_ok n)"
  unfolding apply_annotation_def
proof (rule valid_read_fun)
  fix s0 :: "('w, 'd) mstate"
  assume "holds ok (stat (\<lambda>_. status_ok n)) s0"
  then have st: "status_ok n (ms_status s0)" by (simp add: holds_def stat_def)
  show "valid (\<lambda>s. holds ok (stat (\<lambda>_. status_ok n)) s \<and> ms_di s = ms_di s0)
      (bindp (from_sum (set_installation_last_applied (dp_codec D) (ms_di s0) (no_spec spec))) (\<lambda>d'. set_di (\<lambda>_. d')))
      (\<lambda>_. holds ok (stat (\<lambda>_. status_ok n))) (\<lambda>_. holds ok (stat (\<lambda>_. status_ok n)))"
  proof (cases "set_installation_last_applied (dp_codec D) (ms_di s0) (no_spec spec)")
    case (Inl e)
    then show ?thesis by (auto simp: from_sum_def intro!: valid_throw)
  next
    case (Inr d')
    have "status_ok n (di_status d')" by (rule last_applied_status [OF Inr st])
    then show ?thesis
      unfolding Inr from_sum_def set_di_def sum.case bindp_ret
      by (intro valid_modify) (simp add: holds_def stat_def)
  qed
qed

context kube_answers
begin

lemma keeps_service_for_installation [preserves]:
  assumes "dp_kube D = K"
  shows "keeps (holds ok R) (sync_service_for_installation D)"
  unfolding sync_service_for_installation_def assms by (auto intro!: preserves)

lemma keeps_gets: "(\<And>x. keeps I (f x)) \<Longrightarrow> keeps I (bindp (gets g) f)"
  by (rule keeps_bind) (auto simp: gives_def intro: valid_gets)

lemma keeps_sync_config_maps [preserves]:
  assumes "dp_kube D = K"
  shows "keeps (holds ok R) (sync_config_maps D u)"
  unfolding sync_config_maps_def assms by (auto intro!: keeps_gets preserves)

text \<open>After a successful update the installation is what the server has answered.\<close>

lemma update_di_steps:
  fixes D :: "('w, 'd) deps"
  assumes D: "dp_kube D = K" and names: "\<And>ctx st. P ctx st \<Longrightarrow> names_ok st"
  shows "valid (holds ok (stat P)) (update_di D) (\<lambda>_. holds ok (\<lambda>_ _. True)) (\<lambda>_. holds ok (stat P))"
  unfolding update_di_def D
proof (rule valid_read_fun)
  fix s0 :: "('w, 'd) mstate"
  assume "holds ok (stat P) s0"
  then have "names_ok (ms_status s0)" using names by (auto simp: holds_def stat_def)
  then have "keeps (holds ok (stat P)) (on_world (api (kc_update K (KInstallation (ms_di s0)))))"
    by (intro keeps_on_world keeps_update) simp
  then have "valid (holds ok (stat P))
      (bindp (on_world (api (kc_update K (KInstallation (ms_di s0))))) receive_di)
      (\<lambda>_. holds ok (\<lambda>_ _. True)) (\<lambda>_. holds ok (stat P))"
    unfolding keeps_valid
    by (rule valid_bind) (auto simp: receive_di_def set_di_def holds_def intro!: valid_throw valid_modify split: option.splits)
  then show "valid (\<lambda>s. holds ok (stat P) s \<and> ms_di s = ms_di s0)
      (bindp (on_world (api (kc_update K (KInstallation (ms_di s0))))) receive_di)
      (\<lambda>_. holds ok (\<lambda>_ _. True)) (\<lambda>_. holds ok (stat P))"
    by (rule valid_weaken) auto
qed

lemma final_update_steps:
  fixes D :: "('w, 'd) deps"
  assumes D: "dp_kube D = K" and names: "\<And>st. P st \<Longrightarrow> names_ok st"
  shows "steps ok (\<lambda>_. P)
    (bindp get_state (\<lambda>s.
        if status_unchanged old (ms_status s) then ret ()
        else andthen (update_di D) (andthen (on_status (\<lambda>_. ms_status s)) (update_installation_status D True))))
    (\<lambda>_. P) (\<lambda>_. P)"
proof (rule valid_read_holds)
  fix s0 :: "('w, 'd) mstate"
  assume P: "P (ms_status s0)"
  have "valid (holds ok (\<lambda>_ _. True)) (on_status (\<lambda>_. ms_status s0)) (\<lambda>_. holds ok (stat (\<lambda>_. P)))
      (\<lambda>_. holds ok (stat (\<lambda>_. P)))"
    using P by (auto simp: on_status_def set_di_def holds_def stat_def intro!: valid_modify)
  then have "valid (holds ok (\<lambda>_ _. True)) (andthen (on_status (\<lambda>_. ms_status s0)) (update_installation_status D True))
      (\<lambda>_. holds ok (stat (\<lambda>_. P))) (\<lambda>_. holds ok (stat (\<lambda>_. P)))"
    by (rule valid_bind) (rule keeps_update_status [OF D, of "\<lambda>_. P", OF names, unfolded keeps_valid])
  then have upd: "steps ok (\<lambda>_. P)
      (andthen (update_di D) (andthen (on_status (\<lambda>_. ms_status s0)) (update_installation_status D True)))
      (\<lambda>_. P) (\<lambda>_. P)"
    by (rule valid_bind [OF update_di_steps [OF D, of "\<lambda>_. P"], rotated]) (rule names)
  show "steps ok (\<lambda>ctx st. P st \<and> ctx = ms_ctx s0 \<and> st = ms_status s0)
      (if status_unchanged old (ms_status s0) then ret ()
       else andthen (update_di D) (andthen (on_status (\<lambda>_. ms_status s0)) (update_installation_status D True)))
      (\<lambda>_. P) (\<lambda>_. P)"
    unfolding status_unchanged_def if_False by (rule steps_weaken [OF upd]) auto
qed

lemma sync_normalized_steps:
  fixes D :: "('w, 'd) deps"
  assumes D: "dp_kube D = K"
  shows "steps ok (\<lambda>_. names_ok) (sync_normalized D old n) (\<lambda>_. status_decided) (\<lambda>_. names_ok)"
proof -
  let ?N = "- int (replicas_count n)"
  have weak: "status_ok k st \<Longrightarrow> names_ok st" "status_decided st \<Longrightarrow> names_ok st" for k st
    by (auto simp: status_ok_def status_decided_def)
  have start: "steps ok (\<lambda>_. names_ok)
      (modify (\<lambda>s. s\<lparr>ms_for_cfg := (ms_di s)\<lparr>di_spec := no_spec n\<rparr>, ms_ctx := sync_context n (ms_di s)\<rparr>))
      (\<lambda>ctx st. names_ok st \<and> mc_normalized ctx = n) (\<lambda>_. names_ok)"
    by (rule valid_modify) (simp add: holds_def stat_def sync_context_def)
  have fill: "steps ok (\<lambda>ctx st. names_ok st \<and> mc_normalized ctx = n)
      (bindp get_state (\<lambda>s. on_status (\<lambda>st. status_reset (fill_status (dp_version D) (ms_ctx s) st))))
      (\<lambda>ctx st. status_ok ?N st \<and> mc_normalized ctx = n) (\<lambda>_. names_ok)"
    by (rule valid_read_holds, rule valid_on_status) (use start_status in fastforce)
  have decide: "steps ok (\<lambda>_. status_ok 0) (bindp get_state (\<lambda>s. on_status (decide_state (ms_di s))))
      (\<lambda>_. status_decided) (\<lambda>_. names_ok)"
    by (rule valid_read_holds, rule valid_on_status) (auto dest: decide_ok)
  show ?thesis
    unfolding sync_normalized_def
    by (intro steps_then [OF start] steps_then [OF fill] steps_then [OF decide]
        steps_keeps_bind [OF keeps_service_for_installation [OF D]]
        steps_keeps_bind [OF keeps_sync_config_maps [OF D]]
        steps_then [OF steps_weaken [OF sync_configuration_steps [OF D, where n = n]]]
        steps_then [OF steps_weaken [OF apply_annotation_steps [where n = 0]], where R = "\<lambda>_. status_ok 0"]
        steps_weaken [OF final_update_steps [OF D, where P = status_decided]])
      (auto dest: weak)
qed

end

section \<open>A manager for concrete runs\<close>

definition example_texts :: sql_texts where
  "example_texts = \<lparr>sq_distributed_dbs = [], sq_distributed_tables = [], sq_replica_dbs = [],
     sq_replica_tables = [], sq_drop_tables = []\<rparr>"

definition example_deps :: "(server, (string \<times> string) list) deps" where
  "example_deps = \<lparr>dp_kube = server_kube, dp_codec = example_codec, dp_driver = log_driver,
     dp_schemer = new_schemer [] [] 9, dp_sql = example_texts, dp_norm = pure_env, dp_version = ''v'',
     dp_now = (\<lambda>_. 0), dp_range1 = id, dp_range2 = id\<rparr>"

definition example_state :: "server \<Rightarrow> daisy_installation \<Rightarrow> (server, (string \<times> string) list) mstate" where
  "example_state w d = \<lparr>ms_world = w, ms_db = empty_db [], ms_di = d, ms_ctx = name_context [] [],
     ms_conf = zero_operator_config, ms_for_cfg = zero_installation\<rparr>"

lemma example_simps [simp]:
  "dp_kube example_deps = server_kube" "dp_codec example_deps = example_codec"
  "ms_world (example_state w d) = w" "ms_di (example_state w d) = d"
  "ms_ctx (example_state w d) = name_context [] []"
  by (simp_all add: example_deps_def example_state_def)

lemma stored_well_empty [simp]: "stored_well \<lparr>sr_objects = [], sr_faults = fs\<rparr>"
  by (simp add: stored_well_def store_def)

lemma names_ok_none: "is_clusters st = None \<Longrightarrow> names_ok st"
  by (simp add: names_ok_def status_replica_def status_shard_def status_cluster_def mget_or_def
      zero_cluster_status_def zero_shard_status_def)

lemma zero_di_simps [simp]:
  "om_deletion_timestamp (di_meta zero_installation) = None"
  "is_clusters (di_status zero_installation) = None"
  "cf_clusters (di_configuration zero_installation) = None"
  by (simp_all add: zero_installation_def zero_meta_def zero_status_def zero_spec_def
      zero_configuration_def)

section \<open>Properties\<close>

lemma normalize_same:
  "normalize D s = Some (n, s') \<Longrightarrow> ms_world s' = ms_world s \<and> ms_di s' = ms_di s"
  by (auto simp: normalize_def split: prod.splits option.splits)

lemma add_finalizer_status [simp]:
  "di_status (add_finalizer d) = di_status d" "di_configuration (add_finalizer d) = di_configuration d"
  by (simp_all add: add_finalizer_def)

lemma sync_installation_normalized:
  assumes "om_deletion_timestamp (di_meta (ms_di s)) = None" "sync_installation D s = Some (r, s')"
  shows "\<exists>n s1. normalize D (s\<lparr>ms_di := add_finalizer (ms_di s)\<rparr>) = Some (n, s1)
    \<and> ms_world s1 = ms_world s \<and> ms_status s1 = ms_status s
    \<and> sync_normalized D (ms_status s) n s1 = (r, s')"
proof -
  obtain n s1 where n: "normalize D (s\<lparr>ms_di := add_finalizer (ms_di s)\<rparr>) = Some (n, s1)"
    and run: "sync_normalized D (ms_status s) n s1 = (r, s')"
    using assms by (auto simp: sync_installation_def Let_def)
  then show ?thesis using normalize_same [OF n] by auto
qed

text \<open>
  C1: Synchronizing an installation never panics: whatever is stored and whichever requests fail,
  every write into the nested maps of the status finds its maps, no nil pointer is followed, and
  the replica statuses stay stored under their own names. If the call does not return, the
  normalizer has not returned.
\<close>

theorem sync_never_panics:
  assumes "kube_answers K objs ok" "dp_kube D = K" "ok (ms_world s)" "names_ok (ms_status s)"
    and "om_deletion_timestamp (di_meta (ms_di s)) = None"
  shows "case sync_installation D s of
      None \<Rightarrow> normalize D (s\<lparr>ms_di := add_finalizer (ms_di s)\<rparr>) = None
    | Some (r, s') \<Rightarrow> (\<forall>msg. r \<noteq> Panic msg) \<and> ok (ms_world s') \<and> names_ok (ms_status s')"
proof (cases "sync_installation D s")
  case None
  then show ?thesis using assms(5) by (simp add: sync_installation_def Let_def)
next
  case (Some p)
  obtain r s' where p: "p = (r, s')" by fastforce
  from sync_installation_normalized [OF assms(5) Some [unfolded p]] obtain n s1 where
    s1: "ms_world s1 = ms_world s" "ms_status s1 = ms_status s" and
    run: "sync_normalized D (ms_status s) n s1 = (r, s')" by metis
  note v = kube_answers.sync_normalized_steps [OF assms(1,2), of "ms_status s" n]
  have pre: "holds ok (stat (\<lambda>_. names_ok)) s1" using assms(3,4) s1 by (simp add: holds_def stat_def)
  show ?thesis
  proof (cases r)
    case (Done x)
    then show ?thesis
      using valid_Done [OF v pre] run Some p
      by (auto simp: holds_def stat_def status_decided_def status_ok_def)
  next
    case (Err e)
    then show ?thesis
      using valid_Err [OF v pre] run Some p by (auto simp: holds_def stat_def)
  next
    case (Panic msg)
    then show ?thesis using valid_no_panic [OF v pre] run by auto
  qed
qed

theorem sync_never_panics_witness:
  "case sync_installation example_deps (example_state \<lparr>sr_objects = [], sr_faults = [None, Some Conflict]\<rparr> zero_installation) of
      None \<Rightarrow> normalize example_deps ((example_state \<lparr>sr_objects = [], sr_faults = [None, Some Conflict]\<rparr>
        zero_installation)\<lparr>ms_di := add_finalizer zero_installation\<rparr>) = None
    | Some (r, s') \<Rightarrow> (\<forall>msg. r \<noteq> Panic msg) \<and> stored_well (ms_world s') \<and> names_ok (ms_status s')"
  using sync_never_panics [OF answers.kube_answers_axioms, of example_deps
    "example_state \<lparr>sr_objects = [], sr_faults = [None, Some Conflict]\<rparr> zero_installation"]
  unfolding example_simps by (simp add: names_ok_none)

text \<open>
  C11: Synchronizing returns when the user leaves the shards to the operator, and a successful
  synchronization reports honest counts: no replica is counted as ready twice, so the ready
  replicas are between zero and all replicas, and the state is \<open>Completed\<close> exactly when they are
  all ready.
\<close>

theorem sync_reports_counts:
  assumes "kube_answers K objs ok" "dp_kube D = K" "ok (ms_world s)" "names_ok (ms_status s)"
    and "om_deletion_timestamp (di_meta (ms_di s)) = None"
    and "\<forall>(k, c) \<in> set (mentries (cf_clusters (di_configuration (ms_di s)))). mlen (lo_shards (cl_layout c)) = 0"
  shows "\<exists>r s'. sync_installation D s = Some (r, s') \<and> (r = Done () \<longrightarrow>
      0 \<le> is_ready_replicas (ms_status s') \<and> is_ready_replicas (ms_status s') \<le> is_replicas_count (ms_status s')
      \<and> (is_state (ms_status s') = status_completed
          \<longleftrightarrow> is_ready_replicas (ms_status s') = is_replicas_count (ms_status s')))"
proof -
  have "fst (get_installation_from_template (dp_norm D) (ms_conf s) (add_finalizer (ms_di s)) True) \<noteq> None"
    by (rule get_installation_returns) (use assms(6) in simp)
  then obtain r s' where run: "sync_installation D s = Some (r, s')"
    using assms(5) by (fastforce simp: sync_installation_def normalize_def Let_def split: prod.splits option.splits)
  from sync_installation_normalized [OF assms(5) run] obtain n s1 where
    s1: "ms_world s1 = ms_world s" "ms_status s1 = ms_status s" and
    n: "sync_normalized D (ms_status s) n s1 = (r, s')" by metis
  have "status_decided (ms_status s')" if "r = Done ()"
    using valid_Done [OF kube_answers.sync_normalized_steps [OF assms(1,2), of "ms_status s" n], of s1]
      assms(3,4) s1 n that by (auto simp: holds_def stat_def)
  then show ?thesis using run by (auto simp: status_decided_def status_ok_def)
qed

theorem sync_reports_counts_witness:
  "\<exists>r s'. sync_installation example_deps (example_state \<lparr>sr_objects = [], sr_faults = []\<rparr> zero_installation)
     = Some (r, s') \<and> (r = Done () \<longrightarrow> is_ready_replicas (ms_status s') \<le> is_replicas_count (ms_status s'))"
  using sync_reports_counts [OF answers.kube_answers_axioms, of example_deps
    "example_state \<lparr>sr_objects = [], sr_faults = []\<rparr> zero_installation"]
  by (auto simp: names_ok_none)

end
