(* ===== verification/Replica_Machine.thy ===== *)
theory Replica_Machine
  imports Sync_Safety
begin

text \<open>
  The life of one replica as a state machine over the phase and the state its status records. The
  steps are what \<open>syncRepliaStatus\<close> and \<open>syncReplica\<close> decide from one look at the stateful set; that
  \<open>syncReplica\<close> follows the machine, and moves no other replica, is a refinement proved with the
  walk of \<open>Replica_Safety\<close>.
\<close>

section \<open>The machine\<close>

type_synonym replica_mode = "member_phase \<times> string"

datatype observation = Unready | PodReady bool | TablesMade

inductive replica_step :: "replica_mode \<Rightarrow> observation \<Rightarrow> replica_mode \<Rightarrow> bool" where
  unready: "replica_step (p, t) Unready (ScalePhase, not_sync)"
| ready: "t = not_sync \<Longrightarrow> replica_step (p, t) (PodReady True) (ReadyPhase, t)"
| normal: "\<not> (reached \<and> t = not_sync) \<Longrightarrow> replica_step (p, t) (PodReady reached) (NormalPhase, t)"
| tables: "t \<noteq> sync \<Longrightarrow> replica_step (ReadyPhase, t) TablesMade (ReadyPhase, sync)"

inductive_cases replica_stepE: "replica_step m e m'"
inductive_simps replica_step_tables [simp]: "replica_step (p, t) TablesMade m'"
inductive_simps replica_step_unready [simp]: "replica_step (p, t) Unready m'"
inductive_simps replica_step_ready: "replica_step (p, t) (PodReady b) m'"

inductive replica_path :: "replica_mode \<Rightarrow> observation list \<Rightarrow> replica_mode \<Rightarrow> bool" where
  here: "replica_path m [] m"
| onward: "replica_path m es m' \<Longrightarrow> replica_step m' e m'' \<Longrightarrow> replica_path m (es @ [e]) m''"

definition fresh_mode :: replica_mode where
  "fresh_mode = (NoPhase, [])"

lemma mode_texts [simp]: "not_sync \<noteq> sync" "sync \<noteq> not_sync" "not_sync \<noteq> []" "sync \<noteq> []"
  "[] \<noteq> not_sync" "[] \<noteq> sync"
  by (simp_all add: not_sync_def sync_def)

text \<open>The machine is deterministic, and every observation of a stateful set is possible.\<close>

lemma replica_step_determ: "replica_step m e m1 \<Longrightarrow> replica_step m e m2 \<Longrightarrow> m1 = m2"
  by (auto elim!: replica_stepE)

definition tables_since_unready :: "observation list \<Rightarrow> bool" where
  "tables_since_unready es \<longleftrightarrow> TablesMade \<in> set (takeWhile (\<lambda>e. e \<noteq> Unready) (rev es))"

lemma tables_since_snoc [simp]:
  "tables_since_unready [] = False"
  "tables_since_unready (es @ [e]) \<longleftrightarrow> e \<noteq> Unready \<and> (e = TablesMade \<or> tables_since_unready es)"
  by (auto simp: tables_since_unready_def)

lemma path_invariant:
  assumes "replica_path m es m'" "m = fresh_mode"
  shows "(snd m' = sync \<longleftrightarrow> tables_since_unready es)
    \<and> (fst m' = ReadyPhase \<longrightarrow> snd m' \<in> {not_sync, sync}) \<and> (fst m' = ScalePhase \<longrightarrow> snd m' = not_sync)
    \<and> snd m' \<in> {[], not_sync, sync} \<and> (snd m' = [] \<longleftrightarrow> Unready \<notin> set es)
    \<and> (snd m' = [] \<longrightarrow> fst m' \<in> {NoPhase, NormalPhase} \<and> TablesMade \<notin> set es)"
  using assms
proof (induction rule: replica_path.induct)
  case (here m)
  then show ?case by (simp add: fresh_mode_def)
next
  case (onward m es m' e m'')
  then show ?case by (cases m'; cases rule: replica_step.cases [OF onward.hyps(2)]) auto
qed

section \<open>Observing a status\<close>

definition mode_at :: "installation_status \<Rightarrow> string \<Rightarrow> string \<Rightarrow> string \<Rightarrow> replica_mode" where
  "mode_at st c sh r = (case status_replica st c sh r of
     None \<Rightarrow> fresh_mode | Some x \<Rightarrow> (rs_phase x, rs_state x))"

definition observed :: "stateful_set \<Rightarrow> bool \<Rightarrow> observation" where
  "observed s ready = (if ss_ready_replicas (set_status s) \<noteq> 1 then Unready else PodReady ready)"

lemma observe_phase_step:
  assumes "observe_phase s False ready x = (y, b)"
  shows "replica_step (rs_phase x, rs_state x) (observed s ready) (rs_phase y, rs_state y)"
  using assms by (auto simp: observe_phase_def observed_def replica_step_ready split: if_splits)

lemma new_replica_status_mode:
  assumes "new_replica_status ctx now st = x"
  shows "(rs_phase x, rs_state x) = mode_at st (mc_cur_cluster ctx) (mc_cur_shard ctx) (mc_cur_replica ctx)"
  using assms
  by (auto simp: new_replica_status_def mode_at_def fresh_mode_def zero_replica_status_def split: option.splits)

lemma record_replica_moves:
  assumes "record_replica ctx now s a ready st = Some st'"
    and c: "mc_cur_cluster ctx = c" "mc_cur_shard ctx = sh" "mc_cur_replica ctx = r"
  shows "replica_step (mode_at st c sh r) (observed s ready) (mode_at st' c sh r)
    \<and> (\<forall>c' sh' r'. (c', sh', r') \<noteq> (c, sh, r) \<longrightarrow> status_replica st' c' sh' r' = status_replica st c' sh' r')"
proof -
  let ?x = "(new_replica_status ctx now st)\<lparr>rs_stateful_set := Some (set_status s)\<rparr>"
  let ?x' = "if a = ActionAdd \<or> a = ActionUpdate then ?x\<lparr>rs_last_transition_time := now\<rparr> else ?x"
  obtain y b where o: "observe_phase s False ready ?x' = (y, b)" by fastforce
  let ?st = "if b then (count_action a st)\<lparr>is_ready_replicas := is_ready_replicas (count_action a st) + 1\<rparr>
    else count_action a st"
  have w: "put_replica_status c sh r y ?st = Some st'"
    using assms(1) o c by (simp add: record_replica_def Let_def stateful_set_is_upgrading_def)
  have same: "status_replica ?st = status_replica st" by (rule status_replica_cong) simp
  note look = put_replica_status_Some [OF w, unfolded same]
  have "mode_at st c sh r = (rs_phase ?x', rs_state ?x')"
    using new_replica_status_mode [of ctx now st] c by simp
  moreover have "mode_at st' c sh r = (rs_phase y, rs_state y)" by (simp add: mode_at_def look)
  ultimately show ?thesis using observe_phase_step [OF o] by (auto simp: look)
qed

section \<open>Following the machine\<close>

text \<open>
  The relation of the walk: where the replica's status can be after at most \<open>k\<close> steps from the
  mode \<open>m0\<close>, while every other replica has the status \<open>others\<close> gives it.
\<close>

definition alone :: "string \<Rightarrow> string \<Rightarrow> string \<Rightarrow> installation_status \<Rightarrow> bool" where
  "alone c sh r st \<longleftrightarrow> (\<forall>c' s'. status_replica st c' s' r \<noteq> None \<longrightarrow> c' = c \<and> s' = sh)"

definition same_others ::
  "string \<Rightarrow> string \<Rightarrow> string \<Rightarrow> installation_status \<Rightarrow> installation_status \<Rightarrow> bool" where
  "same_others c sh r st st' \<longleftrightarrow> (\<forall>c' sh' r'. (c', sh', r') \<noteq> (c, sh, r) \<longrightarrow>
     status_replica st' c' sh' r' = status_replica st c' sh' r')"

definition walked ::
  "string \<Rightarrow> string \<Rightarrow> replica \<Rightarrow> installation_status \<Rightarrow> nat \<Rightarrow> member_context \<Rightarrow> installation_status \<Rightarrow> bool" where
  "walked c sh r st0 k ctx st \<longleftrightarrow> mc_cur_cluster ctx = c \<and> mc_cur_shard ctx = sh
     \<and> names_ok st \<and> status_wf st \<and> cs_shards (status_cluster st c) \<noteq> None
     \<and> alone c sh (rp_name r) st \<and> same_others c sh (rp_name r) st0 st
     \<and> (\<exists>es. length es \<le> k \<and> replica_path (mode_at st0 c sh (rp_name r)) es (mode_at st c sh (rp_name r)))"

definition walking ::
  "string \<Rightarrow> string \<Rightarrow> replica \<Rightarrow> installation_status \<Rightarrow> nat \<Rightarrow> member_context \<Rightarrow> installation_status \<Rightarrow> bool" where
  "walking c sh r st0 k ctx st \<longleftrightarrow> walked c sh r st0 k ctx st \<and> mc_cur_replica ctx = rp_name r
     \<and> st_replicas (status_shard st c sh) \<noteq> None"

lemma walked_more: "walked c sh r st0 k ctx st \<Longrightarrow> k \<le> k' \<Longrightarrow> walked c sh r st0 k' ctx st"
  unfolding walked_def by (meson le_trans)

lemma walked_replica [simp]:
  "walked c sh r st0 k (ctx\<lparr>mc_cur_replica := x\<rparr>) st \<longleftrightarrow> walked c sh r st0 k ctx st"
  by (simp add: walked_def)

lemma walked_cong:
  assumes "status_replica st' = status_replica st" "status_wf st'" "cs_shards (status_cluster st' c) \<noteq> None"
  shows "walked c sh r st0 k ctx st \<Longrightarrow> walked c sh r st0 k ctx st'"
  unfolding walked_def names_ok_def alone_def same_others_def mode_at_def assms(1) using assms(2,3) by blast

lemma walked_step:
  assumes "walked c sh r st0 k ctx st" "replica_step (mode_at st c sh (rp_name r)) e (mode_at st' c sh (rp_name r))"
    and "same_others c sh (rp_name r) st st'" "names_ok st'" "status_wf st'" "cs_shards (status_cluster st' c) \<noteq> None"
  shows "walked c sh r st0 (Suc k) ctx st'"
proof -
  obtain es where "length es \<le> k" "replica_path (mode_at st0 c sh (rp_name r)) es (mode_at st c sh (rp_name r))"
    using assms(1) by (auto simp: walked_def)
  then have "\<exists>es. length es \<le> Suc k \<and> replica_path (mode_at st0 c sh (rp_name r)) es (mode_at st' c sh (rp_name r))"
    using replica_path.onward [OF _ assms(2)] by (intro exI [of _ "es @ [e]"]) simp
  moreover have "alone c sh (rp_name r) st'"
    using assms(1,3) unfolding walked_def alone_def same_others_def by (metis prod.inject)
  moreover have "same_others c sh (rp_name r) st0 st'"
    using assms(1,3) by (simp add: walked_def same_others_def)
  ultimately show ?thesis using assms by (auto simp: walked_def)
qed

lemma walk_makes:
  assumes "walked c sh r st0 k ctx st" "mc_cur_replica ctx = rp_name r"
  shows "\<exists>st'. make_replicas ctx st = Some st' \<and> walking c sh r st0 k ctx st'"
proof (cases "st_replicas (status_shard st c sh) = None")
  case False
  then show ?thesis using assms by (auto simp: make_replicas_def walked_def walking_def Let_def)
next
  case True
  let ?x = "(status_shard st c sh)\<lparr>st_replicas := Some []\<rparr>"
  obtain st' where w: "put_shard_status c sh ?x st = Some st'"
    using put_shard_status_defined [of c sh ?x st] assms(1) by (auto simp: walked_def)
  have "status_replica st' c' s' r' = status_replica st c' s' r'" for c' s' r'
    using True by (auto simp: status_replica_def put_shard_status_Some [OF w])
  then have same: "status_replica st' = status_replica st" by (simp add: fun_eq_iff)
  have wf: "status_wf st'"
    by (rule put_shard_wf [OF w]) (use assms(1) in \<open>auto simp: walked_def shard_wf_def\<close>)
  have "walked c sh r st0 k ctx st'"
    using put_shard_shards [OF w] by (intro walked_cong [OF same wf _ assms(1)]) simp
  moreover have "st_replicas (status_shard st' c sh) \<noteq> None"
    using put_shard_status_Some [OF w, of c sh] by simp
  ultimately show ?thesis
    using w True assms by (auto simp: make_replicas_def walked_def walking_def Let_def)
qed

lemma walk_records:
  assumes "walking c sh r st0 k ctx st"
  shows "\<exists>st'. record_replica ctx now s a ready st = Some st' \<and> walking c sh r st0 (Suc k) ctx st'"
proof -
  have c: "mc_cur_cluster ctx = c" "mc_cur_shard ctx = sh" "mc_cur_replica ctx = rp_name r"
    and names: "names_ok st" and wf: "status_wf st" and reps: "st_replicas (status_shard st c sh) \<noteq> None"
    and walked: "walked c sh r st0 k ctx st"
    using assms by (auto simp: walking_def walked_def)
  obtain y b where name: "rs_name y = rs_name (new_replica_status ctx now st)"
    and rec: "record_replica ctx now s a ready st = put_replica_status c sh (rp_name r) y
      ((count_action a st)\<lparr>is_ready_replicas := is_ready_replicas st + of_bool b\<rparr>)"
    using record_replica_cases [of ctx now st s a ready] c by auto
  let ?st = "(count_action a st)\<lparr>is_ready_replicas := is_ready_replicas st + of_bool b\<rparr>"
  have same: "status_cluster ?st = status_cluster st" by simp
  have "put_replica_status c sh (rp_name r) y ?st \<noteq> None"
    unfolding put_replica_status_defined status_shard_cong [OF same] by (rule reps)
  then obtain st' where w: "put_replica_status c sh (rp_name r) y ?st = Some st'" by blast
  have "rs_name y = rp_name r" using name new_replica_status_name [OF names, of ctx now] c by simp
  then have "names_ok st'" using put_replica_names_ok [OF w names_ok_cong [OF same names]] by simp
  moreover have "is_clusters ?st = is_clusters st" by (simp add: count_action_def split: sync_action.splits)
  then have "status_wf st'" using put_replica_wf [OF w] wf status_wf_cong by blast
  moreover note moves = record_replica_moves [OF rec [unfolded w] c]
  ultimately have "walked c sh r st0 (Suc k) ctx st'"
    using put_replica_replicas [OF w]
    by (intro walked_step [OF walked]) (auto simp: same_others_def)
  then show ?thesis
    using put_replica_replicas [OF w] rec w c by (auto simp: walking_def)
qed

lemma walk_tables:
  assumes "walking c sh r st0 k ctx st" "replica_is_ready r c sh st" "\<not> replica_is_sync r c sh st"
  shows "\<exists>x. get_replica_status st r = Some x
    \<and> walked c sh r st0 (Suc k) ctx ((set_replica_status c sh (rp_name r) (x\<lparr>rs_state := sync\<rparr>) st)
        \<lparr>is_ready_replicas := is_ready_replicas st + 1\<rparr>)"
proof -
  have names: "names_ok st" and wf: "status_wf st" and reps: "st_replicas (status_shard st c sh) \<noteq> None"
    and alone: "alone c sh (rp_name r) st" and walked: "walked c sh r st0 k ctx st"
    using assms(1) by (auto simp: walking_def walked_def)
  obtain x where x: "status_replica st c sh (rp_name r) = Some x" "rs_phase x = ReadyPhase" "rs_state x \<noteq> sync"
    using assms(2,3) by (auto simp: replica_is_ready_def replica_is_sync_def split: option.splits)
  then have get: "get_replica_status st r = Some x"
    using alone by (intro get_replica_status_unique [OF wf names]) (auto simp: alone_def)
  let ?x = "x\<lparr>rs_state := sync\<rparr>"
  let ?st1 = "set_replica_status c sh (rp_name r) ?x st"
  let ?st2 = "?st1\<lparr>is_ready_replicas := is_ready_replicas st + 1\<rparr>"
  obtain cs where cs: "mget (is_clusters st) c = Some cs"
    using clusters_of_shards [OF shards_of_replicas [OF reps]] reps
    by (auto simp: status_shard_def status_cluster_def mget_or_def zero_cluster_status_def zero_shard_status_def
        split: option.splits)
  obtain y where "mget (cs_shards cs) sh = Some y"
    using reps cs by (auto simp: status_shard_def status_cluster_def mget_or_def zero_shard_status_def
        split: option.splits)
  note look = set_replica_status_lookup [OF cs this]
  have same: "status_cluster ?st2 = status_cluster ?st1" by simp
  have rep: "status_replica ?st2 = status_replica ?st1" by (rule status_replica_cong [OF same])
  have "rs_name x = rp_name r" using names x(1) by (auto simp: names_ok_def)
  then have names2: "names_ok ?st2"
    by (intro names_ok_cong [OF same] set_replica_status_names [OF names _ reps]) simp
  have "status_wf ?st2" using set_replica_wf [OF wf] by (simp add: status_wf_def)
  moreover have "cs_shards (status_cluster ?st2 c) \<noteq> None"
    unfolding same by (rule set_replica_status_shards [OF shards_of_replicas [OF reps]])
  moreover have "replica_step (mode_at st c sh (rp_name r)) TablesMade (mode_at ?st2 c sh (rp_name r))"
    using x by (simp add: mode_at_def rep look)
  moreover have "same_others c sh (rp_name r) st ?st2"
    by (auto simp: same_others_def rep look)
  ultimately have "walked c sh r st0 (Suc k) ctx ?st2"
    using names2 by (intro walked_step [OF walked])
  then show ?thesis using get by blast
qed

interpretation machine: replica_relations r "walked c sh r st0 0" "walking c sh r st0 0" "walking c sh r st0 1"
    "walked c sh r st0 2" for r c sh st0
proof
  fix ctx st
  show "walked c sh r st0 0 ctx st \<Longrightarrow> \<exists>st'. make_replicas (ctx\<lparr>mc_cur_replica := rp_name r\<rparr>) st = Some st'
      \<and> walking c sh r st0 0 (ctx\<lparr>mc_cur_replica := rp_name r\<rparr>) st'"
    by (rule walk_makes) simp_all
  show "walking c sh r st0 0 ctx st \<Longrightarrow> \<exists>st'. record_replica ctx now s a ready st = Some st' \<and> walking c sh r st0 1 ctx st'"
    for now s a ready using walk_records [of c sh r st0 0] by simp
  show "walking c sh r st0 0 ctx st \<Longrightarrow> walking c sh r st0 1 ctx st"
    using walked_more [of c sh r st0 0 ctx st 1] by (simp add: walking_def)
  show "walking c sh r st0 1 ctx st \<Longrightarrow> walked c sh r st0 2 ctx st"
    using walked_more [of c sh r st0 1 ctx st 2] by (simp add: walking_def)
  assume w: "walking c sh r st0 1 ctx st" and "replica_is_ready r (mc_cur_cluster ctx) (mc_cur_shard ctx) st"
    and "\<not> replica_is_sync r (mc_cur_cluster ctx) (mc_cur_shard ctx) st"
  moreover from w have "mc_cur_cluster ctx = c" "mc_cur_shard ctx = sh" by (auto simp: walking_def walked_def)
  ultimately show "\<exists>x. get_replica_status st r = Some x
      \<and> walked c sh r st0 2 ctx ((set_replica_status (mc_cur_cluster ctx) (mc_cur_shard ctx) (rp_name r)
          (x\<lparr>rs_state := sync\<rparr>) st)\<lparr>is_ready_replicas := is_ready_replicas st + 1\<rparr>)"
    using walk_tables [OF w] by (simp add: numeral_2_eq_2)
qed

section \<open>Properties\<close>

lemma walked_start:
  "mc_cur_cluster ctx = c \<Longrightarrow> mc_cur_shard ctx = sh \<Longrightarrow> names_ok st \<Longrightarrow> status_wf st \<Longrightarrow>
   cs_shards (status_cluster st c) \<noteq> None \<Longrightarrow> alone c sh (rp_name r) st \<Longrightarrow> walked c sh r st 0 ctx st"
  by (auto simp: walked_def same_others_def intro: replica_path.here)


definition machine_status :: installation_status where
  "machine_status = zero_status\<lparr>is_clusters := Some [(''c'', zero_cluster_status\<lparr>cs_shards := Some []\<rparr>)]\<rparr>"

definition machine_state :: "(server, (string \<times> string) list) mstate" where
  "machine_state = (example_state \<lparr>sr_objects = [], sr_faults = [Some Conflict]\<rparr>
     (zero_installation\<lparr>di_status := machine_status\<rparr>))\<lparr>ms_ctx := (name_context [] [])\<lparr>mc_cur_cluster := ''c'',
       mc_cur_shard := ''s''\<rparr>\<rparr>"

lemma machine_status_empty: "status_replica machine_status c sh r = None"
  by (simp add: machine_status_def status_replica_def status_shard_def status_cluster_def mget_or_def mget_def
      zero_cluster_status_def zero_shard_status_def)






end
