(* ===== verification/Deletion.thy ===== *)
theory Deletion
  imports Replica_Machine
begin

text \<open>
  Removing replicas and installations: what is gone after \<open>deleteReplica\<close> has succeeded, when a
  deletion is safe, and the two ways in which it goes wrong.
\<close>

section \<open>A whole installation\<close>

text \<open>
  The statuses deletion needs: one for every cluster of the normalized specification, and a shard map
  for the cluster whose shard is being deleted.
\<close>

definition listed :: "string set \<Rightarrow> member_context \<Rightarrow> installation_status \<Rightarrow> bool" where
  "listed N ctx st \<longleftrightarrow> names_ok st \<and> (\<forall>c \<in> N. mget (is_clusters st) c \<noteq> None)"

definition in_removal :: "string set \<Rightarrow> string \<Rightarrow> string \<Rightarrow> member_context \<Rightarrow> installation_status \<Rightarrow> bool" where
  "in_removal N c sh ctx st \<longleftrightarrow> listed N ctx st \<and> mc_cur_cluster ctx = c \<and> mc_cur_shard ctx = sh
     \<and> cs_shards (status_cluster st c) \<noteq> None"

lemma put_cluster_listed:
  "put_cluster_status c v st = Some st' \<Longrightarrow> mget (is_clusters st) k \<noteq> None \<Longrightarrow> mget (is_clusters st') k \<noteq> None"
  by (auto simp: put_cluster_status_def mget_def split: option.splits)

lemma put_shard_listed:
  "put_shard_status c s v st = Some st' \<Longrightarrow> mget (is_clusters st) k \<noteq> None \<Longrightarrow> mget (is_clusters st') k \<noteq> None"
  by (auto simp: put_shard_status_def simp del: not_None_eq dest: put_cluster_listed split: option.splits)

interpretation deleting: removal_relation "in_removal N c sh" for N c sh
proof
  fix ctx st
  show "in_removal N c sh ctx st \<Longrightarrow> names_ok st" by (simp add: in_removal_def listed_def)
  show "in_removal N c sh ctx st \<Longrightarrow> in_removal N c sh (ctx\<lparr>mc_cur_replica := x\<rparr>) st" for x
    by (simp add: in_removal_def listed_def)
  show "in_removal N c sh ctx st \<Longrightarrow> in_removal N c sh ctx (st\<lparr>is_deleted_replicas_count := k\<rparr>)" for k
    by (auto simp: in_removal_def listed_def elim: names_ok_cong [rotated])
  assume st: "in_removal N c sh ctx st"
  show "\<exists>st'. forget_replica_status ctx0 r st = Some st' \<and> in_removal N c sh ctx st'"
    if "in_removal N c sh ctx0 st0" for ctx0 st0 r
  proof -
    have c: "mc_cur_cluster ctx0 = c" "mc_cur_shard ctx0 = sh" using that by (simp_all add: in_removal_def)
    let ?x = "(status_shard st c sh)\<lparr>st_replicas := mdel (rp_name r) (st_replicas (status_shard st c sh))\<rparr>"
    obtain st' where w: "put_shard_status c sh ?x st = Some st'"
      using put_shard_status_defined [of c sh ?x st] st by (auto simp: in_removal_def)
    have "names_ok st'"
      by (rule put_shard_names_ok [OF w]) (use st in
        \<open>auto simp: in_removal_def listed_def names_ok_def status_replica_def mget_mdel split: if_splits\<close>)
    moreover have "\<forall>k \<in> N. mget (is_clusters st') k \<noteq> None"
      using st put_shard_listed [OF w] by (auto simp: in_removal_def listed_def simp del: not_None_eq)
    ultimately show ?thesis
      using w st c put_shard_shards [OF w]
      by (auto simp: forget_replica_status_def in_removal_def listed_def Let_def simp del: not_None_eq)
  qed
qed

lemma mark_shard_ok:
  assumes "listed N ctx st" "mc_cur_cluster ctx = c" "mc_cur_shard ctx = sh_name sh" "c \<in> N"
  shows "\<exists>st'. mark_shard_deleted c sh st = Some st' \<and> in_removal N c (sh_name sh) ctx st'"
proof -
  obtain cs where cs: "mget (is_clusters st) c = Some cs" using assms(1,4) by (auto simp: listed_def)
  then have at: "status_cluster st c = cs" by (simp add: status_cluster_def mget_or_def)
  let ?v = "cs\<lparr>cs_shards := Some (put (sh_name sh)
    (shard_being_deleted sh (map_of (mmake (cs_shards cs)) (sh_name sh))) (mmake (cs_shards cs)))\<rparr>"
  obtain st' where w: "put_cluster_status c ?v st = Some st'"
    using cs by (cases "is_clusters st") (auto simp: put_cluster_status_def mget_def)
  have old: "rs_name x = r" if "mget (st_replicas (mget_or zero_shard_status (cs_shards cs) s)) r = Some x" for s r x
    using that assms(1) at by (auto simp: listed_def names_ok_def status_replica_def status_shard_def)
  have new: "rs_name x = r"
    if "mget (st_replicas (shard_being_deleted sh (map_of (mmake (cs_shards cs)) s))) r = Some x" for s r x
    using that old [of s r x]
    by (cases "cs_shards cs")
      (auto simp: shard_being_deleted_def mget_or_def mget_def split: option.splits if_splits)
  have "names_ok st'"
  proof (rule put_cluster_names_ok [OF w])
    show "names_ok st" using assms(1) by (simp add: listed_def)
    show "rs_name x = r" if "mget (st_replicas (mget_or zero_shard_status (cs_shards ?v) s)) r = Some x" for s r x
      using that old [of s r x] new [of "sh_name sh" r x]
      by (cases "cs_shards cs") (auto simp: mget_or_def mget_def split: if_splits)
  qed
  moreover have "\<forall>k \<in> N. mget (is_clusters st') k \<noteq> None"
    using assms(1) put_cluster_listed [OF w] by (auto simp: listed_def simp del: not_None_eq)
  moreover have "cs_shards (status_cluster st' c) \<noteq> None"
    using put_cluster_status_Some [OF w, of c] by simp
  ultimately show ?thesis
    using w cs assms by (auto simp: mark_shard_deleted_def in_removal_def listed_def Let_def simp del: not_None_eq)
qed

context kube_removals
begin

lemma delete_shard_steps:
  fixes D :: "('w, 'd) deps"
  assumes D: "dp_kube D = K" and c: "c \<in> N"
  shows "steps ok (\<lambda>ctx st. listed N ctx st \<and> mc_cur_cluster ctx = c) (delete_shard D sh)
    (\<lambda>ctx st. listed N ctx st \<and> mc_cur_cluster ctx = c) (\<lambda>_. names_ok)"
  unfolding delete_shard_def
proof (rule steps_then [OF valid_set_ctx valid_read_holds])
  fix s0 :: "('w, 'd) mstate"
  let ?P = "\<lambda>ctx st. (listed N ctx st \<and> mc_cur_cluster ctx = c) \<and> mc_cur_shard ctx = sh_name sh"
  assume "?P (ms_ctx s0) (ms_status s0)"
  then have cur: "mc_cur_cluster (ms_ctx s0) = c" by simp
  have each: "steps ok (in_removal N c (sh_name sh)) (each (\<lambda>(_, r). delete_replica D r) rs)
      (\<lambda>ctx st. listed N ctx st \<and> mc_cur_cluster ctx = c) (\<lambda>_. names_ok)" for rs
    by (rule steps_keeps [OF keeps_each]) (auto intro: keeps_delete_replica [OF D deleting.removal_relation_axioms]
        simp: in_removal_def listed_def)
  show "steps ok (\<lambda>ctx st. ?P ctx st \<and> ctx = ms_ctx s0 \<and> st = ms_status s0)
      (andthen (write_status (mark_shard_deleted (mc_cur_cluster (ms_ctx s0)) sh))
        (each (\<lambda>(_, r). delete_replica D r) (mentries (sh_replicas sh))))
      (\<lambda>ctx st. listed N ctx st \<and> mc_cur_cluster ctx = c) (\<lambda>_. names_ok)"
    unfolding cur
    by (rule steps_then [OF valid_write_status [where P' = "in_removal N c (sh_name sh)"] each])
      (use mark_shard_ok c in blast)
qed (auto simp: listed_def)

lemma delete_clusters_steps:
  fixes D :: "('w, 'd) deps"
  assumes D: "dp_kube D = K" and N: "fst ` set cs \<subseteq> N"
  shows "steps ok (listed N)
    (each (\<lambda>(name, c). andthen (set_ctx (\<lambda>x. x\<lparr>mc_cur_cluster := name\<rparr>)) (delete_cluster D c)) cs)
    (listed N) (\<lambda>_. names_ok)"
proof (rule valid_each)
  fix p assume "p \<in> set cs"
  moreover obtain name c where p: "p = (name, c)" by fastforce
  ultimately have name: "name \<in> N" using N by force
  let ?at = "\<lambda>ctx st. listed N ctx st \<and> mc_cur_cluster ctx = name"
  have "steps ok ?at (delete_cluster D c) ?at (\<lambda>_. names_ok)"
    unfolding delete_cluster_def by (rule valid_each) (auto intro: delete_shard_steps [OF D name])
  then have cluster: "steps ok ?at (delete_cluster D c) (listed N) (\<lambda>_. names_ok)"
    by (rule steps_weaken) auto
  show "steps ok (listed N) (case p of (name, c) \<Rightarrow>
      andthen (set_ctx (\<lambda>x. x\<lparr>mc_cur_cluster := name\<rparr>)) (delete_cluster D c)) (listed N) (\<lambda>_. names_ok)"
    unfolding p prod.case by (rule steps_then [OF valid_set_ctx cluster]) (simp add: listed_def)
qed

end

lemma listed_state [simp]: "listed N ctx (st\<lparr>is_state := t\<rparr>) \<longleftrightarrow> listed N ctx st"
  using names_ok_cong [of "st\<lparr>is_state := t\<rparr>" st] names_ok_cong [of st "st\<lparr>is_state := t\<rparr>"]
  by (auto simp: listed_def)

lemma holds_any: "holds ok R s \<Longrightarrow> holds ok (\<lambda>_ _. True) s"
  by (simp add: holds_def)

context kube_answers
begin

lemma delete_normalized_steps:
  fixes D :: "('w, 'd) deps"
  assumes D: "dp_kube D = K" and N: "N = keys_of (mentries (cf_clusters (sp_configuration (no_spec n))))"
  shows "valid (holds ok (stat (listed N))) (delete_normalized D n)
    (\<lambda>_. holds ok (\<lambda>_ _. True)) (\<lambda>_. holds ok (\<lambda>_ _. True))"
proof -
  let ?L = "holds ok (stat (listed N)) :: ('w, 'd) mstate \<Rightarrow> bool"
  let ?T = "holds ok (\<lambda>_ _. True) :: ('w, 'd) mstate \<Rightarrow> bool"
  have keep: "valid ?L m (\<lambda>_. ?L) (\<lambda>_. ?T)" if "keeps ?L m" for m :: "('w, 'd, 'x) mprog"
    using that unfolding keeps_valid by (rule valid_weaken) (auto intro: holds_any)
  have state: "keeps ?L (on_status (\<lambda>st. st\<lparr>is_state := t\<rparr>))" for t
    by (rule keeps_on_status) simp
  have move: "keeps ?L (modify (\<lambda>s. s\<lparr>ms_ctx := delete_context n (ms_di s)\<rparr>))"
    by (rule keeps_modify) (simp add: holds_def stat_def listed_def)
  have clusters: "valid ?L
      (each (\<lambda>(name, c). andthen (set_ctx (\<lambda>x. x\<lparr>mc_cur_cluster := name\<rparr>)) (delete_cluster D c))
        (mentries (cf_clusters (sp_configuration (no_spec n))))) (\<lambda>_. ?L) (\<lambda>_. ?T)"
    by (rule valid_weaken [OF delete_clusters_steps [OF D]]) (auto simp: N intro: holds_any)
  have maps: "keeps ?L (bindp get_state (\<lambda>s. try_prog (on_world (delete_config_maps (dp_kube D) (ms_ctx s)))))"
    unfolding D by (auto intro!: preserves)
  have service: "keeps ?L (delete_service_for_installation D)"
    unfolding delete_service_for_installation_def D by (auto intro!: preserves)
  have report: "keeps ?L (try_prog (update_installation_status D True))"
    by (rule keeps_try, rule keeps_update_status [OF D]) (simp add: listed_def)
  have finalizer: "keeps ?L (set_di remove_finalizer)"
    unfolding set_di_def by (rule keeps_modify) (simp add: holds_def stat_def remove_finalizer_def)
  have upd: "valid ?L (update_di D) (\<lambda>_. ?T) (\<lambda>_. ?T)"
    by (rule valid_weaken [OF update_di_steps [OF D, of "listed N"]]) (auto simp: listed_def intro: holds_any)
  have last: "valid ?L (case r of Inl e \<Rightarrow>
        throw (if is_conflict e then RequeueError ''Conflict while updating status'' else e)
      | Inr _ \<Rightarrow> andthen (set_di remove_finalizer) (update_di D)) (\<lambda>_. ?T) (\<lambda>_. ?T)" for r :: "error + unit"
    by (auto intro!: valid_throw valid_bind [OF keep [OF finalizer]] upd intro: holds_any split: sum.splits)
  show ?thesis
    unfolding delete_normalized_def
    by (intro valid_bind [OF keep [OF state]] valid_bind [OF keep [OF move]] valid_bind [OF clusters]
        valid_bind [OF keep [OF maps]] valid_bind [OF keep [OF service]] valid_bind [OF keep [OF report]] last)
qed

end

section \<open>What a removed replica leaves\<close>

text \<open>The context and the relation while one replica is being removed.\<close>

definition removing :: "member_context \<Rightarrow> member_context \<Rightarrow> installation_status \<Rightarrow> bool" where
  "removing ctx0 ctx st \<longleftrightarrow> ctx = ctx0 \<and> names_ok st
     \<and> cs_shards (status_cluster st (mc_cur_cluster ctx)) \<noteq> None"

lemma removing_forgets:
  assumes "removing ctx0 ctx st"
  shows "\<exists>st'. forget_replica_status ctx0 r st = Some st' \<and> removing ctx0 ctx st'"
proof -
  have "in_removal {} (mc_cur_cluster ctx0) (mc_cur_shard ctx0) ctx st"
    using assms by (auto simp: removing_def in_removal_def listed_def)
  from deleting.forgets [OF this this, of r] show ?thesis
    using assms by (auto simp: removing_def in_removal_def listed_def forget_replica_status_def)
qed

context kube_removals
begin

text \<open>A successful \<open>Get\<close> and \<open>Delete\<close>, as the delete functions do it, leaves nothing behind.\<close>

lemma get_delete_gone:
  assumes "ok_kind k \<noteq> PvcKind"
  shows "valid ok
    (bindp (try_prog (decoded view (kc_get K k))) (\<lambda>r. case r of
       Inr _ \<Rightarrow> api (kc_delete K k) | Inl e \<Rightarrow> if is_not_found e then ret () else throw e))
    (\<lambda>_. gone ok objs k) (\<lambda>_. ok)"
proof (rule valid_bind)
  show "valid ok (try_prog (decoded view (kc_get K k)))
      (\<lambda>r w. ok w \<and> (r = Inl (Api NotFound) \<longrightarrow> objs w k = None)) (\<lambda>_. ok)"
  proof (rule valid_try, rule validI)
    fix w x w' assume "ok w" "decoded view (kc_get K k) w = (Done x, w')"
    then show "ok w' \<and> (Inr x = Inl (Api NotFound) \<longrightarrow> objs w' k = None)"
      using valid_Done [OF keeps_decoded [OF keeps_get, unfolded keeps_valid]] by fastforce
  next
    fix w e w' assume w: "ok w" and run: "decoded view (kc_get K k) w = (Err e, w')"
    have "objs w' k = None" if "e = Api NotFound"
      using run that get_missing get_err
      by (fastforce simp: decoded_def bindp_def api_def throw_def ret_def split: prod.splits sum.splits option.splits)
    then show "ok w' \<and> (Inl e = Inl (Api NotFound) \<longrightarrow> objs w' k = None)"
      using valid_Err [OF keeps_decoded [OF keeps_get, unfolded keeps_valid] w run] by simp
  next
    fix w msg w' assume "ok w"
    then show "decoded view (kc_get K k) w \<noteq> (Panic msg, w')"
      using valid_no_panic [OF keeps_decoded [OF keeps_get, unfolded keeps_valid]] by blast
  qed
next
  fix r :: "error + 'c"
  have "valid ok (api (kc_delete K k)) (\<lambda>_. gone ok objs k) (\<lambda>_. ok)"
    using assms delete_gone delete_keeps
    by (fastforce simp: valid_def api_def gone_def split: prod.splits sum.splits)
  then show "valid (\<lambda>w. ok w \<and> (r = Inl (Api NotFound) \<longrightarrow> objs w k = None))
      (case r of Inr _ \<Rightarrow> api (kc_delete K k) | Inl e \<Rightarrow> if is_not_found e then ret () else throw e)
      (\<lambda>_. gone ok objs k) (\<lambda>_. ok)"
    by (auto simp: gone_def is_not_found_def intro!: valid_ret valid_throw split: sum.splits)
qed

lemma keeps_delete_tables [preserves]: "keeps (holds ok R) (delete_tables D r)"
  unfolding delete_tables_def by (auto intro!: preserves)

lemma keeps_delete_pvc [preserves]:
  assumes D: "dp_kube D = K"
  shows "keeps (holds ok R) (delete_pvc D r)"
  unfolding delete_pvc_def D by (auto intro!: preserves)

end

text \<open>Steps on the world lift to triples, and commute with the combinators.\<close>

lemma valid_on_world:
  assumes "valid P m Q E"
  shows "valid (holds P R) (on_world m) (\<lambda>x. holds (Q x) R) (\<lambda>e. holds (E e) R)"
  unfolding valid_def
proof (intro allI impI)
  fix s :: "('a, 'c) mstate"
  assume h: "holds P R s"
  obtain out w' where m: "m (ms_world s) = (out, w')" by fastforce
  have "case out of Done x \<Rightarrow> Q x w' | Err e \<Rightarrow> E e w' | Panic _ \<Rightarrow> False"
    using assms h m by (fastforce simp: valid_def holds_def split: outcome.splits)
  then show "case on_world m s of (Done x, s') \<Rightarrow> holds (Q x) R s' | (Err e, s') \<Rightarrow> holds (E e) R s' | (Panic _, _) \<Rightarrow> False"
    using h by (auto simp: on_world_def m holds_def split: outcome.splits)
qed

lemma on_world_commutes:
  "bindp (on_world m) (\<lambda>x. on_world (f x)) = on_world (bindp m f)"
  "try_prog (on_world m) = on_world (try_prog m)"
  "ret x = on_world (ret x)" "throw e = on_world (throw e)"
  by (simp_all add: fun_eq_iff on_world_def bindp_def try_prog_def ret_def throw_def split: prod.splits outcome.splits)

lemma delete_stateful_set_on_world:
  "delete_stateful_set_for_replica D r = bindp get_state (\<lambda>s. on_world
     (bindp (try_prog (decoded as_stateful_set (kc_get (dp_kube D) (set_key (ms_ctx s) r)))) (\<lambda>res.
       case res of Inl e \<Rightarrow> if is_not_found e then ret () else throw e
       | Inr _ \<Rightarrow> api (kc_delete (dp_kube D) (set_key (ms_ctx s) r)))))"
  by (auto simp: delete_stateful_set_for_replica_def fun_eq_iff get_state_def bindp_def on_world_def try_prog_def
      ret_def throw_def split: prod.splits outcome.splits sum.splits)

lemma delete_config_map_eq: "delete_config_map K key =
  bindp (try_prog (decoded as_config_map (kc_get K key))) (\<lambda>r. case r of
    Inr _ \<Rightarrow> api (kc_delete K key) | Inl e \<Rightarrow> if is_not_found e then ret () else throw e)"
  and delete_service_eq: "delete_service K key =
  bindp (try_prog (decoded as_service (kc_get K key))) (\<lambda>r. case r of
    Inr _ \<Rightarrow> api (kc_delete K key) | Inl e \<Rightarrow> if is_not_found e then ret () else throw e)"
  by (simp_all add: delete_config_map_def delete_service_def)

definition replica_keys :: "member_context \<Rightarrow> replica \<Rightarrow> okey list" where
  "replica_keys ctx r = [set_key ctx r, OKey ConfigMapKind (mc_namespace ctx) (create_config_map_pod_name ctx),
     OKey ServiceKind (mc_namespace ctx) (rp_name r)]"

lemma valid_fails_anyhow: "valid P m Q E \<Longrightarrow> valid P m Q (\<lambda>_ _. True)"
  by (erule valid_weaken) auto

lemma valid_keeps_true: "keeps I m \<Longrightarrow> valid I m (\<lambda>_. I) (\<lambda>_ _. True)"
  unfolding keeps_valid by (rule valid_fails_anyhow)

context kube_removals
begin

lemma delete_body_steps:
  fixes D :: "('w, 'd) deps"
  assumes D: "dp_kube D = K"
  shows "valid (holds ok (stat (removing ctx0)))
    (andthen (delete_tables D r)
      (andthen (delete_stateful_set_for_replica D r)
      (andthen (on_status (\<lambda>st. st\<lparr>is_deleted_replicas_count := is_deleted_replicas_count st + 1\<rparr>))
      (andthen (write_status (forget_replica_status ctx0 r))
      (andthen (if b then delete_pvc D r else ret ())
      (andthen (on_world (delete_config_map K
          (OKey ConfigMapKind (mc_namespace ctx0) (create_config_map_pod_name ctx0))))
      (andthen (delete_service_for_replica D r)
        (update_installation_status D True))))))))
    (\<lambda>_ s. \<forall>k \<in> set (replica_keys ctx0 r). objs (ms_world s) k = None) (\<lambda>_ _. True)"
proof -
  let ?k1 = "set_key ctx0 r" and ?k2 = "OKey ConfigMapKind (mc_namespace ctx0) (create_config_map_pod_name ctx0)"
    and ?k3 = "OKey ServiceKind (mc_namespace ctx0) (rp_name r)"
  let ?ok1 = "gone ok objs ?k1"
  let ?ok2 = "gone ?ok1 objs ?k2"
  let ?ok3 = "gone ?ok2 objs ?k3"
  let ?R = "stat (removing ctx0)"
  have one: "kube_removals K objs ?ok1" by (rule removals_gone) (simp_all add: set_key_def)
  have two: "kube_removals K objs ?ok2" by (rule kube_removals.removals_gone [OF one]) simp_all
  have three: "kube_removals K objs ?ok3" by (rule kube_removals.removals_gone [OF two]) simp_all
  have set: "valid (holds ok ?R) (delete_stateful_set_for_replica D r) (\<lambda>_. holds ?ok1 ?R) (\<lambda>_ _. True)"
    unfolding delete_stateful_set_on_world D
  proof (rule valid_read_holds)
    fix s0 :: "('w, 'd) mstate"
    assume "removing ctx0 (ms_ctx s0) (ms_status s0)"
    then have ctx: "ms_ctx s0 = ctx0" by (simp add: removing_def)
    have "valid (holds ok ?R) (on_world
        (bindp (try_prog (decoded as_stateful_set (kc_get K ?k1))) (\<lambda>res.
          case res of Inl e \<Rightarrow> if is_not_found e then ret () else throw e | Inr _ \<Rightarrow> api (kc_delete K ?k1))))
        (\<lambda>_. holds ?ok1 ?R) (\<lambda>_. holds ok ?R)"
      by (rule valid_on_world [OF get_delete_gone]) (simp add: set_key_def)
    then show "valid (holds ok (stat (\<lambda>ctx st. removing ctx0 ctx st \<and> ctx = ms_ctx s0 \<and> st = ms_status s0)))
        (on_world (bindp (try_prog (decoded as_stateful_set (kc_get K (set_key (ms_ctx s0) r)))) (\<lambda>res.
          case res of Inl e \<Rightarrow> if is_not_found e then ret () else throw e
          | Inr _ \<Rightarrow> api (kc_delete K (set_key (ms_ctx s0) r)))))
        (\<lambda>_. holds ?ok1 ?R) (\<lambda>_ _. True)"
      unfolding ctx by (rule valid_weaken) (auto elim: stat_mono)
  qed
  have count: "valid (holds ?ok1 ?R) (on_status (\<lambda>st. st\<lparr>is_deleted_replicas_count := is_deleted_replicas_count st + 1\<rparr>))
      (\<lambda>_. holds ?ok1 ?R) (\<lambda>_ _. True)"
    by (rule valid_on_status) (auto simp: removing_def elim: names_ok_cong [rotated])
  have forget: "valid (holds ?ok1 ?R) (write_status (forget_replica_status ctx0 r)) (\<lambda>_. holds ?ok1 ?R) (\<lambda>_ _. True)"
    by (rule valid_write_status) (rule removing_forgets)
  have claims: "valid (holds ?ok1 ?R) (if b then delete_pvc D r else ret ()) (\<lambda>_. holds ?ok1 ?R) (\<lambda>_ _. True)"
    by (rule valid_keeps_true) (auto intro: kube_removals.keeps_delete_pvc [OF one D] keeps_ret)
  have maps: "valid (holds ?ok1 ?R) (on_world (delete_config_map K ?k2)) (\<lambda>_. holds ?ok2 ?R) (\<lambda>_ _. True)"
    unfolding delete_config_map_eq
    by (rule valid_fails_anyhow [OF valid_on_world [OF kube_removals.get_delete_gone [OF one]]]) simp
  have service: "valid (holds ?ok2 ?R) (delete_service_for_replica D r) (\<lambda>_. holds ?ok3 ?R) (\<lambda>_ _. True)"
    unfolding delete_service_for_replica_def D
  proof (rule valid_read_holds)
    fix s0 :: "('w, 'd) mstate"
    assume "removing ctx0 (ms_ctx s0) (ms_status s0)"
    then have ctx: "ms_ctx s0 = ctx0" by (simp add: removing_def)
    have "valid (holds ?ok2 ?R) (on_world (delete_service K ?k3)) (\<lambda>_. holds ?ok3 ?R) (\<lambda>_. holds ?ok2 ?R)"
      unfolding delete_service_eq by (rule valid_on_world [OF kube_removals.get_delete_gone [OF two]]) simp
    then show "valid (holds ?ok2 (stat (\<lambda>ctx st. removing ctx0 ctx st \<and> ctx = ms_ctx s0 \<and> st = ms_status s0)))
        (on_world (delete_service K (OKey ServiceKind (mc_namespace (ms_ctx s0)) (rp_name r))))
        (\<lambda>_. holds ?ok3 ?R) (\<lambda>_ _. True)"
      unfolding ctx by (rule valid_weaken) (auto elim: stat_mono)
  qed
  have report: "valid (holds ?ok3 ?R) (update_installation_status D True)
      (\<lambda>_ s. \<forall>k \<in> set (replica_keys ctx0 r). objs (ms_world s) k = None) (\<lambda>_ _. True)"
    by (rule valid_weaken [OF kube_removals.keeps_update_status [OF three D, of "removing ctx0", unfolded keeps_valid]])
      (auto simp: removing_def replica_keys_def holds_def gone_def)
  show ?thesis
    by (intro valid_bind [OF valid_keeps_true [OF keeps_delete_tables]] valid_bind [OF set] valid_bind [OF count]
        valid_bind [OF forget] valid_bind [OF claims] valid_bind [OF maps] valid_bind [OF service] report)
qed

end

section \<open>Properties\<close>

text \<open>
  C23: Deleting an installation does not panic as long as the status lists every cluster of the
  normalized specification, whichever requests fail.
\<close>

theorem deletion_never_panics:
  assumes "kube_answers K objs ok" "dp_kube D = K" "ok (ms_world s)" "names_ok (ms_status s)"
    and "\<forall>(name, c) \<in> set (mentries (cf_clusters (sp_configuration (no_spec n)))). mget (is_clusters (ms_status s)) name \<noteq> None"
  shows "case delete_normalized D n s of (res, s') \<Rightarrow> (\<forall>msg. res \<noteq> Panic msg) \<and> ok (ms_world s')"
proof -
  let ?N = "keys_of (mentries (cf_clusters (sp_configuration (no_spec n))))"
  note v = kube_answers.delete_normalized_steps [OF assms(1,2) refl, of n]
  have pre: "holds ok (stat (listed ?N)) s"
    using assms(3-5) by (fastforce simp: holds_def stat_def listed_def)
  obtain res s' where run: "delete_normalized D n s = (res, s')" by fastforce
  show ?thesis
    by (cases res) (use valid_Done [OF v pre] valid_Err [OF v pre] valid_no_panic [OF v pre] run in
      \<open>auto simp: holds_def\<close>)
qed

definition removal_spec :: normalized_spec where
  "removal_spec = \<lparr>no_spec = zero_spec\<lparr>sp_configuration := zero_configuration\<lparr>cf_clusters := Some [(''c'',
       zero_cluster\<lparr>cl_layout := zero_layout\<lparr>lo_shards := Some [(''s'', zero_shard\<lparr>sh_name := ''s'',
         sh_replicas := Some [([], zero_replica)]\<rparr>)]\<rparr>\<rparr>)]\<rparr>\<rparr>,
     no_volume_claim_templates = None, no_pod_templates = None\<rparr>"

definition removal_server :: server where
  "removal_server = \<lparr>sr_objects = [(OKey StatefulSetKind [] [], KStatefulSet ((example_set ''a'')\<lparr>set_meta := zero_meta\<rparr>))],
     sr_faults = []\<rparr>"

lemma removal_server_ok: "stored_well removal_server"
  by (simp add: stored_well_def store_def removal_server_def example_set_def)

theorem deletion_never_panics_witness:
  "case delete_normalized example_deps removal_spec
      (example_state removal_server (zero_installation\<lparr>di_status := machine_status\<rparr>)) of
    (res, s') \<Rightarrow> (\<forall>msg. res \<noteq> Panic msg) \<and> stored_well (ms_world s')"
proof -
  have "names_ok machine_status" by (simp add: names_ok_def machine_status_empty)
  moreover have "mget (is_clusters machine_status) ''c'' \<noteq> None"
    by (simp add: machine_status_def mget_def)
  ultimately show ?thesis
    using deletion_never_panics [OF answers.kube_answers_axioms, of example_deps
      "example_state removal_server (zero_installation\<lparr>di_status := machine_status\<rparr>)" removal_spec] removal_server_ok
    by (simp add: removal_spec_def)
qed

text \<open>
  C24: It does panic when the status does not list the cluster but the replica's stateful set exists, as
  it is when an installation is deleted before its first reconciliation has succeeded: the stateful
  set is deleted, then the write of the replica's status goes to a nil map.
\<close>

theorem deletion_panics:
  assumes "kc_get (dp_kube D) k w = (Inr (KStatefulSet x), w1)" "kc_get (dp_kube D) k w1 = (Inr (KStatefulSet x), w2)"
    and "kc_delete (dp_kube D) k w2 = (Inr (), w3)"
    and "k = OKey StatefulSetKind (mc_namespace (ms_ctx s)) (rp_name r)" "ms_world s = w"
    and "mget (is_clusters (ms_status s)) (mc_cur_cluster (ms_ctx s)) = None"
  shows "case delete_replica D r s of (res, s') \<Rightarrow> (\<exists>msg. res = Panic msg) \<and> ms_world s' = w3"
proof -
  have none: "cs_shards (status_cluster (ms_status s) (mc_cur_cluster (ms_ctx s))) = None"
    using assms(6) by (simp add: status_cluster_def mget_or_def zero_cluster_status_def)
  have forget: "forget_replica_status ctx r st = None"
    if "cs_shards (status_cluster st (mc_cur_cluster ctx)) = None" for ctx st
    using that put_shard_status_defined [of "mc_cur_cluster ctx" "mc_cur_shard ctx" _ st]
    by (simp add: forget_replica_status_def Let_def)
  obtain e db where t: "delete_tables_for_replica (dp_driver D) (dp_schemer D) (dp_sql D)
      (mc_namespace (ms_ctx s)) r (ms_db s) = (e, db)" by fastforce
  show ?thesis
    using assms(1-5) none
    by (simp add: delete_replica_def delete_tables_def delete_stateful_set_for_replica_def set_ctx_def on_status_def
        set_di_def write_status_def bindp_def try_prog_def on_world_def on_db_def modify_def modify_or_panic_def
        get_state_def decoded_def api_def as_stateful_set_def set_key_def ret_def t can_delete_all_pvcs_def forget)
qed

theorem deletion_panics_witness:
  "case delete_replica example_deps zero_replica (example_state removal_server zero_installation) of
    (res, s') \<Rightarrow> (\<exists>msg. res = Panic msg) \<and> ms_world s' = removal_server\<lparr>sr_objects := []\<rparr>"
proof -
  let ?k = "OKey StatefulSetKind [] []" and ?x = "(example_set ''a'')\<lparr>set_meta := zero_meta\<rparr>"
  have "store removal_server ?k = Some (KStatefulSet ?x)"
    by (simp add: store_def removal_server_def ob_key_def meta_key_def zero_meta_def)
  then have run: "kc_get server_kube ?k removal_server = (Inr (KStatefulSet ?x), removal_server)"
    "kc_delete server_kube ?k removal_server = (Inr (), removal_server\<lparr>sr_objects := []\<rparr>)"
    by (simp_all add: server_kube_def guarded_def next_fault_def removal_server_def drop_object_def)
  have ctx: "mc_namespace (name_context [] []) = []" "rp_name zero_replica = []"
    by (simp_all add: name_context_def zero_replica_def)
  show ?thesis
    by (rule deletion_panics [where k = ?k and D = example_deps, unfolded example_simps, OF run(1) run(1) run(2)])
      (simp_all add: ctx mget_def)
qed

text \<open>
  C14: A removal that succeeds for a replica whose stateful set is there leaves neither its stateful
  set nor its config map nor its service; no removal of a replica with a shard map panics.
\<close>

theorem replica_removed:
  assumes "kube_removals K objs ok" "dp_kube D = K" "ok (ms_world s)" "names_ok (ms_status s)"
    and "cs_shards (status_cluster (ms_status s) (mc_cur_cluster (ms_ctx s))) \<noteq> None"
    and "ctx = (ms_ctx s)\<lparr>mc_cur_replica := rp_name r\<rparr>" "objs (ms_world s) (set_key ctx r) \<noteq> None"
  shows "case delete_replica D r s of (res, s') \<Rightarrow> (\<forall>msg. res \<noteq> Panic msg)
    \<and> (res = Done () \<longrightarrow> (\<forall>k \<in> set (replica_keys ctx r). objs (ms_world s') k = None))"
proof -
  let ?s = "s\<lparr>ms_ctx := ctx\<rparr>"
  obtain g w' where g: "decoded as_stateful_set (kc_get K (set_key ctx r)) (ms_world s) = (g, w')" by fastforce
  have v: "valid ok (decoded as_stateful_set (kc_get K (set_key ctx r))) (\<lambda>_. ok) (\<lambda>_. ok)"
    using kube_removals.keeps_decoded [OF assms(1) kube_removals.keeps_get [OF assms(1)]] by (simp add: keeps_valid)
  have ok: "(\<forall>msg. g \<noteq> Panic msg) \<and> ok w'"
    by (cases g) (use valid_Done [OF v assms(3)] valid_Err [OF v assms(3)] valid_no_panic [OF v assms(3)] g in auto)
  have there: "g \<noteq> Err (Api NotFound)"
    using g assms(7) kube_api.get_missing [of K objs "set_key ctx r" "ms_world s"] kube_removals.axioms(1) [OF assms(1)]
    by (auto simp: decoded_def bindp_def api_def throw_def ret_def split: prod.splits sum.splits option.splits)
  let ?body = "andthen (delete_tables D r)
      (andthen (delete_stateful_set_for_replica D r)
      (andthen (on_status (\<lambda>st. st\<lparr>is_deleted_replicas_count := is_deleted_replicas_count st + 1\<rparr>))
      (andthen (write_status (forget_replica_status ctx r))
      (andthen (if sp_pv_reclaim_policy (di_spec (ms_di s)) = ''Delete'' then delete_pvc D r else ret ())
      (andthen (on_world (delete_config_map K
          (OKey ConfigMapKind (mc_namespace ctx) (create_config_map_pod_name ctx))))
      (andthen (delete_service_for_replica D r)
        (update_installation_status D True)))))))"
  have run: "delete_replica D r s = (case g of
      Err e \<Rightarrow> if is_not_found e then (Done (), ?s\<lparr>ms_world := w'\<rparr>) else (Err e, ?s\<lparr>ms_world := w'\<rparr>)
    | Panic msg \<Rightarrow> (Panic msg, ?s\<lparr>ms_world := w'\<rparr>)
    | Done x \<Rightarrow> ?body (?s\<lparr>ms_world := w'\<rparr>))"
    using g assms(2,6)
    by (simp add: delete_replica_def set_ctx_def modify_def get_state_def bindp_def [of "modify _"]
        bindp_def [of get_state] bindp_def [of "try_prog _"] try_prog_def on_world_def ret_def throw_def split: outcome.splits)
  have pre: "holds ok (stat (removing ctx)) (?s\<lparr>ms_world := w'\<rparr>)"
    using assms ok by (simp add: holds_def stat_def removing_def)
  have "case ?body (?s\<lparr>ms_world := w'\<rparr>) of (Done x, s') \<Rightarrow> \<forall>k \<in> set (replica_keys ctx r). objs (ms_world s') k = None
    | (Err e, s') \<Rightarrow> True | (Panic msg, s') \<Rightarrow> False"
    using kube_removals.delete_body_steps [OF assms(1,2), of ctx r, unfolded valid_def, rule_format, OF pre] .
  then show ?thesis
    using ok there by (auto simp: run is_not_found_def split: outcome.splits prod.splits)
qed

theorem replica_removed_witness:
  "case delete_replica example_deps zero_replica
      ((example_state removal_server (zero_installation\<lparr>di_status := machine_status\<rparr>))\<lparr>ms_ctx :=
         (name_context [] [])\<lparr>mc_cur_cluster := ''c''\<rparr>\<rparr>) of
    (res, s') \<Rightarrow> res = Done () \<longrightarrow> store (ms_world s') (OKey StatefulSetKind [] []) = None"
proof -
  let ?ctx = "(name_context [] [])\<lparr>mc_cur_cluster := ''c''\<rparr>"
  have "names_ok machine_status" by (simp add: names_ok_def machine_status_empty)
  moreover have "cs_shards (status_cluster machine_status ''c'') \<noteq> None"
    by (simp add: machine_status_def status_cluster_def mget_or_def mget_def)
  moreover have "store removal_server (OKey StatefulSetKind [] []) \<noteq> None"
    by (simp add: store_def removal_server_def ob_key_def meta_key_def zero_meta_def)
  ultimately show ?thesis
    using replica_removed [OF answers.kube_removals_axioms, of example_deps
      "(example_state removal_server (zero_installation\<lparr>di_status := machine_status\<rparr>))\<lparr>ms_ctx := ?ctx\<rparr>"
      "?ctx\<lparr>mc_cur_replica := []\<rparr>" zero_replica] removal_server_ok
    by (auto simp: set_key_def replica_keys_def name_context_def zero_replica_def example_state_def)
qed

text \<open>
  C33: A removal is not resumed: when the stateful set is already gone, by an earlier attempt that
  failed half-way or by hand, nothing is deleted. The claims, the config map and the service of the
  replica stay, and so does its status.
\<close>

theorem removal_not_resumed:
  assumes "kube_api K objs" "dp_kube D = K" "delete_replica D r s = (res, s')"
    and "objs (ms_world s) (OKey StatefulSetKind (mc_namespace (ms_ctx s)) (rp_name r)) = None"
  shows "objs (ms_world s') = objs (ms_world s) \<and> ms_status s' = ms_status s \<and> ms_db s' = ms_db s"
proof -
  let ?k = "OKey StatefulSetKind (mc_namespace (ms_ctx s)) (rp_name r)"
  obtain g w' where g: "kc_get K ?k (ms_world s) = (g, w')" by fastforce
  then have "\<exists>e. g = Inl e" using kube_api.get_ok [OF assms(1)] assms(4) by (cases g) fastforce+
  moreover have "objs w' = objs (ms_world s)" by (rule kube_api.get_pure [OF assms(1) g])
  ultimately show ?thesis
    using assms(2,3) g
    by (auto simp: delete_replica_def set_ctx_def modify_def get_state_def bindp_def try_prog_def on_world_def
        decoded_def api_def set_key_def ret_def throw_def split: if_splits)
qed

definition leftover_server :: server where
  "leftover_server = \<lparr>sr_objects = [(OKey ServiceKind [] [], KService
     \<lparr>sv_meta = zero_meta, sv_spec = \<lparr>vs_ports = [], vs_selector = None, vs_cluster_ip = [], vs_type = [],
        vs_publish_not_ready = False\<rparr>\<rparr>)], sr_faults = []\<rparr>"

theorem removal_not_resumed_witness:
  "store (ms_world (snd (delete_replica example_deps zero_replica (example_state leftover_server zero_installation))))
     (OKey ServiceKind [] []) \<noteq> None"
proof -
  obtain res s' where run: "delete_replica example_deps zero_replica (example_state leftover_server zero_installation)
      = (res, s')" by fastforce
  have "store leftover_server (OKey StatefulSetKind [] []) = None" "store leftover_server (OKey ServiceKind [] []) \<noteq> None"
    by (simp_all add: store_def leftover_server_def ob_key_def meta_key_def zero_meta_def)
  then show ?thesis
    using removal_not_resumed [OF server.kube_api_axioms _ run] run
    by (simp add: name_context_def zero_replica_def)
qed

end
