(* ===== verification/Controllers.thy ===== *)
theory Controllers
  imports Deletion
begin

text \<open>
  \<open>controllers/daisyinstallation_controller.go\<close> and \<open>controllers/daisytemplate_controller.go\<close>: one
  request to reconcile, and runs of the operator in which requests alternate with changes other
  clients make in the cluster.
\<close>

section \<open>Requests\<close>

text \<open>
  The result of \<open>Reconcile\<close>: whether the request is to be requeued, or an error, which requeues it,
  too. An installation that is not found any more is fine.
\<close>

definition reconcile_installation ::
  "('w, 'd) deps \<Rightarrow> string \<Rightarrow> string \<Rightarrow> ('w, 'd) mstate \<Rightarrow> (bool outcome \<times> ('w, 'd) mstate) option" where
  "reconcile_installation D ns name s =
     (case decoded as_installation (kc_get (dp_kube D) (OKey InstallationKind ns name)) (ms_world s) of
        (Err e, w) \<Rightarrow> Some (if is_not_found e then Done False else Err e, s\<lparr>ms_world := w\<rparr>)
      | (Panic msg, w) \<Rightarrow> Some (Panic msg, s\<lparr>ms_world := w\<rparr>)
      | (Done cur, w) \<Rightarrow>
          (case sync_installation D (s\<lparr>ms_world := w, ms_di := cur\<rparr>) of
             None \<Rightarrow> None
           | Some (Done _, s') \<Rightarrow> Some (Done False, s')
           | Some (Err e, s') \<Rightarrow> Some (if is_requeue_error e then Done True else Err e, s')
           | Some (Panic msg, s') \<Rightarrow> Some (Panic msg, s')))"

definition as_template :: "kobject \<Rightarrow> daisy_installation option" where
  "as_template ob = (case ob of KTemplate d \<Rightarrow> Some d | _ \<Rightarrow> None)"

text \<open>The finalizer is set on the object read, which is not written back.\<close>

definition reconcile_template ::
  "'w kube \<Rightarrow> string \<Rightarrow> string \<Rightarrow> 'w \<times> operator_config \<Rightarrow> bool outcome \<times> 'w \<times> operator_config" where
  "reconcile_template K ns name st =
     (case st of (w, conf) \<Rightarrow>
       (case decoded as_template (kc_get K (OKey TemplateKind ns name)) w of
          (Err e, w') \<Rightarrow> (if is_not_found e then Done False else Err e, w', conf)
        | (Panic msg, w') \<Rightarrow> (Panic msg, w', conf)
        | (Done dt, w') \<Rightarrow>
            if om_deletion_timestamp (di_meta dt) \<noteq> None then (Done False, w', delete_daisy_template dt conf)
            else (let dt' = add_finalizer dt in (Done False, w', conf))))"

section \<open>Runs\<close>

text \<open>
  A deletion is prepared when the status of the installation lists every cluster of its
  normalized specification; otherwise it may panic (see \<open>Deletion\<close>).
\<close>

definition prepared :: "('w, 'd) deps \<Rightarrow> ('w, 'd) mstate \<Rightarrow> bool" where
  "prepared D s \<longleftrightarrow>
     (case normalize D s of
        None \<Rightarrow> True
      | Some (n, _) \<Rightarrow> list_all (\<lambda>(name, _). mget (is_clusters (ms_status s)) name \<noteq> None)
          (mentries (cf_clusters (sp_configuration (no_spec n)))))"

definition may_reconcile :: "('w, 'd) deps \<Rightarrow> string \<Rightarrow> string \<Rightarrow> ('w, 'd) mstate \<Rightarrow> bool" where
  "may_reconcile D ns name s \<longleftrightarrow>
     (case kc_get (dp_kube D) (OKey InstallationKind ns name) (ms_world s) of
        (Inr (KInstallation d), w) \<Rightarrow>
          om_deletion_timestamp (di_meta d) = None \<or> prepared D (s\<lparr>ms_world := w, ms_di := d\<rparr>)
      | _ \<Rightarrow> True)"

datatype operator_event = Requested string string "bool outcome" | Outside

text \<open>One event: a request that returns, or any change of the cluster by other clients.\<close>

inductive operator_step ::
  "('w, 'd) deps \<Rightarrow> ('w \<Rightarrow> bool) \<Rightarrow> ('w, 'd) mstate \<Rightarrow> operator_event \<Rightarrow> ('w, 'd) mstate \<Rightarrow> bool"
  for D :: "('w, 'd) deps" and ok :: "'w \<Rightarrow> bool" where
  requested: "may_reconcile D ns name s \<Longrightarrow> reconcile_installation D ns name s = Some (r, s') \<Longrightarrow>
    operator_step D ok s (Requested ns name r) s'"
| outside: "ok w \<Longrightarrow> operator_step D ok s Outside (s\<lparr>ms_world := w\<rparr>)"

inductive operator_run ::
  "('w, 'd) deps \<Rightarrow> ('w \<Rightarrow> bool) \<Rightarrow> ('w, 'd) mstate \<Rightarrow> operator_event list \<Rightarrow> ('w, 'd) mstate \<Rightarrow> bool"
  for D :: "('w, 'd) deps" and ok :: "'w \<Rightarrow> bool" where
  start: "operator_run D ok s [] s"
| next_event: "operator_run D ok s es s' \<Longrightarrow> operator_step D ok s' e s'' \<Longrightarrow> operator_run D ok s (es @ [e]) s''"

inductive_cases requestedE: "operator_step D ok s (Requested ns name r) s'"
inductive_simps outside_iff [simp]: "operator_step D ok s Outside s'"

lemma no_panic_sync:
  assumes "kube_answers K objs ok" "dp_kube D = K" "ok (ms_world s)" "names_ok (ms_status s)"
    and "sync_installation D s = Some (r, s')"
    and "om_deletion_timestamp (di_meta (ms_di s)) = None \<or> prepared D s"
  shows "(\<forall>msg. r \<noteq> Panic msg) \<and> ok (ms_world s')"
proof (cases "om_deletion_timestamp (di_meta (ms_di s)) = None")
  case True
  obtain n s1 where s1: "ms_world s1 = ms_world s" "ms_status s1 = ms_status s"
    and run: "sync_normalized D (ms_status s) n s1 = (r, s')"
    using sync_installation_normalized [OF True assms(5)] by blast
  note v = kube_answers.sync_normalized_steps [OF assms(1,2), of "ms_status s" n]
  have pre: "holds ok (stat (\<lambda>_. names_ok)) s1" using assms(3,4) s1 by (simp add: holds_def stat_def)
  show ?thesis
    by (cases r) (use valid_Done [OF v pre] valid_Err [OF v pre] valid_no_panic [OF v pre] run in
      \<open>auto simp: holds_def\<close>)
next
  case False
  then have del: "delete_installation D s = Some (r, s')"
    using assms(5) by (simp add: sync_installation_def)
  show ?thesis
  proof (cases "in_array daisy_finalizer (om_finalizers (di_meta (ms_di s)))")
    case False
    then show ?thesis using del assms(3) by (auto simp: delete_installation_def ret_def)
  next
    case True
    then obtain n s1 where n: "normalize D s = Some (n, s1)" and run: "delete_normalized D n s1 = (r, s')"
      using del by (auto simp: delete_installation_def)
    have s1: "ms_world s1 = ms_world s" "ms_di s1 = ms_di s" using normalize_same [OF n] by simp_all
    let ?N = "keys_of (mentries (cf_clusters (sp_configuration (no_spec n))))"
    note v = kube_answers.delete_normalized_steps [OF assms(1,2) refl, of n]
    have "\<forall>c \<in> ?N. mget (is_clusters (ms_status s)) c \<noteq> None"
      using assms(6) n \<open>om_deletion_timestamp (di_meta (ms_di s)) \<noteq> None\<close>
      by (fastforce simp: prepared_def list_all_iff)
    then have pre: "holds ok (stat (listed ?N)) s1"
      using assms(3,4) s1 by (simp add: holds_def stat_def listed_def)
    show ?thesis
      by (cases r) (use valid_Done [OF v pre] valid_Err [OF v pre] valid_no_panic [OF v pre] run in
        \<open>auto simp: holds_def\<close>)
  qed
qed

lemma no_panic_reconcile:
  assumes K: "kube_answers K objs ok" "dp_kube D = K" and ok: "ok (ms_world s)"
    and run: "reconcile_installation D ns name s = Some (r, s')" and may: "may_reconcile D ns name s"
  shows "(\<forall>msg. r \<noteq> Panic msg) \<and> ok (ms_world s')"
proof -
  let ?get = "decoded as_installation (kc_get K (OKey InstallationKind ns name))"
  obtain g w where g: "?get (ms_world s) = (g, w)" by fastforce
  have v: "valid ok ?get (\<lambda>d w. ok w \<and> names_ok (di_status d)) (\<lambda>_. ok)"
    using kube_removals.gives_get_installation [OF kube_answers.axioms(1) [OF K(1)]] by (simp add: gives_def)
  show ?thesis
  proof (cases g)
    case (Done d)
    then have d: "ok w" "names_ok (di_status d)" using valid_Done [OF v ok] g by auto
    have "kc_get K (OKey InstallationKind ns name) (ms_world s) = (Inr (KInstallation d), w)"
      using g Done by (auto simp: decoded_def bindp_def api_def as_installation_def ret_def throw_def
          split: prod.splits sum.splits kobject.splits option.splits)
    then have may': "om_deletion_timestamp (di_meta d) = None \<or> prepared D (s\<lparr>ms_world := w, ms_di := d\<rparr>)"
      using may K(2) by (simp add: may_reconcile_def)
    obtain r1 where sync: "sync_installation D (s\<lparr>ms_world := w, ms_di := d\<rparr>) = Some (r1, s')"
      and r: "\<And>msg. r = Panic msg \<Longrightarrow> r1 = Panic msg"
      using run g Done K(2) by (auto simp: reconcile_installation_def split: option.splits outcome.splits if_splits)
    show ?thesis using no_panic_sync [OF K _ _ sync] d may' r by auto
  next
    case (Err e)
    then show ?thesis
      using run g K(2) valid_Err [OF v ok] by (auto simp: reconcile_installation_def split: if_splits)
  next
    case (Panic msg)
    then show ?thesis using valid_no_panic [OF v ok] g by auto
  qed
qed

section \<open>Properties\<close>

text \<open>
  C2: The operator survives every run: however requests for any installations and changes by other
  clients follow each other, and whatever requests to the API server fail on the way, no
  reconciliation panics, as long as no installation is deleted whose status lacks a cluster; what
  the operator leaves in the cluster stays well formed.
\<close>

theorem operator_survives:
  assumes "operator_run D ok s es s'" "kube_answers K objs ok" "dp_kube D = K" "ok (ms_world s)"
  shows "ok (ms_world s') \<and> (\<forall>ns name msg. Requested ns name (Panic msg) \<notin> set es)"
  using assms(1,4)
proof (induction rule: operator_run.induct)
  case (start s)
  then show ?case by simp
next
  case (next_event s es s' e s'')
  then have ok: "ok (ms_world s')" by blast
  from next_event.hyps(2) show ?case
  proof cases
    case (requested ns name r)
    then show ?thesis using no_panic_reconcile [OF assms(2,3) ok requested(3,2)] next_event by auto
  next
    case (outside w)
    then show ?thesis using next_event by auto
  qed
qed

theorem operator_survives_witness:
  "\<exists>s' r. operator_run example_deps stored_well (example_state \<lparr>sr_objects = [], sr_faults = []\<rparr> zero_installation)
     [Outside, Requested ''n'' ''i'' r] s' \<and> (\<forall>msg. r \<noteq> Panic msg) \<and> stored_well (ms_world s')"
proof -
  let ?s = "example_state \<lparr>sr_objects = [], sr_faults = []\<rparr> zero_installation"
  have get: "kc_get server_kube (OKey InstallationKind ''n'' ''i'') (ms_world ?s) = (Inl NotFound, ms_world ?s)"
    by (simp add: server_kube_def guarded_def next_fault_def store_def)
  have "operator_run example_deps stored_well ?s ([] @ [Outside]) (?s\<lparr>ms_world := ms_world ?s\<rparr>)"
    by (rule operator_run.next_event [OF operator_run.start operator_step.outside]) simp
  moreover have "?s\<lparr>ms_world := ms_world ?s\<rparr> = ?s" by simp
  moreover have "reconcile_installation example_deps ''n'' ''i'' ?s = Some (Done False, ?s)"
    using get by (simp add: reconcile_installation_def decoded_def bindp_def api_def is_not_found_def example_state_def)
  moreover have "may_reconcile example_deps ''n'' ''i'' ?s"
    using get by (simp add: may_reconcile_def)
  ultimately have run: "operator_run example_deps stored_well ?s ([Outside] @ [Requested ''n'' ''i'' (Done False)]) ?s"
    by (metis append_Nil operator_run.next_event operator_step.requested)
  have "stored_well (ms_world ?s)" by simp
  with operator_survives [OF run answers.kube_answers_axioms] run show ?thesis by fastforce
qed

text \<open>
  The template controller only forgets: a template that is being deleted is not found in the
  catalogue any more; every other request leaves the catalogue as it was, so new and changed templates
  are not taken over.
\<close>

lemma template_controller_forgets:
  "case reconcile_template K ns name (w, conf) of (r, w', conf') \<Rightarrow>
     conf' = conf \<or>
     (\<exists>dt. kc_get K (OKey TemplateKind ns name) w = (Inr (KTemplate dt), w') \<and> om_deletion_timestamp (di_meta dt) \<noteq> None
        \<and> r = Done False \<and> conf' = delete_daisy_template dt conf
        \<and> (di_name dt = [] \<or> find_template conf'
              \<lparr>ut_name = di_name dt, ut_namespace = di_namespace dt, ut_use_type = ty\<rparr> any = None))"
proof -
  have "di_name dt = [] \<or> find_template (delete_daisy_template dt conf)
      \<lparr>ut_name = di_name dt, ut_namespace = di_namespace dt, ut_use_type = ty\<rparr> any = None" for dt
    using find_after_delete [of dt "\<lparr>ut_name = di_name dt, ut_namespace = di_namespace dt, ut_use_type = ty\<rparr>" conf any]
    by (cases "di_name dt = []") simp_all
  then show ?thesis
    by (auto simp: reconcile_template_def decoded_def bindp_def api_def as_template_def ret_def throw_def Let_def
      split: prod.splits sum.splits kobject.splits option.splits outcome.splits if_splits)
qed

end
