(* ===== verification/Webhook.thy ===== *)
theory Webhook
  imports K8s_Utils
begin

text \<open>
  \<open>api/v1/daisyinstallation_webhook.go\<close>: the admission webhook of installations. The client the
  webhook keeps in a global variable is the parameter \<open>K\<close>. Quantities are bytes. A type assertion on
  a nil interface panics.
\<close>

section \<open>Defaulting\<close>

definition webhook_label :: string where
  "webhook_label = ''daisy.com/daisy-webhook-default''"

definition webhook_default :: "daisy_installation \<Rightarrow> daisy_installation" where
  "webhook_default r =
     r\<lparr>di_meta := (di_meta r)\<lparr>om_labels := Some (put webhook_label ''handled'' (mmake (om_labels (di_meta r))))\<rparr>\<rparr>"

section \<open>Storage\<close>

definition get_volume :: "daisy_installation \<Rightarrow> string \<Rightarrow> volume_claim_template option" where
  "get_volume di name =
     (case tp_volume_claim_templates (sp_templates (di_spec di)) of
        None \<Rightarrow> None
      | Some ts \<Rightarrow> find (\<lambda>t. vt_name t = name) ts)"

definition data_storage_min_size :: int where "data_storage_min_size = 1073741824"
definition log_storage_min_size :: int where "log_storage_min_size = 104857600"

definition check_volume :: "daisy_installation \<Rightarrow> string \<Rightarrow> int \<Rightarrow> ('w, unit) prog" where
  "check_volume di name minimum =
     (if name = [] then ret ()
      else case get_volume di name of
             Some v \<Rightarrow> if storage_of (vt_spec v) < minimum then throw (Failure ''unreasonable volume storage'')
                       else ret ()
           | None \<Rightarrow> throw (Failure ''volume not config, config it''))"

definition validate_storage_limit :: "daisy_installation \<Rightarrow> ('w, unit) prog" where
  "validate_storage_limit di =
     (if tp_volume_claim_templates (sp_templates (di_spec di)) = None then ret ()
      else andthen (check_volume di (tn_data_volume_claim_template (df_templates (sp_defaults (di_spec di))))
             data_storage_min_size)
        (check_volume di (tn_log_volume_claim_template (df_templates (sp_defaults (di_spec di)))) log_storage_min_size))"

definition webhook_compare_requests :: "pvc_spec \<Rightarrow> pvc_spec \<Rightarrow> storage_comparison" where
  "webhook_compare_requests initial updated =
     (let i = storage_of initial; u = storage_of updated
      in if i = 0 \<or> u = 0 then SameStorage
         else if u < i then DecreaseStorage else if i < u then IncreaseStorage else SameStorage)"

definition webhook_default_class :: "storage_class \<Rightarrow> bool" where
  "webhook_default_class sc \<longleftrightarrow>
     (if mlen (om_annotations (sc_meta sc)) = 0 then False
      else mget (om_annotations (sc_meta sc)) ''storageclass.kubernetes.io/is-default-class'' = Some ''true''
        \<or> mget (om_annotations (sc_meta sc)) ''storageclass.beta.kubernetes.io/is-default-class'' = Some ''true'')"

definition webhook_get_default_class :: "'w kube \<Rightarrow> ('w, storage_class) prog" where
  "webhook_get_default_class K =
     bindp (api (kc_list K StorageClassKind [] [])) (\<lambda>obs.
       case find webhook_default_class (List.map_filter as_storage_class obs) of
         Some sc \<Rightarrow> ret sc
       | None \<Rightarrow> throw (Failure ''no default storage class found''))"

definition webhook_get_class :: "'w kube \<Rightarrow> pvc_spec \<Rightarrow> ('w, storage_class) prog" where
  "webhook_get_class K claim =
     (case pv_storage_class_name claim of
        None \<Rightarrow> webhook_get_default_class K
      | Some name \<Rightarrow>
          if name = [] then webhook_get_default_class K
          else bindp (try_prog (decoded as_storage_class (kc_get K (OKey StorageClassKind [] name)))) (\<lambda>r.
            case r of Inl _ \<Rightarrow> throw (Failure ''cannot retrieve storage class'') | Inr sc \<Rightarrow> ret sc))"

definition webhook_allows_expansion :: "storage_class \<Rightarrow> bool" where
  "webhook_allows_expansion sc \<longleftrightarrow> (case sc_allow_expansion sc of None \<Rightarrow> False | Some b \<Rightarrow> b)"

text \<open>The test of \<open>allowsVolumeExpansion\<close> is commented out in the source.\<close>

definition webhook_ensure_expansion :: "'w kube \<Rightarrow> pvc_spec \<Rightarrow> bool \<Rightarrow> ('w, unit) prog" where
  "webhook_ensure_expansion K claim validate_storage_class =
     (if \<not> validate_storage_class then ret ()
      else bindp (webhook_get_class K claim) (\<lambda>_. ret ()))"

definition ensure_template_expansion :: "'w kube \<Rightarrow> daisy_installation \<Rightarrow> string \<Rightarrow> ('w, unit) prog" where
  "ensure_template_expansion K di name =
     (case get_volume di name of
        None \<Rightarrow> panic ''interface conversion''
      | Some v \<Rightarrow> webhook_ensure_expansion K (vt_spec v)
          (\<not> va_no_validate_storage_class (sp_validate (di_spec di))))"

definition validate_storage_class :: "'w kube \<Rightarrow> daisy_installation \<Rightarrow> ('w, unit) prog" where
  "validate_storage_class K di =
     (if tp_volume_claim_templates (sp_templates (di_spec di)) = None then ret ()
      else andthen (ensure_template_expansion K di
               (tn_data_volume_claim_template (df_templates (sp_defaults (di_spec di)))))
        (ensure_template_expansion K di
               (tn_log_volume_claim_template (df_templates (sp_defaults (di_spec di))))))"

section \<open>Scaling\<close>

text \<open>Asking for fewer clusters, or for fewer shards or replicas of one of them.\<close>

definition scales_in :: "configuration \<Rightarrow> configuration \<Rightarrow> bool" where
  "scales_in new old \<longleftrightarrow>
     mlen (cf_clusters new) < mlen (cf_clusters old)
     \<or> list_ex (\<lambda>(key, c). let was = cl_layout (mget_or zero_cluster (cf_clusters old) key) in
          lo_shards_count (cl_layout c) < lo_shards_count was \<or> lo_replicas_count (cl_layout c) < lo_replicas_count was)
         (mentries (cf_clusters new))"

definition valid_volume ::
  "'w kube \<Rightarrow> daisy_installation \<Rightarrow> daisy_installation \<Rightarrow> volume_claim_template \<Rightarrow> ('w, unit) prog" where
  "valid_volume K new old temp =
     (case get_volume new (vt_name temp) of
        None \<Rightarrow> panic ''interface conversion''
      | Some v \<Rightarrow>
          andthen (case webhook_compare_requests (vt_spec temp) (vt_spec v) of
              IncreaseStorage \<Rightarrow> validate_storage_class K new
            | DecreaseStorage \<Rightarrow> throw (Failure ''scal in not support'')
            | SameStorage \<Rightarrow> ret ())
          (if scales_in (di_configuration new) (di_configuration old)
           then throw (Failure ''scal in not support'') else ret ()))"

definition validate_scal_in_out ::
  "'w kube \<Rightarrow> daisy_installation \<Rightarrow> daisy_installation option \<Rightarrow> ('w, unit) prog" where
  "validate_scal_in_out K new old =
     (case (tp_volume_claim_templates (sp_templates (di_spec new)), old) of
        (Some ts, Some old_obj) \<Rightarrow> each (valid_volume K new old_obj) ts
      | _ \<Rightarrow> ret ())"

definition validate_create :: "daisy_installation \<Rightarrow> ('w, unit) prog" where
  "validate_create r = andthen (validate_storage_limit r) (ret ())"

definition validate_update :: "'w kube \<Rightarrow> daisy_installation \<Rightarrow> daisy_installation option \<Rightarrow> ('w, unit) prog" where
  "validate_update K r old = andthen (validate_storage_limit r) (andthen (validate_scal_in_out K r old) (ret ()))"

definition validate_delete :: "daisy_installation \<Rightarrow> ('w, unit) prog" where
  "validate_delete r = ret ()"

section \<open>Properties\<close>

text \<open>The webhook and the operator compare requests and storage classes alike.\<close>

lemma webhook_agrees:
  "webhook_compare_requests = compare_storage_requests" "webhook_default_class = is_default_storage_class"
  "webhook_get_default_class = get_default_storage_class" "webhook_get_class = get_storage_class"
  "webhook_allows_expansion = allows_volume_expansion"
proof -
  show cmp: "webhook_compare_requests = compare_storage_requests"
    by (simp add: fun_eq_iff webhook_compare_requests_def compare_storage_requests_def Let_def)
  show cls: "webhook_default_class = is_default_storage_class"
    by (auto simp: fun_eq_iff webhook_default_class_def is_default_storage_class_def)
  show def: "webhook_get_default_class = get_default_storage_class"
    unfolding webhook_get_default_class_def [abs_def] get_default_storage_class_def [abs_def] cls ..
  show "webhook_get_class = get_storage_class"
    unfolding webhook_get_class_def [abs_def] get_storage_class_def [abs_def] def ..
  show "webhook_allows_expansion = allows_volume_expansion"
    by (auto simp: fun_eq_iff webhook_allows_expansion_def allows_volume_expansion_def split: option.splits)
qed

definition volume_large_enough :: "daisy_installation \<Rightarrow> string \<Rightarrow> int \<Rightarrow> bool" where
  "volume_large_enough di name minimum \<longleftrightarrow>
     name = [] \<or> (\<exists>v. get_volume di name = Some v \<and> minimum \<le> storage_of (vt_spec v))"

lemma check_volume_done:
  "check_volume di name m w = (Done (), w') \<longleftrightarrow> w' = w \<and> volume_large_enough di name m"
  by (auto simp: check_volume_def volume_large_enough_def prog_defs split: option.splits)

text \<open>
  C36: An installation is admitted on creation exactly when it has no claim templates, or its default
  data template exists and asks for at least 1 GiB and its default log template exists and asks
  for at least 100 MiB, where they are named. The decision needs no request.
\<close>

theorem create_validation:
  fixes w :: 'w
  shows "validate_create di w = (Done (), w') \<longleftrightarrow> w' = w
     \<and> (tp_volume_claim_templates (sp_templates (di_spec di)) = None
        \<or> (volume_large_enough di (tn_data_volume_claim_template (df_templates (sp_defaults (di_spec di)))) 1073741824
           \<and> volume_large_enough di (tn_log_volume_claim_template (df_templates (sp_defaults (di_spec di)))) 104857600))"
proof -
  have same: "validate_create di = (validate_storage_limit di :: ('w, unit) prog)"
    by (simp add: validate_create_def bindp_def ret_def fun_eq_iff split: prod.splits outcome.splits)
  have then_done: "andthen m n w = (Done (), w') \<longleftrightarrow> (\<exists>w1. m w = (Done (), w1) \<and> n w1 = (Done (), w'))"
    for m n :: "('w, unit) prog" by (auto simp: bindp_def split: prod.splits outcome.splits)
  then show ?thesis unfolding same
    by (auto simp: validate_storage_limit_def then_done check_volume_done
        data_storage_min_size_def log_storage_min_size_def ret_def)
qed

lemma find_distinct:
  assumes "t \<in> set ts" "distinct (map vt_name ts)"
  shows "find (\<lambda>x. vt_name x = vt_name t) ts = Some t"
  using assms by (induction ts) auto

lemma valid_volume_itself:
  assumes "tp_volume_claim_templates (sp_templates (di_spec new)) = Some ts" "t \<in> set ts" "distinct (map vt_name ts)"
  shows "valid_volume K new old t =
    (if scales_in (di_configuration new) (di_configuration old) then throw (Failure ''scal in not support'') else ret ())"
proof -
  have "get_volume new (vt_name t) = Some t"
    using assms find_distinct by (simp add: get_volume_def)
  then show ?thesis by (simp add: valid_volume_def webhook_compare_requests_def Let_def)
qed


definition claim_of :: "int \<Rightarrow> volume_claim_template" where
  "claim_of n = \<lparr>vt_name = ''d'', vt_spec = \<lparr>pv_storage = Some n, pv_storage_class_name = None,
     pv_volume_mode = None, pv_other = []\<rparr>\<rparr>"

definition volume_installation :: "int \<Rightarrow> daisy_installation" where
  "volume_installation n = zero_installation\<lparr>di_spec := zero_spec\<lparr>sp_templates :=
     \<lparr>tp_pod_templates = None, tp_volume_claim_templates = Some [claim_of n]\<rparr>\<rparr>\<rparr>"


text \<open>
  Defaulting marks the installation as handled and changes nothing else: the other labels, the
  rest of the metadata, the specification and the status stay, and defaulting twice is defaulting
  once.
\<close>

lemma webhook_default_marks:
  "mget (om_labels (di_meta (webhook_default r))) k
     = (if k = ''daisy.com/daisy-webhook-default'' then Some ''handled'' else mget (om_labels (di_meta r)) k)
   \<and> (webhook_default r)\<lparr>di_meta := (di_meta r)\<rparr> = r
   \<and> (di_meta (webhook_default r))\<lparr>om_labels := om_labels (di_meta r)\<rparr> = di_meta r
   \<and> webhook_default (webhook_default r) = webhook_default r"
proof -
  have "put k v (put k v es) = put k v es" for k :: string and v :: string and es
    by (simp add: put_def update_nonempty)
  then show ?thesis
    by (cases "om_labels (di_meta r)") (simp_all add: webhook_default_def webhook_label_def mget_def)
qed

end
