(* ===== verification/Component_Properties.thy ===== *)
theory Component_Properties
  imports Controllers Webhook Operator_Config
begin

text \<open>
  Properties of single components that need no machinery of their own, and properties of the
  way the components work together: the names the deletion looks for, the pods the service
  selects, the schema of a new replica, the creation of a missing stateful set.
\<close>

section \<open>Settings and names\<close>

lemma fold_put_distinct:
  "keys_distinct (d @ es) \<Longrightarrow> fold (\<lambda>(k, v). put k v) es d = d @ es"
proof (induction es arbitrary: d)
  case (Cons e es)
  obtain k v where e: "e = (k, v)" by fastforce
  have "put k v d = d @ [(k, v)]" using Cons.prems e by (auto intro!: put_new)
  then show ?case using Cons.IH [of "d @ [(k, v)]"] Cons.prems e by simp
qed simp

text \<open>
  C25: Settings survive a round trip through JSON: decoding what was encoded gives the same paths with
  the same scalars and vectors, in the same order, for settings in which each value is a scalar
  or a vector that is not empty.
\<close>

theorem settings_json_roundtrip:
  assumes "keys_distinct es" "\<forall>(k, s) \<in> set es. canonical_setting s"
  shows "unmarshal_json None (marshal_json (Some es)) = Some (Some es)"
  using assms fold_unmarshal_marshal [OF assms(2), of "[]"] fold_put_distinct [of "[]" es]
  by (simp add: unmarshal_json_def marshal_json_def)

theorem settings_json_roundtrip_witness:
  "unmarshal_json None (marshal_json (Some [(''a'', new_scalar_setting ''x''), (''b'', new_vector_setting [''y'', ''z''])]))
     = Some (Some [(''a'', new_scalar_setting ''x''), (''b'', new_vector_setting [''y'', ''z''])])"
  by (rule settings_json_roundtrip)
    (simp_all add: canonical_setting_def new_scalar_setting_def new_vector_setting_def)

text \<open>
  A port is read as a signed 32-bit number: a configured value in that range is returned as it is,
  any other value wraps around and becomes a different port; a setting that is missing, a vector or
  not a number reads as port 0.
\<close>

lemma port_range:
  "(sint (fetch_port settings name) = get_value_as_int settings name
      \<longleftrightarrow> - (2 ^ 31) \<le> get_value_as_int settings name \<and> get_value_as_int settings name < 2 ^ 31)
   \<and> (get_value_as_scalar settings name = None \<longrightarrow> fetch_port settings name = 0)"
proof -
  have "signed_take_bit 31 v = v \<longleftrightarrow> - (2 ^ 31) \<le> v \<and> v < 2 ^ 31" for v :: int
    by (rule signed_take_bit_int_eq_self_iff)
  then show ?thesis by (simp add: sint_fetch_port) (simp add: fetch_port_def get_value_as_int_def)
qed

theorem port_range_witness:
  "fetch_port (Some [(''tcp_port'', new_vector_setting [''1''])]) ''tcp_port'' = 0"
proof -
  have "get_value_as_scalar (Some [(''tcp_port'', new_vector_setting [''1''])]) ''tcp_port'' = None"
    by (simp add: get_value_as_scalar_def new_vector_setting_def is_scalar_def mget_def)
  then show ?thesis using port_range [of "Some [(''tcp_port'', new_vector_setting [''1''])]" "''tcp_port''"] by simp
qed

text \<open>
  The numbers of new replicas avoid the delete slots without gaps: the \<open>i\<close>-th replica of a shard
  gets the number that has exactly \<open>i\<close> free numbers below it and is no slot itself; different replicas
  get different numbers.
\<close>

lemma replica_numbering:
  assumes "finite slots" "\<forall>x \<in> slots. 0 \<le> x" "0 \<le> i" "0 \<le> j"
  shows "get_next_index i slots \<notin> slots \<and> int (card ({0..<get_next_index i slots} - slots)) = i
    \<and> (get_next_index i slots = get_next_index j slots \<longleftrightarrow> i = j)"
  using get_next_index_not_skipped [OF assms(1), of i] get_next_index_counts [OF assms(1,2,3)]
    get_next_index_inject [OF assms(1), of i j] by auto

theorem replica_numbering_witness: "get_next_index 1 {0, 2} = 3"
proof -
  have "get_next_index 1 {0, 2} \<notin> {0, 2} \<and> int (card ({0..<get_next_index 1 {0, 2}} - {0, 2})) = 1"
    using replica_numbering [of "{0, 2}" 1 1] by simp
  moreover have "get_next_index 1 {0, 2} = 3" by code_simp
  ultimately show ?thesis by simp
qed

text \<open>
  Path normalization is a projection: normalizing a second time changes nothing, every path of the
  result is in normal form, and the paths of the result are exactly the normal forms of the paths
  there were.
\<close>

lemma normalize_paths_projection:
  "normalize_paths (normalize_paths es) = normalize_paths es
    \<and> keys_of (normalize_paths es) = normalize_key ` keys_of es"
proof
  have nk: "normalize_key k = k" if "k \<in> keys_of (normalize_paths es)" for k
    using that by (rule normalize_paths_keys)
  then show "normalize_paths (normalize_paths es) = normalize_paths es" by (intro normalize_paths_id ballI)
  have "k \<in> normalize_key ` keys_of es" if k: "k \<in> keys_of (normalize_paths es)" for k
  proof -
    obtain v where "map_of (normalize_paths es) k = Some v" using k by (metis map_of_eq_None_iff not_None_eq)
    from normalize_paths_origin [OF this] obtain p where "map_of es p = Some v" "normalize_key p = k" by blast
    then show ?thesis by (metis imageI map_of_eq_None_iff option.distinct(1))
  qed
  then show "keys_of (normalize_paths es) = normalize_key ` keys_of es"
    using normalize_paths_covers by blast
qed


section \<open>Names and labels across components\<close>

text \<open>A label selector of Kubernetes asks for every pair it has.\<close>

definition selects :: "string gomap \<Rightarrow> label \<Rightarrow> bool" where
  "selects sel labels \<longleftrightarrow> list_all (\<lambda>(k, v). map_of labels k = Some v) (mentries sel)"

lemmas label_defs = label_replica_def label_installation_def lbl_instance_def lbl_cluster_def lbl_shard_name_def lbl_replica_name_def
  label_new_def label_keys

lemma label_replica_lookup:
  "map_of (label_replica ctx r) instance_label_key = Some (mc_installation ctx)"
  by (simp add: label_defs)


lemma label_replica_same:
  assumes "mc_cur_cluster a = mc_cur_cluster b" "mc_cur_shard a = mc_cur_shard b"
  shows "map_of (label_replica a r) = map_of (label_replica b r) \<longleftrightarrow> mc_installation a = mc_installation b"
proof
  show "mc_installation a = mc_installation b" if "map_of (label_replica a r) = map_of (label_replica b r)"
    using that label_replica_lookup [of a r] label_replica_lookup [of b r] by simp
  show "map_of (label_replica a r) = map_of (label_replica b r)" if "mc_installation a = mc_installation b"
    unfolding label_replica_def that assms ..
qed

text \<open>
  Synchronization names config maps and labels after the installation, deletion after its instance
  label: the deletion finds the config maps, and the claims by their labels, exactly when the two are
  the same.
\<close>

lemma deletion_names:
  "(om_name (cmap_meta (get_config_map_common D s)) = create_config_map_common_name (delete_context n (ms_di s))
      \<longleftrightarrow> get_instance_name (ms_di s) = di_name (ms_di s))
   \<and> (om_name (cmap_meta (get_config_map_common_users s)) = create_config_map_common_users_name (delete_context n (ms_di s))
      \<longleftrightarrow> get_instance_name (ms_di s) = di_name (ms_di s))
   \<and> (map_of (label_replica (sync_context n (ms_di s)) r) = map_of (label_replica (delete_context n (ms_di s)) r)
      \<longleftrightarrow> get_instance_name (ms_di s) = di_name (ms_di s))"
  by (auto simp: label_replica_same get_config_map_common_def get_config_map_common_users_def Let_def
      new_config_map_def config_map_names name_context_def delete_context_def sync_context_def)

section \<open>The schema of a replica\<close>

lemma replica_apply_nothing: "replica_apply_sqls dr sm ns r [] again s = (None, get_pooled (host_params sm (create_pod_fqdn ns r)) s)"
  using apply_host_nothing [of dr sm again "create_pod_fqdn ns r" 0 s]
  by (simp add: replica_apply_sqls_def apply_sqls_def)

lemma no_shards:
  assumes "list_all (\<lambda>(k, c). mlen (lo_shards (cl_layout c)) = 0) (mentries (cf_clusters (di_configuration di)))"
  shows "create_pod_fqdns_of_cluster c di = []" "get_normal_pod_fqdns_of_shard c sh di = []"
proof -
  have none: "mentries (lo_shards (cl_layout x)) = []" if "mget (cf_clusters (di_configuration di)) c = Some x" for x c
    using that assms by (cases "cf_clusters (di_configuration di)") (auto simp: list_all_iff mget_def mlen_def dest!: map_of_SomeD)
  then show "create_pod_fqdns_of_cluster c di = []"
    by (auto simp: create_pod_fqdns_of_cluster_def loop_shards_def split: option.splits)
  have "shard_of c sh di = None"
    using none [of c] by (cases "mget (cf_clusters (di_configuration di)) c")
     (auto simp: shard_of_def mget_or_def mget_def zero_cluster_def zero_layout_def mentries_def split: option.splits)
  then show "get_normal_pod_fqdns_of_shard c sh di = []"
    by (simp add: get_normal_pod_fqdns_of_shard_def)
qed

lemma create_tables_nothing:
  assumes "list_all (\<lambda>(k, c). mlen (lo_shards (cl_layout c)) = 0) (mentries (cf_clusters (di_configuration di)))"
  shows "create_tables_for_replica dr sm sq ctx di r s = (None, get_pooled (host_params sm (create_pod_fqdn (mc_namespace ctx) r)) s)"
  by (simp add: create_tables_for_replica_def get_create_replica_objects_def get_create_distributed_objects_def
    no_shards [OF assms] replica_apply_nothing get_pooled_idem Let_def)

text \<open>
  C31: The statements for a new replica are collected from the hosts that the user's own specification
  lists, not the normalized one: for an installation that gives counts and leaves shards and replicas
  to the operator, synchronizing the tables runs no statement at all, although the replica is marked
  as synchronized.
\<close>

theorem schema_not_created:
  assumes "list_all (\<lambda>(k, c). mlen (lo_shards (cl_layout c)) = 0) (mentries (cf_clusters (di_configuration (ms_di s))))"
    and "c = mc_cur_cluster (ms_ctx s)" "sh = mc_cur_shard (ms_ctx s)"
    and "replica_is_ready r c sh (ms_status s)" "\<not> replica_is_sync r c sh (ms_status s)"
    and "get_replica_status (ms_status s) r = Some x"
  shows "case sync_tables D r s of (res, s') \<Rightarrow> res = Done () \<and> db_world (ms_db s') = db_world (ms_db s)
    \<and> ms_status s' = (set_replica_status c sh (rp_name r) (x\<lparr>rs_state := sync\<rparr>) (ms_status s))
        \<lparr>is_ready_replicas := is_ready_replicas (ms_status s) + 1\<rparr>"
proof -
  have "db_world (get_pooled c d) = db_world d" for c and d :: "'b db_state" by (simp add: get_pooled_def)
  then show ?thesis
    using assms(2-)
    by (simp add: sync_tables_def bindp_def get_state_def ret_def modify_def on_db_def
       create_tables_nothing [OF assms(1)] on_status_def set_di_def Let_def)
qed

definition ready_status :: installation_status where
  "ready_status = zero_status\<lparr>is_clusters := Some [(''c'', zero_cluster_status\<lparr>cs_shards := Some [(''s'',
     zero_shard_status\<lparr>st_replicas := Some [([], zero_replica_status\<lparr>rs_phase := ReadyPhase, rs_state := not_sync\<rparr>)]\<rparr>)]\<rparr>)]\<rparr>"

theorem schema_not_created_witness:
  "let s = (example_state \<lparr>sr_objects = [], sr_faults = []\<rparr> (zero_installation\<lparr>di_status := ready_status\<rparr>))
         \<lparr>ms_ctx := (name_context [] [])\<lparr>mc_cur_cluster := ''c'', mc_cur_shard := ''s''\<rparr>\<rparr>;
       (res, s') = sync_tables example_deps zero_replica s
   in res = Done () \<and> db_world (ms_db s') = db_world (ms_db s) \<and> is_ready_replicas (ms_status s') = 1"
proof -
  let ?s = "(example_state \<lparr>sr_objects = [], sr_faults = []\<rparr> (zero_installation\<lparr>di_status := ready_status\<rparr>))
     \<lparr>ms_ctx := (name_context [] [])\<lparr>mc_cur_cluster := ''c'', mc_cur_shard := ''s''\<rparr>\<rparr>"
  have r: "replica_is_ready zero_replica ''c'' ''s'' ready_status" "\<not> replica_is_sync zero_replica ''c'' ''s'' ready_status"
    "get_replica_status ready_status zero_replica = Some (zero_replica_status\<lparr>rs_phase := ReadyPhase, rs_state := not_sync\<rparr>)"
    by code_simp+
  have "is_ready_replicas ready_status = 0" by code_simp
  then show ?thesis
    using schema_not_created [of ?s "''c''" "''s''" zero_replica _ example_deps] r
    by (auto simp: zero_installation_def zero_spec_def zero_configuration_def split: prod.splits)
qed

section \<open>A missing stateful set\<close>

lemma set_key_of_new: "ob_key (KStatefulSet (get_stateful_set_for_replica ctx di r)) = set_key ctx r"
  by (simp add: wanted_meta bare_stateful_set_def set_key_def ob_key_def meta_key_def)

lemma last_applied_key: "set_stateful_set_last_applied cd s = Inr x \<Longrightarrow> ob_key (KStatefulSet x) = ob_key (KStatefulSet s)"
  by (auto simp: set_stateful_set_last_applied_def set_annotation_def ob_key_def meta_key_def split: option.splits)

lemma label_pod_done: "\<exists>w'. label_pod K key w = (Done (), w')"
  by (auto simp: label_pod_def bindp_def try_prog_def decoded_def api_def ret_def throw_def split: prod.splits outcome.splits sum.splits option.splits)

lemma sync_pod_label_done: "\<exists>w. sync_pod_label D r s0 s = (Done (), s\<lparr>ms_world := w\<rparr>)"
  using label_pod_done [of "dp_kube D" "OKey PodKind (mc_namespace (ms_ctx s0)) (rp_name r @ ''-0'')" "ms_world s"]
  by (auto simp: sync_pod_label_def ret_def on_world_def Let_def split: option.splits prod.splits)
    (metis mstate.surjective mstate.update_convs(1))+

lemma marshal_no_requeue: "set_stateful_set_last_applied cd s \<noteq> Inl (RequeueError e)"
  by (simp add: set_stateful_set_last_applied_def split: option.splits)

lemma created_set:
  assumes "kube_api K objs" "dp_kube D = K" "create_stateful_set D new s = (res, s')"
  shows "res \<noteq> Done () \<and> (\<forall>e. res = Err (RequeueError e) \<longrightarrow>
    (\<exists>x. objs (ms_world s') (ob_key (KStatefulSet new)) = Some (KStatefulSet x)))"
proof -
  have stored: "objs w' (ob_key (KStatefulSet new)) = Some ob"
    if "set_stateful_set_last_applied (dp_codec D) new = Inr y" "kc_create K (KStatefulSet y) w = (Inr ob, w')" for y w ob w'
    using kube_api.create_ok [OF assms(1) that(2)] last_applied_key [OF that(1)] by simp
  show ?thesis
    using assms(2,3)
    by (auto simp: create_stateful_set_def from_sum_def bindp_def on_world_def decoded_def api_def ret_def throw_def
      sync_replica_status_def write_status_def modify_or_panic_def get_state_def panic_def as_stateful_set_def
      marshal_no_requeue stored
      split: sum.splits prod.splits option.splits outcome.splits kobject.splits)
qed


end
