(* ===== verification/Serving.thy ===== *)
theory Serving
  imports Sync_Safety Component_Properties
begin

text \<open>
  An environment in which every request succeeds: an API server that serves every request and
  stores what it is given (the locales \<open>kube_reads\<close> and \<open>kube_serves\<close>), and databases that run every statement. The
  requests of the operator are shown to succeed there; a triple \<open>brings P m Q\<close> says that a program
  succeeds from one assertion to another.
\<close>

section \<open>A server that serves every request\<close>

locale kube_reads = kube_api K objs
  for K :: "'w kube" and objs :: "'w \<Rightarrow> okey \<Rightarrow> kobject option" +
  fixes up :: "'w \<Rightarrow> bool"
  assumes get_serves: "up w \<Longrightarrow> \<exists>w'. up w' \<and> objs w' = objs w
      \<and> kc_get K k w = (case objs w k of None \<Rightarrow> Inl NotFound | Some ob \<Rightarrow> Inr ob, w')"
    and status_serves: "up w \<Longrightarrow> objs w (ob_key (KInstallation d)) = Some (KInstallation (d\<lparr>di_status := st\<rparr>)) \<Longrightarrow> \<exists>w'. up w'
      \<and> objs w' = (objs w)(ob_key (KInstallation d) \<mapsto> KInstallation d)
      \<and> kc_update_status K (KInstallation d) w = (Inr (KInstallation d), w')"
    and stays: "up w \<Longrightarrow> objs w k = Some ob \<Longrightarrow> \<not> leaving ob"

text \<open>
  An update of an installation does not report its status: the server may keep the one it has and
  answer with that.
\<close>

definition as_updated :: "kobject \<Rightarrow> kobject \<Rightarrow> bool" where
  "as_updated ob ob' \<longleftrightarrow> (case (ob, ob') of
     (KInstallation d, KInstallation d') \<Rightarrow> d'\<lparr>di_status := di_status d\<rparr> = d
   | _ \<Rightarrow> ob' = ob)"

locale kube_serves = kube_reads K objs up
  for K :: "'w kube" and objs :: "'w \<Rightarrow> okey \<Rightarrow> kobject option" and up :: "'w \<Rightarrow> bool" +
  assumes create_serves: "up w \<Longrightarrow> objs w (ob_key ob) = None \<Longrightarrow> \<not> leaving ob \<Longrightarrow> \<exists>w'. up w'
      \<and> objs w' = (objs w)(ob_key ob \<mapsto> ob) \<and> kc_create K ob w = (Inr ob, w')"
    and update_serves: "up w \<Longrightarrow> objs w (ob_key ob) \<noteq> None \<Longrightarrow> \<not> leaving ob \<Longrightarrow> \<exists>ob' w'. up w'
      \<and> as_updated ob ob' \<and> objs w' = (objs w)(ob_key ob \<mapsto> ob') \<and> kc_update K ob w = (Inr ob', w')"

text \<open>A program that succeeds, from one assertion to another.\<close>

definition brings :: "('s \<Rightarrow> bool) \<Rightarrow> ('s, 'a) prog \<Rightarrow> ('s \<Rightarrow> bool) \<Rightarrow> bool" where
  "brings P m Q \<longleftrightarrow> (\<forall>s. P s \<longrightarrow> (\<exists>x s'. m s = (Done x, s') \<and> Q s'))"

abbreviation served :: "('s \<Rightarrow> bool) \<Rightarrow> ('s, 'a) prog \<Rightarrow> bool" where
  "served I m \<equiv> brings I m I"

lemma bringsI: "(\<And>s. P s \<Longrightarrow> \<exists>x s'. m s = (Done x, s') \<and> Q s') \<Longrightarrow> brings P m Q"
  by (simp add: brings_def)

lemmas servedI = bringsI

lemma brings_run: "brings P m Q \<Longrightarrow> P s \<Longrightarrow> \<exists>x s'. m s = (Done x, s') \<and> Q s'"
  by (simp add: brings_def)

lemma brings_ret: "(\<And>s. P s \<Longrightarrow> Q s) \<Longrightarrow> brings P (ret x) Q"
  by (simp add: brings_def ret_def)

lemma served_ret: "served I (ret x)"
  by (rule brings_ret)

lemma brings_bind:
  assumes "brings P m R" "\<And>x. brings R (f x) Q"
  shows "brings P (bindp m f) Q"
proof (rule bringsI)
  fix s assume "P s"
  then obtain x s1 where "m s = (Done x, s1)" "R s1" using brings_run [OF assms(1)] by blast
  then show "\<exists>y s'. bindp m f s = (Done y, s') \<and> Q s'"
    using brings_run [OF assms(2)] by (simp add: bindp_def)
qed

lemma served_bind: "served I m \<Longrightarrow> (\<And>x. served I (f x)) \<Longrightarrow> served I (bindp m f)"
  by (rule brings_bind)

lemma brings_weaken: "brings P' m Q' \<Longrightarrow> (\<And>s. P s \<Longrightarrow> P' s) \<Longrightarrow> (\<And>s. Q' s \<Longrightarrow> Q s) \<Longrightarrow> brings P m Q"
  unfolding brings_def by blast

lemma brings_read: "(\<And>s0. P s0 \<Longrightarrow> brings (\<lambda>s. s = s0) (f s0) Q) \<Longrightarrow> brings P (bindp get_state f) Q"
  by (simp add: brings_def bindp_def get_state_def)

lemma served_each: "(\<And>x. x \<in> set xs \<Longrightarrow> served I (f x)) \<Longrightarrow> served I (each f xs)"
  by (induction xs) (auto intro: served_ret served_bind)

text \<open>A loop in which each element adds its weight to a count.\<close>

lemma brings_each_count:
  fixes w :: "'x \<Rightarrow> int"
  assumes "\<And>x n. x \<in> set xs \<Longrightarrow> brings (I n) (f x) (I (n + w x))"
  shows "brings (I n) (each f xs) (I (n + sum_list (map w xs)))"
  using assms
proof (induction xs arbitrary: n)
  case Nil
  then show ?case by (simp add: served_ret)
next
  case (Cons x xs)
  have "brings (I (n + w x)) (each f xs) (I (n + w x + sum_list (map w xs)))"
    using Cons.prems by (intro Cons.IH) simp
  then show ?case
    using Cons.prems [of x n] by (simp add: add.assoc brings_bind)
qed

text \<open>
  What stays true of the stored objects until the status is reported: the stateful sets are not touched, claims are neither
  added nor removed, installations are as they were, the annotation of a service can be read.
\<close>

definition service_parses :: "codec \<Rightarrow> service \<Rightarrow> bool" where
  "service_parses cd v \<longleftrightarrow> (\<forall>a. mget (om_annotations (sv_meta v)) last_applied_config = Some a \<longrightarrow>
     cd_unmarshal_service cd a \<noteq> None)"

lemma service_parses_equal: "service_parses cd old \<Longrightarrow> \<exists>e. service_equal cd new old = Inr e"
  by (cases "mget (om_annotations (sv_meta old)) last_applied_config")
    (fastforce simp: service_equal_def service_parses_def)+

definition settled ::
  "codec \<Rightarrow> (okey \<Rightarrow> kobject option) \<Rightarrow> (okey \<Rightarrow> kobject option) \<Rightarrow> bool" where
  "settled cd start now \<longleftrightarrow>
     (\<forall>k. ok_kind k = StatefulSetKind \<longrightarrow> now k = start k)
     \<and> (\<forall>k. ok_kind k = PvcKind \<longrightarrow> (now k = None \<longleftrightarrow> start k = None))
     \<and> (\<forall>k. ok_kind k = InstallationKind \<longrightarrow> now k = start k)
     \<and> (\<forall>k v. now k = Some (KService v) \<longrightarrow> service_parses cd v)"

definition harmless :: "codec \<Rightarrow> (okey \<Rightarrow> kobject option) \<Rightarrow> kobject \<Rightarrow> bool" where
  "harmless cd start ob \<longleftrightarrow> \<not> leaving ob \<and> (case ob of KStatefulSet _ \<Rightarrow> False | KInstallation _ \<Rightarrow> False | KService v \<Rightarrow> service_parses cd v
     | KPvc p \<Rightarrow> start (ob_key ob) \<noteq> None | _ \<Rightarrow> True)"

lemma key_kind [simp]: "ok_kind (ob_key ob) = ob_kind ob"
  by (simp add: ob_key_def meta_key_def)

lemma view_kinds:
  "ob_kind ob = ConfigMapKind \<Longrightarrow> as_config_map ob \<noteq> None" "ob_kind ob = ServiceKind \<Longrightarrow> as_service ob \<noteq> None"
  "ob_kind ob = PvcKind \<Longrightarrow> as_pvc ob \<noteq> None" "ob_kind ob = StatefulSetKind \<Longrightarrow> as_stateful_set ob \<noteq> None"
  "ob_kind ob = PodKind \<Longrightarrow> as_pod ob \<noteq> None" "ob_kind ob = InstallationKind \<Longrightarrow> as_installation ob \<noteq> None"
  by (cases ob; simp add: views)+

lemma settled_write:
  assumes "settled cd start now" "harmless cd start ob"
  shows "settled cd start (now(ob_key ob \<mapsto> ob))"
  using assms by (cases ob) (auto simp: settled_def harmless_def)

text \<open>A claim template that was there before and asks for no less than it did.\<close>

definition claim_kept :: "pvc list \<Rightarrow> pvc \<Rightarrow> bool" where
  "claim_kept initial c \<longleftrightarrow> (case claim_matching_name initial (claim_name c) of
     None \<Rightarrow> False | Some ic \<Rightarrow> compare_storage_requests (pc_spec ic) (pc_spec c) \<noteq> DecreaseStorage)"

text \<open>Encoding never fails, and what was encoded can be read.\<close>

definition codec_total :: "codec \<Rightarrow> bool" where
  "codec_total cd \<longleftrightarrow>
     (\<forall>x. \<exists>b. cd_marshal_service cd x = Some b \<and> cd_unmarshal_service cd b \<noteq> None)
     \<and> (\<forall>x. cd_marshal_set cd x \<noteq> None) \<and> (\<forall>x. cd_marshal_installation cd x \<noteq> None)"

lemma config_maps_stay [simp]:
  "om_deletion_timestamp (cmap_meta (get_config_map_common D s)) = None"
  "om_deletion_timestamp (cmap_meta (get_config_map_common_users s)) = None"
  "om_deletion_timestamp (cmap_meta (get_config_map_replica r s)) = None"
  by (simp_all add: get_config_map_common_def get_config_map_common_users_def get_config_map_replica_def
      new_config_map_def zero_meta_def Let_def)

context kube_reads
begin

lemma reading_up:
  assumes "up w" "\<And>ob. ob_kind ob = ok_kind k \<Longrightarrow> view ob \<noteq> None"
  shows "\<exists>w'. up w' \<and> objs w' = objs w
    \<and> try_prog (decoded view (kc_get K k)) w = (Done (case objs w k of None \<Rightarrow> Inl (Api NotFound)
        | Some ob \<Rightarrow> Inr (the (view ob))), w')"
proof -
  obtain w' where w': "up w'" "objs w' = objs w"
    "kc_get K k w = (case objs w k of None \<Rightarrow> Inl NotFound | Some ob \<Rightarrow> Inr ob, w')"
    using get_serves assms(1) by blast
  have "view ob \<noteq> None" if "objs w k = Some ob" for ob
    using assms(2) [of ob] key_ok [OF that] by auto
  then show ?thesis
    using w' by (auto simp: try_prog_def decoded_def bindp_def api_def ret_def split: option.splits)
qed

end

context kube_serves
begin

definition calm where
  "calm cd start w \<longleftrightarrow> up w \<and> settled cd start (objs w)"

lemma read_serves:
  assumes w: "calm cd start w" and view: "\<And>ob. ob_kind ob = ok_kind k \<Longrightarrow> view ob \<noteq> None"
  shows "\<exists>w'. calm cd start w' \<and> objs w' = objs w
    \<and> try_prog (decoded view (kc_get K k)) w = (Done (case objs w k of None \<Rightarrow> Inl (Api NotFound)
        | Some ob \<Rightarrow> Inr (the (view ob))), w')"
  using reading_up [where k = k and view = view, OF _ view] w unfolding calm_def by metis

lemma update_served:
  assumes "calm cd start w" "objs w (ob_key ob) \<noteq> None" "harmless cd start ob"
  shows "\<exists>w'. kc_update K ob w = (Inr ob, w') \<and> calm cd start w' \<and> objs w' = (objs w)(ob_key ob \<mapsto> ob)"
proof -
  obtain ob' w' where w': "up w'" "as_updated ob ob'" "objs w' = (objs w)(ob_key ob \<mapsto> ob')" "kc_update K ob w = (Inr ob', w')"
    using update_serves [of w ob] assms by (auto simp: calm_def harmless_def)
  moreover have "ob' = ob" using w'(2) assms(3) by (cases ob) (auto simp: as_updated_def harmless_def)
  ultimately show ?thesis using assms settled_write [of cd start "objs w" ob] by (auto simp: calm_def)
qed

lemma create_served:
  assumes "calm cd start w" "objs w (ob_key ob) = None" "harmless cd start ob"
  shows "\<exists>w'. kc_create K ob w = (Inr ob, w') \<and> calm cd start w' \<and> objs w' = (objs w)(ob_key ob \<mapsto> ob)"
proof -
  have "\<not> leaving ob" using assms(3) by (simp add: harmless_def)
  then show ?thesis using create_serves [of w ob] assms settled_write unfolding calm_def by metis
qed

lemma config_map_served:
  assumes "om_deletion_timestamp (cmap_meta cm) = None"
  shows "served (calm cd start) (sync_config_map K cm u)"
proof (rule servedI)
  fix w assume w: "calm cd start w"
  let ?k = "config_map_key cm" and ?ob = "KConfigMap cm"
  have k: "ob_key ?ob = ?k" by (simp add: ob_key_def meta_key_def config_map_key_def)
  have h: "harmless cd start ?ob" using assms by (simp add: harmless_def leaving_def)
  obtain w1 where w1: "calm cd start w1" "objs w1 = objs w"
    "try_prog (decoded as_config_map (kc_get K ?k)) w = (Done (case objs w ?k of None \<Rightarrow> Inl (Api NotFound)
        | Some ob \<Rightarrow> Inr (the (as_config_map ob))), w1)"
    using read_serves [OF w, of ?k as_config_map] view_kinds(1) by (auto simp: config_map_key_def)
  show "\<exists>x s'. sync_config_map K cm u w = (Done x, s') \<and> calm cd start s'"
  proof (cases "objs w ?k")
    case None
    obtain w2 where w2: "kc_create K ?ob w1 = (Inr ?ob, w2)" "calm cd start w2" "objs w2 (ob_key ?ob) \<noteq> None"
      using create_served [OF w1(1) _ h] None w1(2) k by fastforce
    obtain w3 where "kc_update K ?ob w2 = (Inr ?ob, w3)" "calm cd start w3"
      using update_served [OF w2(2,3) h] by blast
    then show ?thesis
      using w1 w2 None by (simp add: sync_config_map_def bindp_def try_prog_def api_def ret_def is_not_found_def)
  next
    case (Some ob)
    obtain w3 where "kc_update K ?ob w1 = (Inr ?ob, w3)" "calm cd start w3"
      using update_served [OF w1(1) _ h] Some w1(2) k by fastforce
    then show ?thesis
      using w1 Some by (simp add: sync_config_map_def bindp_def api_def ret_def)
  qed
qed

lemma service_served:
  assumes "codec_total cd" "om_namespace (sv_meta (fst svc)) = ns" "om_deletion_timestamp (sv_meta (fst svc)) = None"
  shows "served (calm cd start) (sync_service K cd ns svc)"
proof (rule servedI)
  fix w assume w: "calm cd start w"
  let ?k = "OKey ServiceKind ns (om_name (sv_meta (fst svc)))"
  have marshal: "\<exists>b. cd_marshal_service cd x = Some b \<and> cd_unmarshal_service cd b \<noteq> None" for x
    using assms(1) by (simp add: codec_total_def)
  obtain w1 where w1: "calm cd start w1" "objs w1 = objs w"
    "try_prog (decoded as_service (kc_get K ?k)) w = (Done (case objs w ?k of None \<Rightarrow> Inl (Api NotFound)
        | Some ob \<Rightarrow> Inr (the (as_service ob))), w1)"
    using read_serves [OF w, of ?k as_service] view_kinds(2) by auto
  show "\<exists>x s'. sync_service K cd ns svc w = (Done x, s') \<and> calm cd start s'"
  proof (cases "objs w ?k")
    case None
    obtain b where b: "cd_marshal_service cd (sv_spec (fst svc)) = Some b" "cd_unmarshal_service cd b \<noteq> None"
      using marshal by blast
    let ?v = "mark_synced ((fst svc)\<lparr>sv_meta := set_annotation last_applied_config b (sv_meta (fst svc))\<rparr>, snd svc)"
    have meta: "om_namespace (sv_meta ?v) = ns" "om_name (sv_meta ?v) = om_name (sv_meta (fst svc))"
      "om_deletion_timestamp (sv_meta ?v) = om_deletion_timestamp (sv_meta (fst svc))"
      "om_annotations (sv_meta ?v) = om_annotations (set_annotation last_applied_config b (sv_meta (fst svc)))"
      using assms(2) by (simp_all add: mark_synced_def set_annotation_def Let_def)
    have k: "ob_key (KService ?v) = ?k" by (simp add: ob_key_def meta_key_def meta)
    have "harmless cd start (KService ?v)"
      using b(2) assms(3) by (simp add: harmless_def leaving_def service_parses_def meta) (simp add: set_annotation_def)
    then obtain w2 where "kc_create K (KService ?v) w1 = (Inr (KService ?v), w2)" "calm cd start w2"
      using create_served [OF w1(1), of "KService ?v"] None w1(2) k by auto
    then show ?thesis
      using w1 None b by (simp add: sync_service_def bindp_def api_def ret_def is_not_found_def from_sum_def
        set_service_last_applied_def)
  next
    case (Some ob)
    then have "ob_key ob = ?k" by (rule key_ok)
    then have "ob_kind ob = ServiceKind" using key_kind [of ob] by simp
    then obtain old where ob: "ob = KService old" by (cases ob) simp_all
    have kold: "om_namespace (sv_meta old) = ns" "om_name (sv_meta old) = om_name (sv_meta (fst svc))"
      using \<open>ob_key ob = ?k\<close> by (simp_all add: ob ob_key_def meta_key_def)
    have "service_parses cd old" using w Some ob by (auto simp: calm_def settled_def)
    then obtain equal where eq: "service_equal cd (fst svc) old = Inr equal"
      using service_parses_equal by blast
    show ?thesis
    proof (cases equal)
      case True
      then show ?thesis using w1 Some ob eq by (simp add: sync_service_def bindp_def as_service_def from_sum_def ret_def)
    next
      case False
      obtain b where b: "cd_marshal_service cd (sv_spec (fst svc)) = Some b" "cd_unmarshal_service cd b \<noteq> None"
        using marshal by blast
      let ?s = "(old\<lparr>sv_spec := sv_spec (fst svc)\<rparr>)\<lparr>sv_meta := set_annotation last_applied_config b (sv_meta old)\<rparr>"
      let ?v = "?s\<lparr>sv_spec := (sv_spec ?s)\<lparr>vs_cluster_ip := vs_cluster_ip (sv_spec old)\<rparr>\<rparr>"
      have k: "ob_key (KService ?v) = ?k"
        using kold by (simp add: ob_key_def meta_key_def set_annotation_def)
      have "\<not> leaving (KService old)" using stays [of w "?k" "KService old"] w Some ob by (simp add: calm_def)
      then have "harmless cd start (KService ?v)"
        using b(2) by (simp add: harmless_def leaving_def service_parses_def set_annotation_def)
      then obtain w2 where "kc_update K (KService ?v) w1 = (Inr (KService ?v), w2)" "calm cd start w2"
        using update_served [OF w1(1), of "KService ?v"] Some w1(2) k by auto
      then show ?thesis
        using w1 Some ob eq False b
        by (simp add: sync_service_def bindp_def as_service_def from_sum_def ret_def api_def set_service_last_applied_def)
    qed
  qed
qed

text \<open>Claims: those found exist, so they can be updated.\<close>

lemma calm_claims: "calm cd start w \<Longrightarrow> ok_kind k = PvcKind \<Longrightarrow> objs w k = None \<longleftrightarrow> start k = None"
  by (simp add: calm_def settled_def)

definition claim_there :: "(okey \<Rightarrow> kobject option) \<Rightarrow> pvc \<Rightarrow> bool" where
  "claim_there start p \<longleftrightarrow> start (ob_key (KPvc p)) \<noteq> None \<and> \<not> leaving (KPvc p)"

lemma pvcs_found:
  assumes "calm cd start w" "\<forall>x qs p. (x, qs) \<in> set m \<longrightarrow> p \<in> set qs \<longrightarrow> claim_there start p"
  shows "\<exists>m' w'. retrieve_pvcs K ns ps m w = (Done m', w') \<and> calm cd start w'
    \<and> (\<forall>x qs p. (x, qs) \<in> set m' \<longrightarrow> p \<in> set qs \<longrightarrow> claim_there start p)"
  using assms
proof (induction ps arbitrary: m w)
  case Nil
  then show ?case by (simp add: ret_def)
next
  case (Cons e ps)
  obtain p name where e: "e = (p, name)" by (cases e)
  let ?k = "OKey PvcKind ns (name @ ''-'' @ p)"
  obtain w1 where w1: "calm cd start w1" "objs w1 = objs w"
    "try_prog (decoded as_pvc (kc_get K ?k)) w = (Done (case objs w ?k of None \<Rightarrow> Inl (Api NotFound)
        | Some ob \<Rightarrow> Inr (the (as_pvc ob))), w1)"
    using read_serves [OF Cons.prems(1), of ?k as_pvc] view_kinds(3) by auto
  show ?case
  proof (cases "name = []")
    case True
    then show ?thesis using Cons e by simp
  next
    case False
    show ?thesis
    proof (cases "objs w ?k")
      case None
      then show ?thesis
        using Cons.IH [OF w1(1) Cons.prems(2)] w1(3) False
        by (simp add: e bindp_def is_not_found_def)
    next
      case (Some ob)
      then have k: "ob_key ob = ?k" by (rule key_ok)
      then have "ob_kind ob = PvcKind" using key_kind [of ob] by simp
      then obtain q where q: "ob = KPvc q" by (cases ob) simp_all
      have "claim_there start q"
        unfolding claim_there_def using calm_claims [OF Cons.prems(1), of ?k] stays [of w ?k ob] Cons.prems(1) Some k q by (simp_all add: calm_def)
      then have "\<forall>x qs p. (x, qs) \<in> set (add_pvc name q m) \<longrightarrow> p \<in> set qs \<longrightarrow> claim_there start p"
          using Cons.prems(2) by (fastforce simp: add_pvc_def dest!: set_put [THEN subsetD] map_of_SomeD split: option.splits)
      then show ?thesis
        using Cons.IH [OF w1(1)] w1(3) False Some q
        by (simp add: e bindp_def as_pvc_def)
    qed
  qed
qed

lemma resize_served:
  assumes "claim_there start p"
  shows "served (calm cd start) (resize_pvc K c p)"
proof (cases "compare_storage_requests (pc_spec p) (pc_spec c) = IncreaseStorage")
  case True
  let ?p = "p\<lparr>pc_spec := (pc_spec p)\<lparr>pv_storage := Some (storage_of (pc_spec c))\<rparr>\<rparr>"
  have k: "ob_key (KPvc ?p) = ob_key (KPvc p)" by (simp add: ob_key_def)
  show ?thesis
  proof (rule servedI)
    fix w assume w: "calm cd start w"
    have "objs w (ob_key (KPvc ?p)) \<noteq> None"
      unfolding k using calm_claims [OF w, of "ob_key (KPvc p)"] assms by (simp add: claim_there_def)
    then show "\<exists>x s'. resize_pvc K c p w = (Done x, s') \<and> calm cd start s'"
      using update_served [OF w, of "KPvc ?p"] assms k True
      by (auto simp: resize_pvc_def harmless_def leaving_def claim_there_def bindp_def api_def ret_def)
  qed
qed (simp add: resize_pvc_def served_ret)

lemma resize_all_served: "served (calm cd start) (resize_pvcs K expected actual)"
proof (rule servedI)
  fix w assume w: "calm cd start w"
  obtain m w1 where m: "retrieve_actual_pvcs K actual w = (Done m, w1)" "calm cd start w1"
    "\<forall>x qs p. (x, qs) \<in> set m \<longrightarrow> p \<in> set qs \<longrightarrow> claim_there start p"
    using pvcs_found [OF w, of "[]"] unfolding retrieve_actual_pvcs_def by fastforce
  have "served (calm cd start) (each (\<lambda>(name, ps). case get_claim (set_claims expected) name of
      None \<Rightarrow> ret () | Some c \<Rightarrow> each (resize_pvc K c) ps) m)"
    by (intro served_each, clarsimp split: option.splits)
      (use m(3) in \<open>fastforce intro!: served_each served_ret resize_served\<close>)
  then show "\<exists>x s'. resize_pvcs K expected actual w = (Done x, s') \<and> calm cd start s'"
    using m(1,2) by (simp add: resize_pvcs_def bindp_def brings_def)
qed

text \<open>Claims that ask for no less than before are accepted.\<close>

lemma claims_accepted:
  assumes "list_all (claim_kept initial) updated"
  shows "served I (validate_claims_storage_update K initial updated False)"
  unfolding validate_claims_storage_update_def
  by (rule served_each)
    (use assms in \<open>auto simp: list_all_iff claim_kept_def ensure_claim_supports_expansion_def intro!: served_ret split: storage_comparison.splits option.splits\<close>)

lemma label_pod_served:
  assumes True: "ok_kind key = PodKind"
  shows "served (calm cd start) (label_pod K key)"
proof (rule servedI)
  fix w assume w: "calm cd start w"
  obtain w1 where w1: "calm cd start w1" "objs w1 = objs w"
    "try_prog (decoded as_pod (kc_get K key)) w = (Done (case objs w key of None \<Rightarrow> Inl (Api NotFound)
        | Some ob \<Rightarrow> Inr (the (as_pod ob))), w1)"
    using read_serves [OF w, of key as_pod] view_kinds(5) True by auto
  show "\<exists>x s'. label_pod K key w = (Done x, s') \<and> calm cd start s'"
  proof (cases "objs w key")
    case None
    then show ?thesis using w1 by (simp add: label_pod_def bindp_def ret_def)
  next
    case (Some ob)
    then have k: "ob_key ob = key" by (rule key_ok)
    then have "ob_kind ob = PodKind" using key_kind [of ob] True by simp
    then obtain p where p: "ob = KPod p" by (cases ob) simp_all
    show ?thesis
    proof (cases "om_labels (pd_meta p)")
      case None
      then show ?thesis using w1 Some p by (simp add: label_pod_def bindp_def ret_def as_pod_def)
    next
      case labels: (Some ls)
      let ?p = "p\<lparr>pd_meta := (pd_meta p)\<lparr>om_labels := Some (put sync_state_label ''Synced'' ls)\<rparr>\<rparr>"
      have "ob_key (KPod ?p) = key" using k p by (simp add: ob_key_def meta_key_def)
      moreover have "\<not> leaving (KPod p)" using stays [of w key "KPod p"] w Some p by (simp add: calm_def)
      ultimately obtain w2 where "kc_update K (KPod ?p) w1 = (Inr (KPod ?p), w2)" "calm cd start w2"
        using update_served [OF w1(1), of "KPod ?p"] Some w1(2) by (auto simp: harmless_def leaving_def)
      then show ?thesis
        using w1 Some p labels by (simp add: label_pod_def bindp_def ret_def as_pod_def api_def try_prog_def)
    qed
  qed
qed

lemma expansion_served:
  assumes "list_all (claim_kept (set_claims old)) (set_claims new)"
  shows "served (calm cd start) (handle_volume_expansion K new old False)"
  unfolding handle_volume_expansion_def
  by (intro served_bind claims_accepted [OF assms] resize_all_served served_ret)

end

section \<open>Databases that run every statement\<close>

definition driver_up :: "'d driver \<Rightarrow> bool" where
  "driver_up dr \<longleftrightarrow> (\<forall>dsn d. fst (dr_connect dr dsn d)) \<and> (\<forall>dsn sql d. fst (dr_exec dr dsn sql d) = None)
     \<and> (\<forall>dsn sql d. \<exists>rows. fst (dr_query dr dsn sql d) = Inr rows)"

lemma connect_up: "driver_up dr \<Longrightarrow> \<exists>s'. ensure_connected dr c s = (True, s')"
  by (auto simp: ensure_connected_def driver_up_def split: prod.splits) (metis fst_conv)+

lemma exec_up:
  assumes "driver_up dr"
  shows "\<exists>s'. conn_exec dr c sql s = (None, s')"
proof -
  obtain s1 where "ensure_connected dr c s = (True, s1)" using connect_up [OF assms] by blast
  moreover obtain d where "dr_exec dr (ch_dsn c) sql (db_world s1) = (None, d)"
    using assms unfolding driver_up_def by (metis prod.collapse)
  ultimately show ?thesis by (simp add: conn_exec_def)
qed

lemma query_up:
  assumes "driver_up dr"
  shows "\<exists>rows s'. conn_query dr c sql s = (Inr rows, s')"
proof -
  obtain s1 where "ensure_connected dr c s = (True, s1)" using connect_up [OF assms] by blast
  moreover obtain rows d where "dr_query dr (ch_dsn c) sql (db_world s1) = (Inr rows, d)"
    using assms unfolding driver_up_def by (metis prod.collapse)
  ultimately show ?thesis by (simp add: conn_query_def)
qed

lemma object_list_up:
  assumes "driver_up dr"
  shows "\<exists>names sqls s'. get_object_list dr sm endpoints sql s = ((names, sqls, None), s')"
proof (cases endpoints)
  case Nil
  then show ?thesis by (simp add: get_object_list_def)
next
  case (Cons e es)
  then show ?thesis
    using query_up [OF assms] by (auto simp: get_object_list_def Let_def split: prod.splits sum.splits) (metis old.sum.distinct(1) prod.inject)+
qed

lemma run_sqls_up:
  assumes "driver_up dr"
  shows "\<exists>r s'. run_sqls dr conn sqls s = (None, r, s')"
proof (induction sqls arbitrary: s)
  case (Cons sql sqls)
  obtain s1 where "conn_exec dr conn sql s = (None, s1)" using exec_up [OF assms] by blast
  then have "exec_or_attach dr conn sql s = (None, s1)" by (simp add: exec_or_attach_def)
  then show ?case using Cons.IH [of s1] Cons.IH [of s] by auto
qed simp

lemma replica_apply_up:
  assumes "driver_up dr"
  shows "\<exists>s'. replica_apply_sqls dr sm ns r sqls again s = (None, s')"
proof -
  have "\<exists>x s'. apply_host dr sm again h (sqls, s) = (None, x, s')" for h s
  proof -
    let ?s = "get_pooled (host_params sm h) s"
    obtain x s' where "run_sqls dr (host_params sm h) sqls ?s = (None, x, s')"
      using run_sqls_up [OF assms] by blast
    then show ?thesis
      by (simp add: apply_host_def get_ch_connection_def retry_def default_max_tries_def numeral_eq_Suc)
  qed
  then show ?thesis
    by (auto simp: replica_apply_sqls_def apply_sqls_def split: prod.splits) (metis prod.inject)+
qed

lemma create_tables_up:
  assumes "driver_up dr"
  shows "\<exists>s'. create_tables_for_replica dr sm sq ctx di r s = (None, s')"
proof -
  have "\<exists>names sqls s'. get_create_replica_objects dr sm sq ctx di s = ((names, sqls, None), s')"
  proof -
    let ?tables = "remote_tables (get_normal_pod_fqdns_of_shard (mc_cur_cluster ctx) (mc_cur_shard ctx) di)"
    let ?hosts = "create_pod_fqdns_of_installation di"
    obtain n1 q1 s1 where 1: "get_object_list dr sm ?hosts (replace_all (sq_replica_dbs sq) ''system.tables'' ?tables) s
        = ((n1, q1, None), s1)" using object_list_up [OF assms] by blast
    obtain n2 q2 s2 where 2: "get_object_list dr sm ?hosts (replace_all (sq_replica_tables sq) ''system.tables'' ?tables) s1
        = ((n2, q2, None), s2)" using object_list_up [OF assms] by blast
    show ?thesis by (simp add: get_create_replica_objects_def Let_def 1 2)
  qed
  then obtain names sqls s1 where 1: "get_create_replica_objects dr sm sq ctx di s = ((names, sqls, None), s1)" by blast
  obtain s2 where 2: "replica_apply_sqls dr sm (mc_namespace ctx) r sqls True s1 = (None, s2)"
    using replica_apply_up [OF assms] by blast
  obtain names' sqls' s3 where 3: "get_create_distributed_objects dr sm sq ctx di r s2 = ((names', sqls'), s3)"
    by (metis surj_pair)
  show ?thesis using replica_apply_up [OF assms] by (simp add: create_tables_for_replica_def 1 2 3)
qed

end
