(* ===== verification/Completion.thy ===== *)
theory Completion
  imports Serving
begin

text \<open>
  When all pods are ready, one reconciliation completes the installation. The argument counts
  exactly one ready replica for each step of the walk over clusters, shards and replicas, whether
  the replica is counted when its stateful set is looked at or after its tables have been created.
\<close>

section \<open>Steps of the manager\<close>

lemma brings_set_ctx:
  "(\<And>ctx di. R ctx di \<Longrightarrow> R' (f ctx) di) \<Longrightarrow> brings (holds J R) (set_ctx f) (holds J R')"
  by (simp add: brings_def set_ctx_def modify_def holds_def)

lemma brings_set_di:
  "(\<And>ctx di. R ctx di \<Longrightarrow> R' ctx (f di)) \<Longrightarrow> brings (holds J R) (set_di f) (holds J R')"
  by (simp add: brings_def set_di_def modify_def holds_def)

lemma brings_on_status:
  "(\<And>ctx di. R ctx di \<Longrightarrow> R' ctx (di\<lparr>di_status := f (di_status di)\<rparr>)) \<Longrightarrow>
   brings (holds J R) (on_status f) (holds J R')"
  unfolding on_status_def by (rule brings_set_di)

lemma brings_write_status:
  assumes "\<And>ctx di. R ctx di \<Longrightarrow> \<exists>st. f (di_status di) = Some st \<and> R' ctx (di\<lparr>di_status := st\<rparr>)"
  shows "brings (holds J R) (write_status f) (holds J R')"
  using assms by (fastforce simp: brings_def write_status_def modify_or_panic_def holds_def)

lemma brings_world: "served J m \<Longrightarrow> brings (holds J R) (on_world m) (holds J R)"
  by (fastforce simp: brings_def on_world_def holds_def split: prod.splits)

lemma brings_on_db:
  assumes "\<And>d. \<exists>d'. f d = (x, d')" "brings (holds J R) (g x) Q"
  shows "brings (holds J R) (bindp (on_db f) g) Q"
proof (rule bringsI)
  fix s :: "('c, 'a) mstate" assume s: "holds J R s"
  obtain d' where "f (ms_db s) = (x, d')" using assms(1) by blast
  moreover have "holds J R (s\<lparr>ms_db := d'\<rparr>)" using s by (simp add: holds_def)
  ultimately show "\<exists>y s'. bindp (on_db f) g s = (Done y, s') \<and> Q s'"
    using brings_run [OF assms(2)] by (simp add: bindp_def on_db_def)
qed

lemma brings_read_holds:
  assumes "\<And>s0. J (ms_world s0) \<Longrightarrow> R (ms_ctx s0) (ms_di s0) \<Longrightarrow>
    brings (holds J (\<lambda>ctx di. R ctx di \<and> ctx = ms_ctx s0 \<and> di = ms_di s0)) (f s0) Q"
  shows "brings (holds J R) (bindp get_state f) Q"
  by (rule brings_read, rule brings_weaken [OF assms]) (auto simp: holds_def)

text \<open>
  The relations of the walk: the installation's metadata and specification are those it started
  with, the context is the one of the run, and, when all pods are ready (\<open>e\<close>), exactly \<open>k\<close> more
  replicas than there are have been counted as ready (\<open>k\<close> starts at minus their number).
\<close>

definition run_context :: "member_context \<Rightarrow> member_context \<Rightarrow> bool" where
  "run_context base ctx \<longleftrightarrow>
     base\<lparr>mc_cur_cluster := mc_cur_cluster ctx, mc_cur_shard := mc_cur_shard ctx, mc_cur_replica := mc_cur_replica ctx\<rparr>
     = ctx"

lemma run_context_keeps:
  "run_context base ctx \<Longrightarrow> run_context base (ctx\<lparr>mc_cur_cluster := x\<rparr>)"
  "run_context base ctx \<Longrightarrow> run_context base (ctx\<lparr>mc_cur_shard := x\<rparr>)"
  "run_context base ctx \<Longrightarrow> run_context base (ctx\<lparr>mc_cur_replica := x\<rparr>)"
  by (cases ctx; cases base; simp add: run_context_def)+

definition on_course ::
  "bool \<Rightarrow> daisy_installation \<Rightarrow> member_context \<Rightarrow> (member_context \<Rightarrow> installation_status \<Rightarrow> bool) \<Rightarrow> int
   \<Rightarrow> member_context \<Rightarrow> daisy_installation \<Rightarrow> bool" where
  "on_course e d0 base P k ctx di \<longleftrightarrow> di_meta di = di_meta d0 \<and> di_spec di = di_spec d0
     \<and> is_prev_spec (di_status di) = is_prev_spec (di_status d0)
     \<and> run_context base ctx
     \<and> (e \<longrightarrow> is_ready_replicas (di_status di) = is_replicas_count (di_status di) + k) \<and> P ctx (di_status di)"

text \<open>After the look at a ready stateful set a replica is counted, or it waits for its tables.\<close>

definition looked_at :: "string \<Rightarrow> string \<Rightarrow> replica \<Rightarrow> installation_status \<Rightarrow> bool" where
  "looked_at c sh r st \<longleftrightarrow> replica_is_ready r c sh st \<and> \<not> replica_is_sync r c sh st"

lemma observe_ready:
  assumes "observe_phase s False ready x = (y, b)" "ss_ready_replicas (set_status s) = 1"
  shows "(b \<longrightarrow> rs_phase y = NormalPhase) \<and> (\<not> b \<longrightarrow> rs_phase y = ReadyPhase \<and> rs_state y = not_sync)"
  using assms by (auto simp: observe_phase_def split: if_splits)

lemma record_ready:
  assumes "in_replica c sh r k ctx st" "e \<longrightarrow> ss_ready_replicas (set_status s) = 1"
  shows "\<exists>st'. record_replica ctx now s a ready st = Some st' \<and> counted c sh r k ctx st'
    \<and> is_prev_spec st' = is_prev_spec st \<and> is_replicas_count st' = is_replicas_count st
    \<and> (e \<longrightarrow> is_ready_replicas st' = is_ready_replicas st + (if looked_at c sh r st' then 0 else 1))"
proof -
  obtain st' where rec: "record_replica ctx now s a ready st = Some st'" and cnt: "counted c sh r k ctx st'"
    using record_replica_ok [OF assms(1)] by blast
  let ?x = "(new_replica_status ctx now st)\<lparr>rs_stateful_set := Some (set_status s)\<rparr>"
  let ?x' = "if a = ActionAdd \<or> a = ActionUpdate then ?x\<lparr>rs_last_transition_time := now\<rparr> else ?x"
  obtain y b where o: "observe_phase s False ready ?x' = (y, b)" by fastforce
  let ?st = "if b then (count_action a st)\<lparr>is_ready_replicas := is_ready_replicas (count_action a st) + 1\<rparr>
    else count_action a st"
  have w: "put_replica_status c sh (rp_name r) y ?st = Some st'"
    using rec o assms(1) by (simp add: record_replica_def Let_def stateful_set_is_upgrading_def in_replica_def in_shard_def)
  have y: "status_replica st' c sh (rp_name r) = Some y" using put_replica_status_Some [OF w] by simp
  have "is_prev_spec (count_action a st) = is_prev_spec st"
    by (simp add: count_action_def split: sync_action.splits)
  then have "is_prev_spec st' = is_prev_spec st" "is_replicas_count st' = is_replicas_count st"
    "is_ready_replicas st' = is_ready_replicas st + of_bool b"
    using put_status_only_clusters(3) [OF w] by auto
  moreover have "looked_at c sh r st' \<longleftrightarrow> \<not> b" if e
    using observe_ready [OF o] assms(2) that y by (auto simp: looked_at_def replica_is_ready_def replica_is_sync_def)
  ultimately show ?thesis using rec cnt by auto
qed

text \<open>A stored stateful set that is the wanted one and, if \<open>e\<close> asks for it, has its pod ready.\<close>

definition up_to_date ::
  "bool \<Rightarrow> codec \<Rightarrow> member_context \<Rightarrow> daisy_installation \<Rightarrow> (okey \<Rightarrow> kobject option) \<Rightarrow> replica \<Rightarrow> bool" where
  "up_to_date e cd ctx di stored r \<longleftrightarrow>
     (let new = get_stateful_set_for_replica ctx di r in
      case stored (set_key ctx r) of
        Some (KStatefulSet old) \<Rightarrow>
          (e \<longrightarrow> ss_ready_replicas (set_status old) = 1) \<and> sx_replicas (set_spec old) \<noteq> None
          \<and> stateful_set_equal cd new old
          \<and> list_all (claim_kept (set_claims old)) (set_claims new)
      | _ \<Rightarrow> False)"

lemma wanted_set_cong: "di_meta di = di_meta d0 \<Longrightarrow> get_stateful_set_for_replica ctx di r = get_stateful_set_for_replica ctx d0 r"
  by (simp add: get_stateful_set_for_replica_def bare_stateful_set_def get_owner_ref_def)

definition after_look ::
  "bool \<Rightarrow> daisy_installation \<Rightarrow> member_context \<Rightarrow> string \<Rightarrow> string \<Rightarrow> replica \<Rightarrow> int
   \<Rightarrow> member_context \<Rightarrow> daisy_installation \<Rightarrow> bool" where
  "after_look e d0 base c sh r k ctx di \<longleftrightarrow>
     on_course e d0 base (counted c sh r k) (if looked_at c sh r (di_status di) then k else k + 1) ctx di"

lemma sync_status_up:
  fixes D :: "('w, 'd) deps"
  assumes "sx_replicas (set_spec old) \<noteq> None" "e \<longrightarrow> ss_ready_replicas (set_status old) = 1"
  shows "brings (holds J (on_course e d0 base (in_replica c sh r k) k)) (sync_replica_status D old a)
    (holds J (after_look e d0 base c sh r k))"
  unfolding sync_replica_status_def
proof (rule brings_read_holds)
  fix s0 :: "('w, 'd) mstate"
  let ?R = "\<lambda>ctx di. on_course e d0 base (in_replica c sh r k) k ctx di \<and> ctx = ms_ctx s0 \<and> di = ms_di s0"
  obtain ready where ready: "has_reached_generation (Some old) = Some ready"
    using generation_decided [OF assms(1)] by blast
  have "\<exists>st. record_replica (ms_ctx s0) now old a ready (di_status di) = Some st
      \<and> after_look e d0 base c sh r k ctx (di\<lparr>di_status := st\<rparr>)" if R: "?R ctx di" for ctx di now
  proof -
    have R': "on_course e d0 base (in_replica c sh r k) k ctx di" and ctx: "ms_ctx s0 = ctx" using R by auto
    then have "in_replica c sh r k ctx (di_status di)" by (simp add: on_course_def)
    from record_ready [OF this assms(2), of now a ready] obtain st where
      "record_replica ctx now old a ready (di_status di) = Some st" "counted c sh r k ctx st"
      "is_prev_spec st = is_prev_spec (di_status di)" "is_replicas_count st = is_replicas_count (di_status di)"
      "e \<longrightarrow> is_ready_replicas st = is_ready_replicas (di_status di) + (if looked_at c sh r st then 0 else 1)" by blast
    then show ?thesis using R' unfolding ctx by (simp add: on_course_def after_look_def)
  qed
  then show "brings (holds J ?R)
      (case has_reached_generation (Some old) of None \<Rightarrow> panic ''nil pointer''
       | Some ready \<Rightarrow> write_status (record_replica (ms_ctx s0) (dp_now D (ms_world s0)) old a ready))
      (holds J (after_look e d0 base c sh r k))"
    unfolding ready option.case by (intro brings_write_status)
qed

lemma sync_tables_up:
  fixes D :: "('w, 'd) deps"
  assumes "driver_up (dp_driver D)"
  shows "brings (holds J (after_look e d0 base c sh r k)) (sync_tables D r)
    (holds J (on_course e d0 base (in_shard c sh (k + 1)) (k + 1)))"
  unfolding sync_tables_def Let_def
proof (rule brings_read_holds)
  fix s0 :: "('w, 'd) mstate"
  let ?ctx = "ms_ctx s0" and ?st = "ms_status s0"
  assume pre: "after_look e d0 base c sh r k ?ctx (ms_di s0)"
  then have c: "mc_cur_cluster ?ctx = c" "mc_cur_shard ?ctx = sh" and cnt: "counted c sh r k ?ctx ?st"
    by (auto simp: after_look_def on_course_def counted_def in_replica_def in_shard_def)
  let ?R = "\<lambda>ctx di. after_look e d0 base c sh r k ctx di \<and> ctx = ?ctx \<and> di = ms_di s0"
  show "brings (holds J ?R)
      (if replica_is_ready r (mc_cur_cluster ?ctx) (mc_cur_shard ?ctx) ?st
          \<and> \<not> replica_is_sync r (mc_cur_cluster ?ctx) (mc_cur_shard ?ctx) ?st then
         bindp (on_db (create_tables_for_replica (dp_driver D) (dp_schemer D) (dp_sql D) ?ctx (ms_di s0) r)) (\<lambda>err.
           case err of Some e \<Rightarrow> throw (Failure e)
           | None \<Rightarrow> (case get_replica_status ?st r of
               None \<Rightarrow> panic ''nil pointer''
             | Some x \<Rightarrow> on_status (\<lambda>st. (set_replica_status (mc_cur_cluster ?ctx) (mc_cur_shard ?ctx) (rp_name r)
                   (x\<lparr>rs_state := sync\<rparr>) st)\<lparr>is_ready_replicas := is_ready_replicas st + 1\<rparr>)))
       else ret ())
      (holds J (on_course e d0 base (in_shard c sh (k + 1)) (k + 1)))"
  proof (cases "looked_at c sh r ?st")
    case False
    then have cond: "\<not> (replica_is_ready r (mc_cur_cluster ?ctx) (mc_cur_shard ?ctx) ?st
        \<and> \<not> replica_is_sync r (mc_cur_cluster ?ctx) (mc_cur_shard ?ctx) ?st)"
      using c by (simp add: looked_at_def)
    show ?thesis
      unfolding if_not_P [OF cond]
      by (rule brings_ret) (use False in \<open>auto simp: after_look_def on_course_def holds_def dest: counted_in_shard\<close>)
  next
    case True
    then have ready: "replica_is_ready r c sh ?st" by (simp add: looked_at_def)
    obtain x where x: "get_replica_status ?st r = Some x" "rs_name x = rp_name r"
      using get_status_ready [OF ready] cnt by (auto simp: counted_def in_replica_def in_shard_def)
    let ?x = "x\<lparr>rs_state := sync\<rparr>"
    have post: "in_shard c sh (k + 1) ?ctx ((set_replica_status c sh (rp_name r) ?x ?st)
        \<lparr>is_ready_replicas := is_ready_replicas ?st + 1\<rparr>)"
      using count_tables [OF cnt ready] x(2) by simp
    obtain m where "set_replica_status c sh (rp_name r) ?x ?st = ?st\<lparr>is_clusters := m\<rparr>"
      using set_replica_status_other [of c sh "rp_name r" ?x ?st] by blast
    then have mark: "on_course e d0 base (in_shard c sh (k + 1)) (k + 1) ctx (di\<lparr>di_status :=
        (set_replica_status c sh (rp_name r) ?x (di_status di))\<lparr>is_ready_replicas := is_ready_replicas (di_status di) + 1\<rparr>\<rparr>)"
      if "?R ctx di" for ctx di
      using that post True by (auto simp: after_look_def on_course_def)
    have cond: "replica_is_ready r (mc_cur_cluster ?ctx) (mc_cur_shard ?ctx) ?st
        \<and> \<not> replica_is_sync r (mc_cur_cluster ?ctx) (mc_cur_shard ?ctx) ?st"
      using True c by (simp add: looked_at_def)
    show ?thesis
      unfolding if_P [OF cond]
      by (rule brings_on_db [OF create_tables_up [OF assms]]) (simp add: x(1) c brings_on_status mark)
  qed
qed

lemma make_replicas_only:
  assumes "make_replicas ctx st = Some st'"
  shows "\<exists>m. st' = st\<lparr>is_clusters := m\<rparr>"
proof (cases "st_replicas (status_shard st (mc_cur_cluster ctx) (mc_cur_shard ctx)) = None")
  case True
  then show ?thesis
    using assms put_status_only_clusters(2) by (fastforce simp: make_replicas_def Let_def)
next
  case False
  then have "st' = st\<lparr>is_clusters := is_clusters st\<rparr>" using assms by (simp add: make_replicas_def Let_def del: not_None_eq)
  then show ?thesis ..
qed

lemma record_shard_only: "record_shard c sh st = Some st' \<Longrightarrow> \<exists>m. st' = st\<lparr>is_clusters := m\<rparr>"
  using put_status_only_clusters(1) [of c _ st st'] by (fastforce simp: record_shard_def Let_def)

lemma extra_replicas_cong:
  assumes "mc_cur_cluster a = mc_cur_cluster b" "mc_cur_shard a = mc_cur_shard b"
    "is_prev_spec (di_status di) = is_prev_spec (di_status d0)"
  shows "extra_replicas a sh di = extra_replicas b sh d0"
  using assms by (simp add: extra_replicas_def old_replicas_def)

text \<open>The end of the walk.\<close>

definition completed :: "bool \<Rightarrow> okey \<Rightarrow> member_context \<Rightarrow> daisy_installation \<Rightarrow> bool" where
  "completed e ikey ctx di \<longleftrightarrow> ob_key (KInstallation di) = ikey \<and> om_deletion_timestamp (di_meta di) = None
     \<and> (is_state (di_status di) = status_completed
         \<longleftrightarrow> is_ready_replicas (di_status di) = is_replicas_count (di_status di))
     \<and> (e \<longrightarrow> is_ready_replicas (di_status di) = is_replicas_count (di_status di))"

text \<open>The replicas of a shard are up to date and there are no surplus ones from the specification before.\<close>

definition shard_up ::
  "bool \<Rightarrow> codec \<Rightarrow> member_context \<Rightarrow> daisy_installation \<Rightarrow> (okey \<Rightarrow> kobject option) \<Rightarrow> string \<Rightarrow> shard \<Rightarrow> bool" where
  "shard_up e cd base di stored c sh \<longleftrightarrow>
     list_all (\<lambda>(_, r). up_to_date e cd
         (base\<lparr>mc_cur_cluster := c, mc_cur_shard := sh_name sh, mc_cur_replica := rp_name r\<rparr>) di stored r)
       (mentries (sh_replicas sh))
     \<and> extra_replicas (base\<lparr>mc_cur_cluster := c, mc_cur_shard := sh_name sh\<rparr>) sh di = []"

text \<open>Entering a replica, a shard and a cluster.\<close>

abbreviation at_replica where
  "at_replica c sh r k \<equiv> \<lambda>ctx st. in_shard c sh k ctx st \<and> mc_cur_replica ctx = rp_name r"

abbreviation at_shard where
  "at_shard c sh k \<equiv> \<lambda>ctx st. in_cluster c k ctx st \<and> mc_cur_shard ctx = sh_name sh"

abbreviation at_cluster where
  "at_cluster name k \<equiv> \<lambda>ctx st. status_ok k st \<and> mc_cur_cluster ctx = name"

lemma replica_entered:
  "brings (holds J (on_course e d0 base (in_shard c sh k) k)) (set_ctx (\<lambda>ctx. ctx\<lparr>mc_cur_replica := rp_name r\<rparr>))
    (holds J (on_course e d0 base (at_replica c sh r k) k))"
  by (rule brings_set_ctx) (simp add: on_course_def run_context_keeps)

lemma replicas_made:
  "brings (holds J (\<lambda>ctx di. on_course e d0 base (at_replica c sh r k) k ctx di \<and> ctx = ms_ctx s0 \<and> di = ms_di s0))
    (write_status (make_replicas (ms_ctx s0))) (holds J (on_course e d0 base (in_replica c sh r k) k))"
proof (rule brings_write_status)
  fix ctx di
  assume now: "on_course e d0 base (at_replica c sh r k) k ctx di \<and> ctx = ms_ctx s0 \<and> di = ms_di s0"
  then have "in_shard c sh k ctx (di_status di)" "mc_cur_replica ctx = rp_name r" by (auto simp: on_course_def)
  from make_replicas_ok [OF this] obtain st where st: "make_replicas ctx (di_status di) = Some st"
    "in_replica c sh r k ctx st" by blast
  then show "\<exists>st. make_replicas (ms_ctx s0) (di_status di) = Some st
      \<and> on_course e d0 base (in_replica c sh r k) k ctx (di\<lparr>di_status := st\<rparr>)"
    using now make_replicas_only [OF st(1)] by (auto simp: on_course_def)
qed

lemma shard_entered:
  "brings (holds J (on_course e d0 base (in_cluster c k) k)) (set_ctx (\<lambda>ctx. ctx\<lparr>mc_cur_shard := sh_name sh\<rparr>))
    (holds J (on_course e d0 base (at_shard c sh k) k))"
  by (rule brings_set_ctx) (simp add: on_course_def run_context_keeps in_cluster_def)

lemma shard_recorded:
  assumes "on_course e d0 base (at_shard c sh k) k (ms_ctx s0) (ms_di s0)"
  shows "brings (holds J (\<lambda>ctx di. on_course e d0 base (at_shard c sh k) k ctx di \<and> ctx = ms_ctx s0 \<and> di = ms_di s0))
    (write_status (record_shard (mc_cur_cluster (ms_ctx s0)) sh)) (holds J (on_course e d0 base (in_shard c (sh_name sh) k) k))"
proof (rule brings_write_status)
  fix ctx di
  assume now: "on_course e d0 base (at_shard c sh k) k ctx di \<and> ctx = ms_ctx s0 \<and> di = ms_di s0"
  then have "in_cluster c k ctx (di_status di)" "mc_cur_shard ctx = sh_name sh" by (auto simp: on_course_def)
  from record_shard_ok [OF this] obtain st where st: "record_shard c sh (di_status di) = Some st"
    "in_shard c (sh_name sh) k ctx st" by blast
  moreover have "mc_cur_cluster (ms_ctx s0) = c" using assms by (simp add: on_course_def in_cluster_def)
  ultimately show "\<exists>st. record_shard (mc_cur_cluster (ms_ctx s0)) sh (di_status di) = Some st
      \<and> on_course e d0 base (in_shard c (sh_name sh) k) k ctx (di\<lparr>di_status := st\<rparr>)"
    using now record_shard_only [OF st(1)] by (auto simp: on_course_def)
qed

lemma cluster_entered:
  "brings (holds J (on_course e d0 base (\<lambda>_. status_ok k) k)) (set_ctx (\<lambda>x. x\<lparr>mc_cur_cluster := name\<rparr>))
    (holds J (on_course e d0 base (at_cluster name k) k))"
  by (rule brings_set_ctx) (simp add: on_course_def run_context_keeps)

lemma cluster_made:
  "brings (holds J (on_course e d0 base (at_cluster name k) k)) (on_status (make_cluster_status c))
    (holds J (on_course e d0 base (in_cluster name k) k))"
proof (rule brings_on_status)
  have made: "is_prev_spec (make_cluster_status x st) = is_prev_spec st" "is_replicas_count (make_cluster_status x st) = is_replicas_count st"
    "is_ready_replicas (make_cluster_status x st) = is_ready_replicas st" for x st
    by (simp_all add: make_cluster_status_def Let_def)
  show "on_course e d0 base (in_cluster name k) k ctx (di\<lparr>di_status := make_cluster_status c (di_status di)\<rparr>)"
    if "on_course e d0 base (at_cluster name k) k ctx di" for ctx di
    using that make_cluster_ok [of k "di_status di" ctx name c] by (simp add: on_course_def made)
qed

lemma clusters_set:
  assumes "base = (sync_context n d0)\<lparr>mc_clusters := cs\<rparr>"
  shows "brings (holds J (\<lambda>ctx di. (ctx = sync_context n d0 \<and> on_course e d0 ctx (\<lambda>_. status_ok k) k ctx di)
      \<and> ctx = ms_ctx s0 \<and> di = ms_di s0))
    (set_ctx (\<lambda>c. c\<lparr>mc_clusters := cs\<rparr>)) (holds J (on_course e d0 base (\<lambda>_. status_ok k) k))"
  by (rule brings_set_ctx) (auto simp: on_course_def run_context_def assms)

context kube_serves
begin

lemma sync_set_up:
  fixes D :: "('w, 'd) deps"
  assumes D: "dp_kube D = K" and run: "\<not> sp_paused (di_spec d0)"
    and there: "up_to_date e (dp_codec D) (base\<lparr>mc_cur_cluster := c, mc_cur_shard := sh, mc_cur_replica := rp_name r\<rparr>) d0 start r"
  shows "brings (holds (calm (dp_codec D) start) (on_course e d0 base (in_replica c sh r k) k))
    (sync_stateful_set D r) (holds (calm (dp_codec D) start) (after_look e d0 base c sh r k))"
  unfolding sync_stateful_set_def D
proof (rule brings_read_holds)
  fix s0 :: "('w, 'd) mstate"
  let ?J = "calm (dp_codec D) start"
  let ?R = "on_course e d0 base (in_replica c sh r k) k"
  let ?ctx = "base\<lparr>mc_cur_cluster := c, mc_cur_shard := sh, mc_cur_replica := rp_name r\<rparr>"
  let ?new = "get_stateful_set_for_replica ?ctx d0 r"
  assume J: "?J (ms_world s0)" and R: "?R (ms_ctx s0) (ms_di s0)"
  have ctx: "ms_ctx s0 = ?ctx"
    using R by (auto simp: on_course_def in_replica_def in_shard_def run_context_def)
  have di: "di_spec (ms_di s0) = di_spec d0" "get_stateful_set_for_replica ?ctx (ms_di s0) r = ?new"
    using R wanted_set_cong [of "ms_di s0" d0 ?ctx r] by (simp_all add: on_course_def)
  obtain old where old: "start (set_key ?ctx r) = Some (KStatefulSet old)" "e \<longrightarrow> ss_ready_replicas (set_status old) = 1"
    "sx_replicas (set_spec old) \<noteq> None" "stateful_set_equal (dp_codec D) ?new old"
    "list_all (claim_kept (set_claims old)) (set_claims ?new)"
    using there by (auto simp: up_to_date_def Let_def split: option.splits kobject.splits)
  let ?Q = "holds ?J (after_look e d0 base c sh r k)"
  have label: "brings (holds ?J ?R) (sync_pod_label D r s0) (holds ?J ?R)"
    unfolding sync_pod_label_def Let_def D
    by (auto intro!: brings_world brings_ret label_pod_served split: option.splits)
  have "brings (holds ?J ?R) (refresh_stateful_set D ?new old) ?Q"
    unfolding refresh_stateful_set_def D if_P [OF old(4)]
    by (intro brings_bind [OF brings_world [OF expansion_served [OF old(5)]]] sync_status_up [OF old(3,2)])
  then have rest: "brings (holds ?J ?R) (andthen (sync_pod_label D r s0) (refresh_stateful_set D ?new old)) ?Q"
    by (rule brings_bind [OF label])
  show "brings (holds ?J (\<lambda>ctx di. ?R ctx di \<and> ctx = ms_ctx s0 \<and> di = ms_di s0))
      (bindp (try_prog (on_world (decoded as_stateful_set (kc_get K (set_key (ms_ctx s0) r))))) (\<lambda>res. case res of
         Inl e \<Rightarrow>
           if \<not> is_not_found e then throw (Failure ''syncStatefulSet: failed to get sts'')
           else if sp_paused (di_spec (ms_di s0)) then ret ()
           else andthen (sync_pod_label D r s0)
             (create_stateful_set D (get_stateful_set_for_replica (ms_ctx s0) (ms_di s0) r))
       | Inr old \<Rightarrow>
           if sp_paused (di_spec (ms_di s0)) then ret ()
           else andthen (sync_pod_label D r s0)
             (refresh_stateful_set D (get_stateful_set_for_replica (ms_ctx s0) (ms_di s0) r) old))) ?Q"
    unfolding ctx di
  proof (rule bringsI)
    fix s :: "('w, 'd) mstate" assume s: "holds ?J (\<lambda>ctx di. ?R ctx di \<and> ctx = ?ctx \<and> di = ms_di s0) s"
    then have "objs (ms_world s) (set_key ?ctx r) = Some (KStatefulSet old)"
      using old(1) by (auto simp: holds_def calm_def settled_def set_key_def)
    then obtain w where "?J w" "try_prog (decoded as_stateful_set (kc_get K (set_key ?ctx r))) (ms_world s) = (Done (Inr old), w)"
      using read_serves [of "dp_codec D" start "ms_world s" "set_key ?ctx r" as_stateful_set] s view_kinds(4)
      by (auto simp: holds_def set_key_def as_stateful_set_def)
    then show "\<exists>x s'. bindp (try_prog (on_world (decoded as_stateful_set (kc_get K (set_key ?ctx r))))) (\<lambda>res. case res of
         Inl e \<Rightarrow>
           if \<not> is_not_found e then throw (Failure ''syncStatefulSet: failed to get sts'')
           else if sp_paused (di_spec d0) then ret ()
           else andthen (sync_pod_label D r s0) (create_stateful_set D ?new)
       | Inr old \<Rightarrow>
           if sp_paused (di_spec d0) then ret ()
           else andthen (sync_pod_label D r s0) (refresh_stateful_set D ?new old)) s = (Done x, s') \<and> ?Q s'"
      using brings_run [OF rest, of "s\<lparr>ms_world := w\<rparr>"] s run
      by (auto simp: bindp_def try_prog_def on_world_def holds_def split: prod.splits outcome.splits)
  qed
qed

lemma replica_service_served:
  assumes "dp_kube D = K" "codec_total (dp_codec D)"
  shows "brings (holds (calm (dp_codec D) start) R) (sync_service_for_replica D r)
    (holds (calm (dp_codec D) start) R)"
  unfolding sync_service_for_replica_def assms(1)
proof (rule brings_read_holds)
  fix s0 :: "('w, 'b) mstate"
  show "brings (holds (calm (dp_codec D) start) (\<lambda>ctx di. R ctx di \<and> ctx = ms_ctx s0 \<and> di = ms_di s0))
      (on_world (sync_service K (dp_codec D) (mc_namespace (ms_ctx s0)) (get_new_replica_service (ms_ctx s0) (ms_di s0) r)))
      (holds (calm (dp_codec D) start) R)"
    by (rule brings_weaken [OF brings_world [OF service_served [OF assms(2)]]])
      (auto simp: zero_meta_def get_new_replica_service_def Let_def holds_def)
qed

lemma sync_replica_up:
  fixes D :: "('w, 'd) deps"
  assumes D: "dp_kube D = K" "codec_total (dp_codec D)" "driver_up (dp_driver D)" and run: "\<not> sp_paused (di_spec d0)"
    and there: "up_to_date e (dp_codec D) (base\<lparr>mc_cur_cluster := c, mc_cur_shard := sh, mc_cur_replica := rp_name r\<rparr>) d0 start r"
  shows "brings (holds (calm (dp_codec D) start) (on_course e d0 base (in_shard c sh k) k)) (sync_replica D r)
    (holds (calm (dp_codec D) start) (on_course e d0 base (in_shard c sh (k + 1)) (k + 1)))"
  unfolding sync_replica_def D(1)
  by (intro config_maps_stay brings_bind [OF replica_entered] brings_read_holds brings_bind [OF replicas_made]
      brings_bind [OF brings_world [OF config_map_served]] brings_bind [OF sync_set_up [OF D(1) run there]]
      brings_bind [OF replica_service_served [OF D(1,2)]] sync_tables_up [OF D(3)])

lemma sync_shard_up:
  fixes D :: "('w, 'd) deps"
  assumes D: "dp_kube D = K" "codec_total (dp_codec D)" "driver_up (dp_driver D)" and run: "\<not> sp_paused (di_spec d0)"
    and there: "shard_up e (dp_codec D) base d0 start c sh"
  shows "brings (holds (calm (dp_codec D) start) (on_course e d0 base (in_cluster c k) k)) (sync_shard D sh)
    (holds (calm (dp_codec D) start) (on_course e d0 base (in_cluster c (k + int (mlen (sh_replicas sh))))
       (k + int (mlen (sh_replicas sh)))))"
  unfolding sync_shard_def
proof (rule brings_bind [OF shard_entered brings_read_holds])
  fix s0 :: "('w, 'd) mstate"
  let ?J = "calm (dp_codec D) start" and ?m = "k + int (mlen (sh_replicas sh))"
  let ?I = "\<lambda>k. holds ?J (on_course e d0 base (in_shard c (sh_name sh) k) k)"
  assume now: "on_course e d0 base (at_shard c sh k) k (ms_ctx s0) (ms_di s0)"
  have "brings (?I k) (each (\<lambda>(_, r). sync_replica D r) (mentries (sh_replicas sh)))
      (?I (k + sum_list (map (\<lambda>_. 1) (mentries (sh_replicas sh)))))"
    by (rule brings_each_count [where I = ?I])
      (use there in \<open>auto simp: shard_up_def list_all_iff intro!: sync_replica_up [OF D run]\<close>)
  moreover have "sum_list (map (\<lambda>_. 1) (mentries (sh_replicas sh))) = int (mlen (sh_replicas sh))"
    by (simp add: mlen_def sum_list_triv)
  ultimately have replicas: "brings (?I k) (each (\<lambda>(_, r). sync_replica D r) (mentries (sh_replicas sh))) (?I ?m)" by simp
  have extra: "brings (?I ?m) (bindp get_state (\<lambda>s1. each (delete_replica D) (extra_replicas (ms_ctx s1) sh (ms_di s1))))
      (holds ?J (on_course e d0 base (in_cluster c ?m) ?m))"
  proof (rule brings_read_holds)
    fix s1 :: "('w, 'd) mstate"
    let ?P = "on_course e d0 base (in_shard c (sh_name sh) ?m) ?m"
    assume "?P (ms_ctx s1) (ms_di s1)"
    then have "extra_replicas (ms_ctx s1) sh (ms_di s1)
        = extra_replicas (base\<lparr>mc_cur_cluster := c, mc_cur_shard := sh_name sh\<rparr>) sh d0"
      by (intro extra_replicas_cong) (auto simp: on_course_def in_shard_def)
    then have none: "extra_replicas (ms_ctx s1) sh (ms_di s1) = []" using there by (simp add: shard_up_def)
    show "brings (holds ?J (\<lambda>ctx di. ?P ctx di \<and> ctx = ms_ctx s1 \<and> di = ms_di s1))
        (each (delete_replica D) (extra_replicas (ms_ctx s1) sh (ms_di s1))) (holds ?J (on_course e d0 base (in_cluster c ?m) ?m))"
      unfolding none each.simps
      by (rule brings_ret) (auto simp: holds_def on_course_def dest: relation_chain)
  qed
  show "brings (holds ?J (\<lambda>ctx di. on_course e d0 base (at_shard c sh k) k ctx di \<and> ctx = ms_ctx s0 \<and> di = ms_di s0))
      (andthen (write_status (record_shard (mc_cur_cluster (ms_ctx s0)) sh))
      (andthen (each (\<lambda>(_, r). sync_replica D r) (mentries (sh_replicas sh)))
      (bindp get_state (\<lambda>s1. each (delete_replica D) (extra_replicas (ms_ctx s1) sh (ms_di s1))))))
      (holds ?J (on_course e d0 base (in_cluster c ?m) ?m))"
    by (rule brings_bind [OF shard_recorded [OF now] brings_bind [OF replicas extra]])
qed

lemma sync_cluster_up:
  fixes D :: "('w, 'd) deps"
  assumes D: "dp_kube D = K" "codec_total (dp_codec D)" "driver_up (dp_driver D)" and run: "\<not> sp_paused (di_spec d0)"
    and there: "\<forall>(_, sh) \<in> set (mentries (lo_shards (cl_layout c))). shard_up e (dp_codec D) base d0 start name sh"
  shows "brings (holds (calm (dp_codec D) start) (on_course e d0 base (at_cluster name k) k)) (sync_cluster D c)
    (holds (calm (dp_codec D) start)
      (on_course e d0 base (\<lambda>_. status_ok (k + cluster_weight (name, c))) (k + cluster_weight (name, c))))"
  unfolding sync_cluster_def
proof (rule brings_bind [OF cluster_made])
  let ?J = "calm (dp_codec D) start"
  let ?I = "\<lambda>k. holds ?J (on_course e d0 base (in_cluster name k) k)"
  have "brings (?I k) (each (\<lambda>(_, sh). sync_shard D sh) (mentries (lo_shards (cl_layout c))))
      (?I (k + sum_list (map shard_weight (mentries (lo_shards (cl_layout c))))))"
    by (rule brings_each_count [where I = ?I])
      (use there in \<open>auto simp: shard_weight_def intro!: sync_shard_up [OF D run]\<close>)
  then show "brings (?I k) (each (\<lambda>(_, sh). sync_shard D sh) (mentries (lo_shards (cl_layout c))))
      (holds ?J (on_course e d0 base (\<lambda>_. status_ok (k + cluster_weight (name, c))) (k + cluster_weight (name, c))))"
    by (rule brings_weaken) (auto simp: cluster_weight_def holds_def on_course_def dest: relation_chain)
qed

lemma cluster_step_up:
  fixes D :: "('w, 'd) deps"
  assumes D: "dp_kube D = K" "codec_total (dp_codec D)" "driver_up (dp_driver D)" and run: "\<not> sp_paused (di_spec d0)"
    and there: "\<forall>(_, sh) \<in> set (mentries (lo_shards (cl_layout (snd p)))). shard_up e (dp_codec D) base d0 start (fst p) sh"
  shows "brings (holds (calm (dp_codec D) start) (on_course e d0 base (\<lambda>_. status_ok k) k))
    ((\<lambda>(name, c). andthen (set_ctx (\<lambda>x. x\<lparr>mc_cur_cluster := name\<rparr>)) (sync_cluster D c)) p)
    (holds (calm (dp_codec D) start) (on_course e d0 base (\<lambda>_. status_ok (k + cluster_weight p)) (k + cluster_weight p)))"
proof (cases p)
  case (Pair name c)
  then have sh: "\<forall>(_, sh) \<in> set (mentries (lo_shards (cl_layout c))). shard_up e (dp_codec D) base d0 start name sh"
    using there by simp
  show ?thesis unfolding Pair prod.case by (rule brings_bind [OF cluster_entered sync_cluster_up [OF D run sh]])
qed

lemma sync_configuration_up:
  fixes D :: "('w, 'd) deps"
  assumes D: "dp_kube D = K" "codec_total (dp_codec D)" "driver_up (dp_driver D)" and run: "\<not> sp_paused (di_spec d0)"
    and base: "base = (sync_context n d0)\<lparr>mc_clusters := cf_clusters (sp_configuration (no_spec n))\<rparr>"
    and there: "\<forall>(name, c) \<in> set (mentries (cf_clusters (sp_configuration (no_spec n)))).
      \<forall>(_, sh) \<in> set (mentries (lo_shards (cl_layout c))). shard_up e (dp_codec D) base d0 start name sh"
  shows "brings (holds (calm (dp_codec D) start) (\<lambda>ctx di. ctx = sync_context n d0
      \<and> on_course e d0 ctx (\<lambda>_. status_ok (- int (replicas_count n))) (- int (replicas_count n)) ctx di))
    (sync_configuration D) (holds (calm (dp_codec D) start) (on_course e d0 base (\<lambda>_. status_ok 0) 0))"
  unfolding sync_configuration_def Let_def
proof (rule brings_read_holds)
  fix s0 :: "('w, 'd) mstate"
  let ?J = "calm (dp_codec D) start" and ?N = "- int (replicas_count n)"
  let ?cs = "cf_clusters (sp_configuration (no_spec n))"
  let ?step = "\<lambda>(name, c). andthen (set_ctx (\<lambda>x. x\<lparr>mc_cur_cluster := name\<rparr>)) (sync_cluster D c) :: ('w, 'd, unit) mprog"
  let ?I = "\<lambda>k. holds ?J (on_course e d0 base (\<lambda>_. status_ok k) k)"
  assume "ms_ctx s0 = sync_context n d0 \<and> on_course e d0 (ms_ctx s0) (\<lambda>_. status_ok ?N) ?N (ms_ctx s0) (ms_di s0)"
  then have n: "mc_normalized (ms_ctx s0) = n" by (simp add: sync_context_def)
  have "brings (?I ?N) (each ?step (mentries ?cs)) (?I (?N + sum_list (map cluster_weight (mentries ?cs))))"
    by (rule brings_each_count [where I = ?I])
      (rule cluster_step_up [OF D run], use there in \<open>auto simp: split_def\<close>)
  then have loop: "brings (?I ?N) (each ?step (mentries ?cs)) (?I 0)" by (simp add: replicas_count_weight)
  show "brings (holds ?J (\<lambda>ctx di. (ctx = sync_context n d0 \<and> on_course e d0 ctx (\<lambda>_. status_ok ?N) ?N ctx di)
        \<and> ctx = ms_ctx s0 \<and> di = ms_di s0))
      (andthen (set_ctx (\<lambda>c. c\<lparr>mc_clusters := cf_clusters (sp_configuration (no_spec (mc_normalized (ms_ctx s0))))\<rparr>))
        (each ?step (mentries (cf_clusters (sp_configuration (no_spec (mc_normalized (ms_ctx s0))))))))
      (?I 0)"
    unfolding n by (rule brings_bind [OF clusters_set [OF base] loop])
qed

text \<open>The steps of \<open>Sync\<close> around the walk.\<close>

lemma sync_context_normalized: "mc_normalized (sync_context n d) = n"
  by (simp add: sync_context_def)

lemma brings_gets: "(\<And>s. brings P (f (g s)) Q) \<Longrightarrow> brings P (bindp (gets g) f) Q"
  by (simp add: brings_def bindp_def gets_def)

lemma installation_service_served:
  assumes "dp_kube D = K" "codec_total (dp_codec D)" "\<And>ctx di. R ctx di \<Longrightarrow> mc_namespace ctx = di_namespace di"
  shows "brings (holds (calm (dp_codec D) start) R) (sync_service_for_installation D)
    (holds (calm (dp_codec D) start) R)"
  unfolding sync_service_for_installation_def assms(1)
proof (rule brings_read_holds)
  fix s0 :: "('w, 'b) mstate"
  assume "R (ms_ctx s0) (ms_di s0)"
  then have "mc_namespace (ms_ctx s0) = di_namespace (ms_di s0)" by (rule assms(3))
  then show "brings (holds (calm (dp_codec D) start) (\<lambda>ctx di. R ctx di \<and> ctx = ms_ctx s0 \<and> di = ms_di s0))
      (on_world (sync_service K (dp_codec D) (mc_namespace (ms_ctx s0)) (get_new_installation_service (ms_di s0))))
      (holds (calm (dp_codec D) start) R)"
    by (intro brings_weaken [OF brings_world [OF service_served [OF assms(2)]]])
      (auto simp: zero_meta_def get_new_installation_service_def Let_def holds_def)
qed

lemma config_maps_served:
  assumes "dp_kube D = K"
  shows "brings (holds (calm cd start) R) (sync_config_maps D u) (holds (calm cd start) R)"
  unfolding sync_config_maps_def assms
  by (intro brings_gets brings_bind [OF brings_world [OF config_map_served]] brings_world config_map_served) simp_all

lemma apply_annotation_up:
  fixes D :: "('w, 'd) deps"
  assumes "codec_total (dp_codec D)"
    and Q: "\<And>ctx di b st. R ctx di \<Longrightarrow> st = (di_status di)\<lparr>is_prev_spec := no_spec n\<rparr> \<Longrightarrow>
      Q ctx (di\<lparr>di_meta := set_annotation last_applied_config b (di_meta di), di_status := st\<rparr>)"
  shows "brings (holds J R) (apply_annotation D n) (holds J Q)"
  unfolding apply_annotation_def
proof (rule bringsI)
  fix s :: "('w, 'd) mstate" assume s: "holds J R s"
  obtain b where b: "cd_marshal_installation (dp_codec D) (di_spec (ms_di s)) = Some b"
    using assms(1) unfolding codec_total_def by blast
  show "\<exists>x s'. bindp (gets ms_di) (\<lambda>d. bindp (from_sum (set_installation_last_applied (dp_codec D) d (no_spec n)))
      (\<lambda>d'. set_di (\<lambda>_. d'))) s = (Done x, s') \<and> holds J Q s'"
    using s Q by (auto simp: bindp_def gets_def from_sum_def set_installation_last_applied_def b ret_def set_di_def
      modify_def holds_def)
qed

text \<open>
  The two updates of the installation: both are served. The first gives it back with whatever status
  the server keeps, after the second one it is stored with the status of the operator.
\<close>

lemma calm_report:
  assumes "calm cd start w" "ikey = ob_key (KInstallation d)" "up w'" "objs w' = (objs w)(ikey \<mapsto> KInstallation d)"
  shows "calm cd (start(ikey \<mapsto> KInstallation d)) w'"
  using assms by (auto simp: calm_def settled_def)

lemma calm_installation: "calm cd start w \<Longrightarrow> objs w (ob_key (KInstallation d)) = start (ob_key (KInstallation d))"
  by (simp add: calm_def settled_def)

lemma key_status [simp]: "ob_key (KInstallation (d\<lparr>di_status := st\<rparr>)) = ob_key (KInstallation d)"
  by (simp add: ob_key_def)

abbreviation reported where
  "reported cd start ikey s \<equiv> calm cd (start(ikey \<mapsto> KInstallation (ms_di s)))"

abbreviation stored_as where
  "stored_as cd start ikey st s \<equiv> calm cd (start(ikey \<mapsto> KInstallation ((ms_di s)\<lparr>di_status := st\<rparr>)))"

lemma update_di_up:
  fixes D :: "('w, 'd) deps"
  assumes D: "dp_kube D = K"
    and key: "\<And>ctx di. R ctx di \<Longrightarrow> ob_key (KInstallation di) = ikey \<and> om_deletion_timestamp (di_meta di) = None"
    and there: "start ikey \<noteq> None"
  shows "brings (holds (calm cd start) R) (update_di D)
    (\<lambda>s. holds (reported cd start ikey s) (\<lambda>ctx di. \<exists>st. R ctx (di\<lparr>di_status := st\<rparr>)) s)"
  unfolding update_di_def D
proof (rule bringsI)
  fix s :: "('w, 'd) mstate" assume s: "holds (calm cd start) R s"
  let ?d = "ms_di s"
  have w: "calm cd start (ms_world s)" "ikey = ob_key (KInstallation ?d)" "\<not> leaving (KInstallation ?d)"
    using s key by (auto simp: holds_def leaving_def)
  obtain ob w' where w': "up w'" "as_updated (KInstallation ?d) ob" "objs w' = (objs (ms_world s))(ikey \<mapsto> ob)"
    "kc_update K (KInstallation ?d) (ms_world s) = (Inr ob, w')"
    using update_serves [of "ms_world s" "KInstallation ?d"] w there calm_installation [OF w(1)]
    by (auto simp: calm_def)
  obtain d' where d': "ob = KInstallation d'" "d'\<lparr>di_status := di_status ?d\<rparr> = ?d"
    using w'(2) by (cases ob) (auto simp: as_updated_def)
  have "ikey = ob_key (KInstallation d')" using d'(2) w(2) key_status [of _ d'] by metis
  then have "calm cd (start(ikey \<mapsto> KInstallation d')) w'"
    using calm_report [OF w(1)] w'(1,3) d'(1) by blast
  moreover have "R (ms_ctx s) (d'\<lparr>di_status := di_status ?d\<rparr>)" using s d'(2) by (simp add: holds_def)
  ultimately show "\<exists>x s'. bindp (gets ms_di) (\<lambda>d. bindp (on_world (api (kc_update K (KInstallation d)))) receive_di) s
      = (Done x, s') \<and> holds (reported cd start ikey s') (\<lambda>ctx di. \<exists>st. R ctx (di\<lparr>di_status := st\<rparr>)) s'"
    using w'(4) d'(1) by (auto simp: bindp_def gets_def on_world_def api_def receive_di_def as_installation_def set_di_def
      modify_def holds_def)
qed

lemma update_status_up:
  fixes D :: "('w, 'd) deps"
  assumes D: "dp_kube D = K" and key: "\<And>ctx di. R ctx di \<Longrightarrow> ob_key (KInstallation di) = ikey"
  shows "brings (\<lambda>s. \<exists>st. holds (stored_as cd start ikey st s) R s) (update_installation_status D t)
    (\<lambda>s. holds (reported cd start ikey s) R s)"
  unfolding update_installation_status_def D
proof (rule bringsI)
  fix s :: "('w, 'd) mstate" assume "\<exists>st. holds (stored_as cd start ikey st s) R s"
  then obtain st where s: "holds (stored_as cd start ikey st s) R s" by blast
  let ?d = "ms_di s" and ?k = "OKey InstallationKind (di_namespace (ms_di s)) (di_name (ms_di s))"
  let ?start = "start(ikey \<mapsto> KInstallation (?d\<lparr>di_status := st\<rparr>))"
  have "ob_key (KInstallation ?d) = ?k" by (simp add: ob_key_def meta_key_def)
  moreover have "ob_key (KInstallation ?d) = ikey" using s key by (auto simp: holds_def)
  ultimately have k: "ikey = ob_key (KInstallation ?d)" "?k = ikey" by simp_all
  obtain w1 where w1: "calm cd ?start w1" "objs w1 = objs (ms_world s)"
    "try_prog (decoded as_installation (kc_get K ikey)) (ms_world s) = (Done (case objs (ms_world s) ikey of
       None \<Rightarrow> Inl (Api NotFound) | Some ob \<Rightarrow> Inr (the (as_installation ob))), w1)"
    using read_serves [of cd ?start "ms_world s" ikey as_installation] s view_kinds(6) k(2) by (auto simp: holds_def)
  have there: "objs w1 ikey = Some (KInstallation (?d\<lparr>di_status := st\<rparr>))"
    using calm_installation [OF w1(1), of ?d] k(1) by simp
  then obtain w2 where "up w2" "objs w2 = (objs w1)(ikey \<mapsto> KInstallation ?d)"
    and upd: "kc_update_status K (KInstallation ?d) w1 = (Inr (KInstallation ?d), w2)"
    using status_serves [of w1 ?d st] w1(1) unfolding k(1) [symmetric] by (auto simp: calm_def)
  then have w2: "calm cd (start(ikey \<mapsto> KInstallation ?d)) w2" using calm_report [OF w1(1) k(1)] by simp
  have read: "try_prog (on_world (decoded as_installation (kc_get K ikey))) s
      = (Done (Inr (?d\<lparr>di_status := st\<rparr>)), s\<lparr>ms_world := w1\<rparr>)"
    using w1(2,3) there by (auto simp: try_prog_def on_world_def as_installation_def split: prod.splits outcome.splits)
  show "\<exists>x s'. bindp (gets ms_di) (\<lambda>d. bindp (try_prog (on_world (decoded as_installation
        (kc_get K (OKey InstallationKind (di_namespace d) (di_name d)))))) (\<lambda>r. case r of
      Inl e \<Rightarrow> if t then ret () else throw e
    | Inr _ \<Rightarrow> bindp (on_world (api (kc_update_status K (KInstallation d)))) receive_di)) s
    = (Done x, s') \<and> holds (reported cd start ikey s') R s'"
    using s w2 upd read by (auto simp: bindp_def gets_def on_world_def api_def receive_di_def as_installation_def set_di_def
      modify_def holds_def k(2))
qed

lemma completed_key: "completed e ikey ctx di \<Longrightarrow> ob_key (KInstallation di) = ikey"
  by (simp add: completed_def)

lemma status_restored:
  assumes "R (ms_ctx s0) (ms_di s0)"
  shows "brings (\<lambda>s. holds (reported cd start ikey s) (\<lambda>ctx di. \<exists>st. R ctx (di\<lparr>di_status := st\<rparr>) \<and> ctx = ms_ctx s0
      \<and> di\<lparr>di_status := st\<rparr> = ms_di s0) s)
    (on_status (\<lambda>_. ms_status s0)) (\<lambda>s. \<exists>st. holds (stored_as cd start ikey st s) R s)"
proof -
  have same: "d\<lparr>di_status := ms_status s0\<rparr> = ms_di s0" if "d\<lparr>di_status := st\<rparr> = ms_di s0" for d st
    using that by (cases d; cases "ms_di s0") simp
  show ?thesis
  proof (rule bringsI)
    fix s :: "('w, 'd) mstate"
    assume "holds (reported cd start ikey s) (\<lambda>ctx di. \<exists>st. R ctx (di\<lparr>di_status := st\<rparr>) \<and> ctx = ms_ctx s0
      \<and> di\<lparr>di_status := st\<rparr> = ms_di s0) s"
    then have s: "reported cd start ikey s (ms_world s)" "ms_ctx s = ms_ctx s0"
      and di: "(ms_di s)\<lparr>di_status := ms_status s0\<rparr> = ms_di s0" using same by (auto simp: holds_def)
    let ?s = "s\<lparr>ms_di := ms_di s0\<rparr>"
    have "(ms_di ?s)\<lparr>di_status := ms_status s\<rparr> = ms_di s" using di by (cases "ms_di s"; cases "ms_di s0") simp
    then have "holds (stored_as cd start ikey (ms_status s) ?s) R ?s" using s assms by (simp add: holds_def)
    then show "\<exists>x s'. on_status (\<lambda>_. ms_status s0) s = (Done x, s') \<and> (\<exists>st. holds (stored_as cd start ikey st s') R s')"
      using di by (auto simp: on_status_def set_di_def modify_def)
  qed
qed

lemma final_update_up:
  fixes D :: "('w, 'd) deps"
  assumes "dp_kube D = K" "start ikey \<noteq> None"
  shows "brings (holds (calm cd start) (completed e ikey))
    (bindp get_state (\<lambda>s. if status_unchanged old (ms_status s) then ret ()
       else andthen (update_di D) (andthen (on_status (\<lambda>_. ms_status s)) (update_installation_status D True))))
    (\<lambda>s. holds (reported cd start ikey s) (completed e ikey) s)"
proof (rule brings_read_holds)
  fix s0 :: "('w, 'd) mstate"
  let ?R = "\<lambda>ctx di. completed e ikey ctx di \<and> ctx = ms_ctx s0 \<and> di = ms_di s0"
  assume c: "completed e ikey (ms_ctx s0) (ms_di s0)"
  show "brings (holds (calm cd start) ?R)
      (if status_unchanged old (ms_status s0) then ret ()
       else andthen (update_di D) (andthen (on_status (\<lambda>_. ms_status s0)) (update_installation_status D True)))
      (\<lambda>s. holds (reported cd start ikey s) (completed e ikey) s)"
    unfolding status_unchanged_def if_False
    by (rule brings_bind [OF update_di_up [where ikey = ikey and start = start and R = ?R, OF assms(1) _ assms(2)]
          brings_bind [OF status_restored [where R = "completed e ikey"] update_status_up]])
      (use c assms(1) in \<open>simp_all add: completed_def\<close>)
qed

text \<open>The status \<open>Sync\<close> starts from: no replica is counted, and all of them are still to come.\<close>

abbreviation at_start where
  "at_start e n d0 \<equiv> \<lambda>ctx di. ctx = sync_context n d0
     \<and> on_course e d0 ctx (\<lambda>_. status_ok (- int (replicas_count n))) (- int (replicas_count n)) ctx di"

lemma sync_started:
  "brings (holds J (\<lambda>_ di. di = d0))
    (modify (\<lambda>s. s\<lparr>ms_for_cfg := (ms_di s)\<lparr>di_spec := no_spec n\<rparr>, ms_ctx := sync_context n (ms_di s)\<rparr>))
    (holds J (\<lambda>ctx di. ctx = sync_context n d0 \<and> di = d0))"
  by (simp add: brings_def modify_def holds_def)

lemma status_filled:
  assumes "names_ok (di_status d0)"
  shows "brings (holds J (\<lambda>ctx di. ctx = sync_context n d0 \<and> di = d0))
    (bindp get_state (\<lambda>s. on_status (\<lambda>st. status_reset (fill_status v (ms_ctx s) st)))) (holds J (at_start e n d0))"
proof -
  let ?N = "- int (replicas_count n)"
  let ?fill = "\<lambda>st. status_reset (fill_status v (sync_context n d0) st)"
  have "status_ok ?N (?fill (di_status d0))"
    using start_status [OF assms, of "sync_context n d0" v] by (simp add: sync_context_normalized)
  then have "at_start e n d0 (sync_context n d0) (d0\<lparr>di_status := ?fill (di_status d0)\<rparr>)"
    by (auto simp: on_course_def run_context_def status_reset_def fill_status_def sync_context_normalized)
  then show ?thesis by (intro brings_read_holds brings_on_status) auto
qed

lemma service_made:
  assumes "dp_kube D = K" "codec_total (dp_codec D)"
  shows "brings (holds (calm (dp_codec D) start) (at_start e n d0)) (sync_service_for_installation D)
    (holds (calm (dp_codec D) start) (at_start e n d0))"
  by (rule installation_service_served [OF assms]) (auto simp: sync_context_def name_context_def on_course_def)

lemma sync_normalized_up:
  fixes D :: "('w, 'd) deps"
  assumes D: "dp_kube D = K" "codec_total (dp_codec D)" "driver_up (dp_driver D)"
    and run: "\<not> sp_paused (di_spec d0)" and names: "names_ok (di_status d0)"
    and base: "base = (sync_context n d0)\<lparr>mc_clusters := cf_clusters (sp_configuration (no_spec n))\<rparr>"
    and there: "\<forall>(name, c) \<in> set (mentries (cf_clusters (sp_configuration (no_spec n)))).
      \<forall>(_, sh) \<in> set (mentries (lo_shards (cl_layout c))). shard_up e (dp_codec D) base d0 start name sh"
    and ikey: "ikey = ob_key (KInstallation d0)" "start ikey \<noteq> None" and stays: "om_deletion_timestamp (di_meta d0) = None"
  shows "brings (holds (calm (dp_codec D) start) (\<lambda>_ di. di = d0)) (sync_normalized D old n)
    (\<lambda>s. holds (calm (dp_codec D) (start(ikey \<mapsto> KInstallation (ms_di s)))) (completed e ikey) s)"
proof -
  let ?J = "calm (dp_codec D) start"
  let ?All = "\<lambda>ctx di. ob_key (KInstallation di) = ikey \<and> om_deletion_timestamp (di_meta di) = None
      \<and> (e \<longrightarrow> is_ready_replicas (di_status di) = is_replicas_count (di_status di))"
  have annotation: "brings (holds ?J (on_course e d0 base (\<lambda>_. status_ok 0) 0)) (apply_annotation D n) (holds ?J ?All)"
    by (rule apply_annotation_up [OF D(2)])
      (simp add: on_course_def ikey(1) stays ob_key_def meta_key_def set_annotation_def)
  have decide: "brings (holds ?J ?All) (bindp get_state (\<lambda>s. on_status (decide_state (ms_di s)))) (holds ?J (completed e ikey))"
    by (rule brings_read_holds, rule brings_on_status)
      (auto simp: decide_state_def is_ready_def completed_def ob_key_def status_completed_def status_in_progress_def)
  show ?thesis
    unfolding sync_normalized_def
    by (intro brings_bind [OF sync_started] brings_bind [OF status_filled [where e = e, OF names]] brings_bind [OF service_made [where e = e, OF D(1,2)]]
        brings_bind [OF config_maps_served [OF D(1)]] brings_bind [OF sync_configuration_up [OF D run base there]]
        brings_bind [OF annotation] brings_bind [OF decide] final_update_up [where ikey = ikey and start = start, OF D(1) ikey(2)])
qed

end

section \<open>The concrete server serves when no fault is scheduled\<close>

lemma no_fault: "sr_faults w = [] \<Longrightarrow> guarded c w = c w"
  by (simp add: guarded_def next_fault_def)

definition serves_all :: "server \<Rightarrow> bool" where
  "serves_all w \<longleftrightarrow> sr_faults w = [] \<and> (\<forall>k ob. store w k = Some ob \<longrightarrow> \<not> leaving ob)"

lemma serves_all_start: "sr_faults w = [] \<Longrightarrow> \<forall>(k, ob) \<in> set (sr_objects w). \<not> leaving ob \<Longrightarrow> serves_all w"
  by (fastforce simp: serves_all_def store_def dest: map_of_SomeD split: option.splits if_splits)

lemma leaving_status [simp]: "leaving (KInstallation (d\<lparr>di_status := st\<rparr>)) \<longleftrightarrow> leaving (KInstallation d)"
  by (simp add: leaving_def)

lemma as_updated_same: "as_updated ob ob"
  by (simp add: as_updated_def split: kobject.splits)

interpretation serving: kube_serves server_kube store serves_all
proof
  fix w ob assume w: "serves_all w"
  show "\<exists>w'. serves_all w' \<and> store w' = (store w)(ob_key ob \<mapsto> ob) \<and> kc_create server_kube ob w = (Inr ob, w')"
    if "store w (ob_key ob) = None" "\<not> leaving ob"
    using w that by (auto simp: serves_all_def server_kube_def no_fault store_insert)
  show "\<exists>ob' w'. serves_all w' \<and> as_updated ob ob' \<and> store w' = (store w)(ob_key ob \<mapsto> ob')
      \<and> kc_update server_kube ob w = (Inr ob', w')" if "store w (ob_key ob) \<noteq> None" "\<not> leaving ob"
    using w that as_updated_same by (auto simp: serves_all_def server_kube_def no_fault store_insert)
  show "\<not> leaving ob" if "store w k = Some ob" for k
    using w that by (auto simp: serves_all_def)
next
  fix w k assume w: "serves_all w"
  then show "\<exists>w'. serves_all w' \<and> store w' = store w \<and> kc_get server_kube k w
      = (case store w k of None \<Rightarrow> Inl NotFound | Some ob \<Rightarrow> Inr ob, w')"
    by (auto simp: serves_all_def server_kube_def no_fault split: option.splits)
  fix d st assume d: "store w (ob_key (KInstallation d)) = Some (KInstallation (d\<lparr>di_status := st\<rparr>))"
  then have "\<not> leaving (KInstallation (d\<lparr>di_status := st\<rparr>))" using w unfolding serves_all_def by blast
  then show "\<exists>w'. serves_all w' \<and> store w' = (store w)(ob_key (KInstallation d) \<mapsto> KInstallation d)
      \<and> kc_update_status server_kube (KInstallation d) w = (Inr (KInstallation d), w')"
    using w d by (auto simp: serves_all_def server_kube_def no_fault store_insert)
qed

lemma log_driver_up: "driver_up log_driver"
  by (simp add: driver_up_def log_driver_def)

section \<open>Completion\<close>

text \<open>Every replica the normalized specification names has its stateful set up to date and ready.\<close>

definition sets_up ::
  "bool \<Rightarrow> codec \<Rightarrow> normalized_spec \<Rightarrow> daisy_installation \<Rightarrow> (okey \<Rightarrow> kobject option) \<Rightarrow> bool" where
  "sets_up e cd n di stored \<longleftrightarrow>
     (let clusters = cf_clusters (sp_configuration (no_spec n));
          base = (sync_context n di)\<lparr>mc_clusters := clusters\<rparr>
      in list_all (\<lambda>(name, c). list_all (\<lambda>(_, sh). shard_up e cd base di stored name sh)
           (mentries (lo_shards (cl_layout c)))) (mentries clusters))"

lemma add_finalizer_same [simp]:
  "di_spec (add_finalizer d) = di_spec d" "om_deletion_timestamp (di_meta (add_finalizer d)) = om_deletion_timestamp (di_meta d)"
  "ob_key (KInstallation (add_finalizer d)) = ob_key (KInstallation d)"
  by (simp_all add: add_finalizer_def ob_key_def meta_key_def)

lemma sync_finishes:
  fixes D :: "('w, 'd) deps" and s :: "('w, 'd) mstate"
  assumes "kube_serves K objs up" "dp_kube D = K" "codec_total (dp_codec D)" "driver_up (dp_driver D)"
    and "up (ms_world s)" "names_ok (ms_status s)"
    and "om_deletion_timestamp (di_meta (ms_di s)) = None" "\<not> sp_paused (di_spec (ms_di s))"
    and "objs (ms_world s) (ob_key (KInstallation (ms_di s))) \<noteq> None"
    and "\<forall>k v. objs (ms_world s) k = Some (KService v) \<longrightarrow> service_parses (dp_codec D) v"
    and "normalize D (s\<lparr>ms_di := add_finalizer (ms_di s)\<rparr>) = Some (n, s1)"
    and "sets_up e (dp_codec D) n (add_finalizer (ms_di s)) (objs (ms_world s))"
  shows "\<exists>s'. sync_installation D s = Some (Done (), s')
    \<and> (is_state (ms_status s') = status_completed
        \<longleftrightarrow> is_ready_replicas (ms_status s') = is_replicas_count (ms_status s'))
    \<and> (e \<longrightarrow> is_ready_replicas (ms_status s') = is_replicas_count (ms_status s'))
    \<and> objs (ms_world s') (ob_key (KInstallation (ms_di s))) = Some (KInstallation (ms_di s'))
    \<and> (\<forall>k. ok_kind k = StatefulSetKind \<longrightarrow> objs (ms_world s') k = objs (ms_world s) k)"
proof -
  let ?d = "add_finalizer (ms_di s)" and ?cd = "dp_codec D" and ?clusters = "cf_clusters (sp_configuration (no_spec n))"
  let ?J = "kube_serves.calm objs up ?cd" and ?start = "objs (ms_world s)" and ?k = "ob_key (KInstallation (ms_di s))"
  have s1: "ms_world s1 = ms_world s" "ms_di s1 = ?d"
    using normalize_same [OF assms(11)] by simp_all
  have run: "\<not> sp_paused (di_spec ?d)" and names: "names_ok (di_status ?d)" using assms(6,8) by simp_all
  have there: "\<forall>(name, c) \<in> set (mentries ?clusters). \<forall>(_, sh) \<in> set (mentries (lo_shards (cl_layout c))).
      shard_up e ?cd ((sync_context n ?d)\<lparr>mc_clusters := ?clusters\<rparr>) ?d ?start name sh"
    using assms(12) by (simp add: sets_up_def Let_def list_all_iff split_def)
  have "?J ?start (ms_world s1)"
    using assms(5,10) s1(1) by (simp add: kube_serves.calm_def [OF assms(1)] settled_def)
  then have pre: "holds (?J ?start) (\<lambda>_ di. di = ?d) s1" using s1(2) by (simp add: holds_def)
  have "brings (holds (?J ?start) (\<lambda>_ di. di = ?d)) (sync_normalized D (ms_status s) n)
      (\<lambda>s. holds (?J (?start(?k \<mapsto> KInstallation (ms_di s)))) (completed e ?k) s)"
    by (rule kube_serves.sync_normalized_up [OF assms(1-4) run names refl there _ assms(9)]) (simp_all add: assms(7))
  from brings_run [OF this pre] obtain x s' where s': "sync_normalized D (ms_status s) n s1 = (Done x, s')"
    "holds (?J (?start(?k \<mapsto> KInstallation (ms_di s')))) (completed e ?k) s'" by auto
  then have "settled ?cd (?start(?k \<mapsto> KInstallation (ms_di s'))) (objs (ms_world s'))"
    by (simp add: holds_def kube_serves.calm_def [OF assms(1)])
  then show ?thesis
    using assms(7,11) s' by (auto simp: sync_installation_def Let_def holds_def completed_def settled_def)
qed


text \<open>A run: one replica, whose stateful set is stored with its pod ready.\<close>

declare fill_loop.simps [code]

definition ready_spec :: normalized_spec where
  "ready_spec = the (fst (get_installation_from_template pure_env zero_operator_config (add_finalizer zero_installation) True))"

definition wanted_set :: "normalized_spec \<Rightarrow> stateful_set" where
  "wanted_set n =
     (let d = add_finalizer zero_installation;
          clusters = cf_clusters (sp_configuration (no_spec n));
          (c, cl) = hd (mentries clusters);
          sh = snd (hd (mentries (lo_shards (cl_layout cl))));
          r = snd (hd (mentries (sh_replicas sh)))
      in get_stateful_set_for_replica ((sync_context n d)\<lparr>mc_clusters := clusters, mc_cur_cluster := c,
           mc_cur_shard := sh_name sh, mc_cur_replica := rp_name r\<rparr>) d r)"

definition ready_set :: "stateful_set \<Rightarrow> stateful_set" where
  "ready_set w = w\<lparr>set_meta := set_annotation last_applied_config ''sts'' (set_meta w),
     set_status := zero_set_status\<lparr>ss_ready_replicas := 1\<rparr>\<rparr>"

definition ready_codec :: "stateful_set \<Rightarrow> codec" where
  "ready_codec w = \<lparr>
     cd_marshal_service = (\<lambda>_. Some ''svc''),
     cd_unmarshal_service = (\<lambda>_. Some (sv_spec (fst (get_new_installation_service zero_installation)))),
     cd_marshal_set = (\<lambda>_. Some ''sts''), cd_unmarshal_set = (\<lambda>_. Some (set_spec w)),
     cd_marshal_installation = (\<lambda>_. Some ''di''), cd_unmarshal_installation = (\<lambda>_. Some zero_spec),
     cd_unmarshal_pod_spec = (\<lambda>_. None), cd_eq_service = (=),
     cd_eq_strings = (\<lambda>a b. list_all (\<lambda>(k, _). mget a k = mget b k) (mentries a @ mentries b)),
     cd_eq_template = (=), cd_eq_pod_spec = (=)\<rparr>"

definition ready_server :: "stateful_set \<Rightarrow> server" where
  "ready_server w = \<lparr>sr_objects = map (\<lambda>ob. (ob_key ob, ob)) [KInstallation zero_installation, KStatefulSet (ready_set w)],
     sr_faults = []\<rparr>"

definition set_is_up :: "normalized_spec \<Rightarrow> stateful_set \<Rightarrow> bool" where
  "set_is_up n w \<longleftrightarrow> sets_up True (ready_codec w) n (add_finalizer zero_installation) (store (ready_server w))"

definition wanted_is_up :: "normalized_spec \<Rightarrow> bool" where
  "wanted_is_up n \<longleftrightarrow> set_is_up n (wanted_set n)"

lemma spec_up: "wanted_is_up ready_spec"
  by code_simp

definition ready_deps :: "(server, (string \<times> string) list) deps" where
  "ready_deps = example_deps\<lparr>dp_codec := ready_codec (wanted_set ready_spec)\<rparr>"

lemma ready_codec_total: "codec_total (ready_codec w)"
  by (simp add: codec_total_def ready_codec_def)

lemma service_parses_ready: "service_parses (ready_codec w) v"
  by (simp add: service_parses_def ready_codec_def)

lemma ready_server_serves: "serves_all (ready_server (wanted_set ready_spec))"
  by (rule serves_all_start)
    (simp_all add: ready_server_def leaving_def zero_installation_def zero_meta_def ready_set_def set_annotation_def
      wanted_set_def Let_def split_def)


end
