(* ===== verification/Bring_Up.thy ===== *)
theory Bring_Up
  imports Completion Controllers
begin

text \<open>
  A reconciliation that finds stateful sets missing: it creates exactly the first missing one and
  asks for another reconciliation. A triple \<open>stops P m E\<close> says that a program ends with that request.
\<close>

section \<open>Programs that ask for another reconciliation\<close>

definition stops :: "('s \<Rightarrow> bool) \<Rightarrow> ('s, 'a) prog \<Rightarrow> ('s \<Rightarrow> bool) \<Rightarrow> bool" where
  "stops P m E \<longleftrightarrow> (\<forall>s. P s \<longrightarrow> (\<exists>e s'. m s = (Err (RequeueError e), s') \<and> E s'))"

lemma stopsI: "(\<And>s. P s \<Longrightarrow> \<exists>e s'. m s = (Err (RequeueError e), s') \<and> E s') \<Longrightarrow> stops P m E"
  by (simp add: stops_def)

lemma stops_run: "stops P m E \<Longrightarrow> P s \<Longrightarrow> \<exists>e s'. m s = (Err (RequeueError e), s') \<and> E s'"
  by (simp add: stops_def)

lemma stops_first: "stops P m E \<Longrightarrow> stops P (bindp m f) E"
  by (fastforce simp: stops_def bindp_def)

lemma stops_then:
  assumes "brings P m R" "\<And>x. stops R (f x) E"
  shows "stops P (bindp m f) E"
proof (rule stopsI)
  fix s assume "P s"
  then obtain x s1 where "m s = (Done x, s1)" "R s1" using brings_run [OF assms(1)] by blast
  then show "\<exists>e s'. bindp m f s = (Err (RequeueError e), s') \<and> E s'"
    using stops_run [OF assms(2)] by (simp add: bindp_def)
qed

lemma stops_weaken: "stops P' m E' \<Longrightarrow> (\<And>s. P s \<Longrightarrow> P' s) \<Longrightarrow> (\<And>s. E' s \<Longrightarrow> E s) \<Longrightarrow> stops P m E"
  unfolding stops_def by blast

lemma stops_read_holds:
  assumes "\<And>s0. J (ms_world s0) \<Longrightarrow> R (ms_ctx s0) (ms_di s0) \<Longrightarrow>
    stops (holds J (\<lambda>ctx di. R ctx di \<and> ctx = ms_ctx s0 \<and> di = ms_di s0)) (f s0) E"
  shows "stops (holds J R) (bindp get_state f) E"
proof (rule stopsI)
  fix s :: "('a, 'b) mstate" assume "holds J R s"
  then show "\<exists>e s'. bindp get_state f s = (Err (RequeueError e), s') \<and> E s'"
    using stops_run [OF assms [of s]] by (simp add: holds_def bindp_def get_state_def)
qed

text \<open>A loop that gets through some elements and stops at the next one.\<close>

lemma stops_each_count:
  fixes w :: "'x \<Rightarrow> int"
  assumes "\<And>x n. x \<in> set xs \<Longrightarrow> brings (I n) (f x) (I (n + w x))" "\<And>n. stops (I n) (f y) E"
  shows "stops (I n) (each f (xs @ y # zs)) E"
proof -
  have "stops (I (n + sum_list (map w xs))) (each f (y # zs)) E"
    using stops_first [OF assms(2)] by simp
  then show ?thesis
    unfolding each_append by (intro stops_then [OF brings_each_count [where I = I, OF assms(1)]])
qed

lemma first_other:
  assumes "list_all (\<lambda>x. A x \<or> B x) xs" "\<not> list_all A xs"
  shows "\<exists>ys y zs. xs = ys @ y # zs \<and> list_all A ys \<and> \<not> A y \<and> B y"
proof -
  have "\<exists>x \<in> set xs. \<not> A x" using assms(2) by (auto simp: list_all_iff)
  from split_list_first_prop [OF this] obtain ys y zs where
    xs: "xs = ys @ y # zs" "\<not> A y" "\<forall>x \<in> set ys. \<not> \<not> A x" by blast
  then have "list_all A ys" "B y" using assms(1) by (auto simp: list_all_iff)
  with xs show ?thesis by blast
qed

lemma first_other_concat:
  assumes "list_all (\<lambda>x. A x \<or> B x) (concat (map g xs))" "\<not> list_all A (concat (map g xs))"
  shows "\<exists>ys y zs. xs = ys @ y # zs \<and> list_all (\<lambda>y. list_all A (g y)) ys \<and> \<not> list_all A (g y)
    \<and> list_all (\<lambda>x. A x \<or> B x) (g y)"
proof -
  have "list_all (\<lambda>y. list_all (\<lambda>x. A x \<or> B x) (g y)) xs" "\<not> list_all (\<lambda>y. list_all A (g y)) xs"
    using assms by (auto simp: list_all_iff)
  then show ?thesis
    using first_other [of "\<lambda>y. list_all A (g y)" "\<lambda>y. list_all (\<lambda>x. A x \<or> B x) (g y)" xs] by (simp add: list_all_iff)
qed

section \<open>The order of the walk\<close>

definition shard_walk :: "member_context \<Rightarrow> string \<Rightarrow> shard \<Rightarrow> (member_context \<times> replica) list" where
  "shard_walk base c sh = map (\<lambda>(_, r).
     (base\<lparr>mc_cur_cluster := c, mc_cur_shard := sh_name sh, mc_cur_replica := rp_name r\<rparr>, r)) (mentries (sh_replicas sh))"

definition cluster_walk :: "member_context \<Rightarrow> string \<times> cluster \<Rightarrow> (member_context \<times> replica) list" where
  "cluster_walk base p = concat (map (\<lambda>(_, sh). shard_walk base (fst p) sh) (mentries (lo_shards (cl_layout (snd p)))))"

definition walk_context :: "normalized_spec \<Rightarrow> daisy_installation \<Rightarrow> member_context" where
  "walk_context n d = (sync_context n d)\<lparr>mc_clusters := cf_clusters (sp_configuration (no_spec n))\<rparr>"

definition walk :: "normalized_spec \<Rightarrow> daisy_installation \<Rightarrow> (member_context \<times> replica) list" where
  "walk n d = concat (map (cluster_walk (walk_context n d)) (mentries (cf_clusters (sp_configuration (no_spec n)))))"

text \<open>No shard has replicas left over from the specification applied last.\<close>

definition no_surplus :: "member_context \<Rightarrow> daisy_installation \<Rightarrow> string \<Rightarrow> shard \<Rightarrow> bool" where
  "no_surplus base d c sh \<longleftrightarrow> extra_replicas (base\<lparr>mc_cur_cluster := c, mc_cur_shard := sh_name sh\<rparr>) sh d = []"

definition cluster_exact :: "member_context \<Rightarrow> daisy_installation \<Rightarrow> string \<times> cluster \<Rightarrow> bool" where
  "cluster_exact base d p \<longleftrightarrow> list_all (\<lambda>(_, sh). no_surplus base d (fst p) sh) (mentries (lo_shards (cl_layout (snd p))))"

definition nothing_left :: "normalized_spec \<Rightarrow> daisy_installation \<Rightarrow> bool" where
  "nothing_left n d \<longleftrightarrow>
     list_all (cluster_exact (walk_context n d) d) (mentries (cf_clusters (sp_configuration (no_spec n))))"

definition set_ready :: "bool \<Rightarrow> codec \<Rightarrow> daisy_installation \<Rightarrow> (okey \<Rightarrow> kobject option) \<Rightarrow> member_context \<times> replica \<Rightarrow> bool" where
  "set_ready e cd d stored p \<longleftrightarrow> up_to_date e cd (fst p) d stored (snd p)"

definition set_missing :: "(okey \<Rightarrow> kobject option) \<Rightarrow> member_context \<times> replica \<Rightarrow> bool" where
  "set_missing stored p \<longleftrightarrow> stored (set_key (fst p) (snd p)) = None"

lemma ready_not_missing: "set_ready e cd d stored p \<Longrightarrow> \<not> set_missing stored p"
  by (auto simp: set_ready_def set_missing_def up_to_date_def Let_def split: option.splits)

lemma shard_up_walk:
  "shard_up e cd base d stored c sh \<longleftrightarrow> list_all (set_ready e cd d stored) (shard_walk base c sh) \<and> no_surplus base d c sh"
  by (simp add: shard_up_def shard_walk_def no_surplus_def set_ready_def list_all_iff split_def)

lemma sets_up_walk:
  "sets_up e cd n d stored \<longleftrightarrow> list_all (set_ready e cd d stored) (walk n d) \<and> nothing_left n d"
  by (auto simp: sets_up_def Let_def walk_def cluster_walk_def nothing_left_def cluster_exact_def
      walk_context_def list_all_iff shard_up_walk split_def)

section \<open>One missing set\<close>

context kube_serves
begin

text \<open>After a reconciliation that stops: the objects are as before and one set of the list \<open>W\<close> has been added.\<close>

definition added where
  "added cd d start W w \<longleftrightarrow> (\<exists>p \<in> set W. \<exists>x. set_missing start p
     \<and> set_stateful_set_last_applied cd (get_stateful_set_for_replica (fst p) d (snd p)) = Inr x
     \<and> calm cd (start(set_key (fst p) (snd p) \<mapsto> KStatefulSet x)) w)"

lemma added_mono: "added cd d start W w \<Longrightarrow> set W \<subseteq> set W' \<Longrightarrow> added cd d start W' w"
  by (auto simp: added_def)

lemma calm_add:
  assumes "calm cd start w" "k = ob_key (KStatefulSet x)" "up w'" "objs w' = (objs w)(k \<mapsto> KStatefulSet x)"
  shows "calm cd (start(k \<mapsto> KStatefulSet x)) w'"
  using assms by (auto simp: calm_def settled_def)

lemma last_applied_stays:
  "set_stateful_set_last_applied cd new = Inr x \<Longrightarrow> om_deletion_timestamp (set_meta x) = om_deletion_timestamp (set_meta new)"
  by (auto simp: set_stateful_set_last_applied_def set_annotation_def split: option.splits)

lemma create_stops:
  fixes D :: "('w, 'd) deps"
  assumes D: "dp_kube D = K" and x: "set_stateful_set_last_applied (dp_codec D) new = Inr x"
    and new: "sx_replicas (set_spec new) \<noteq> None" "start (ob_key (KStatefulSet new)) = None"
      "om_deletion_timestamp (set_meta new) = None"
  shows "stops (holds (calm (dp_codec D) start) (on_course e d0 base (in_replica c sh r k) k)) (create_stateful_set D new)
    (\<lambda>s. calm (dp_codec D) (start(ob_key (KStatefulSet new) \<mapsto> KStatefulSet x)) (ms_world s))"
proof (rule stopsI)
  fix s :: "('w, 'd) mstate"
  let ?k = "ob_key (KStatefulSet new)"
  assume "holds (calm (dp_codec D) start) (on_course e d0 base (in_replica c sh r k) k) s"
  then have w: "calm (dp_codec D) start (ms_world s)" and st: "in_replica c sh r k (ms_ctx s) (ms_status s)"
    by (auto simp: holds_def on_course_def)
  have k: "?k = ob_key (KStatefulSet x)" using last_applied_key [OF x] by simp
  have "objs (ms_world s) ?k = None" using w new(2) by (simp add: calm_def settled_def)
  then obtain w' where w': "up w'" "objs w' = (objs (ms_world s))(?k \<mapsto> KStatefulSet x)"
    "kc_create K (KStatefulSet x) (ms_world s) = (Inr (KStatefulSet x), w')"
    using create_serves [of "ms_world s" "KStatefulSet x"] w k last_applied_stays [OF x] new(3)
    by (auto simp: calm_def leaving_def)
  have after: "calm (dp_codec D) (start(?k \<mapsto> KStatefulSet x)) w'" by (rule calm_add [OF w k w'(1,2)])
  have "sx_replicas (set_spec x) \<noteq> None" using last_applied_replicas [OF x] new(1) by simp
  then obtain ready where ready: "has_reached_generation (Some x) = Some ready" using generation_decided by blast
  obtain st' where "record_replica (ms_ctx s) (dp_now D w') x ActionAdd ready (ms_status s) = Some st'"
    using record_replica_ok [OF st] by blast
  then show "\<exists>e s'. create_stateful_set D new s = (Err (RequeueError e), s')
      \<and> calm (dp_codec D) (start(?k \<mapsto> KStatefulSet x)) (ms_world s')"
    using after w'(3) ready
    by (simp add: create_stateful_set_def x from_sum_def bindp_def ret_def on_world_def decoded_def api_def D
        as_stateful_set_def sync_replica_status_def get_state_def write_status_def modify_or_panic_def throw_def)
qed

lemma sync_set_stops:
  fixes D :: "('w, 'd) deps"
  assumes D: "dp_kube D = K" "codec_total (dp_codec D)" and run: "\<not> sp_paused (di_spec d0)"
    and p: "p = (base\<lparr>mc_cur_cluster := c, mc_cur_shard := sh, mc_cur_replica := rp_name r\<rparr>, r)" "set_missing start p"
  shows "stops (holds (calm (dp_codec D) start) (on_course e d0 base (in_replica c sh r k) k))
    (sync_stateful_set D r) (\<lambda>s. added (dp_codec D) d0 start [p] (ms_world s))"
  unfolding sync_stateful_set_def D(1)
proof (rule stops_read_holds)
  fix s0 :: "('w, 'd) mstate"
  let ?J = "calm (dp_codec D) start"
  let ?R = "on_course e d0 base (in_replica c sh r k) k"
  let ?ctx = "base\<lparr>mc_cur_cluster := c, mc_cur_shard := sh, mc_cur_replica := rp_name r\<rparr>"
  let ?new = "get_stateful_set_for_replica ?ctx d0 r"
  let ?E = "\<lambda>s. added (dp_codec D) d0 start [p] (ms_world s)"
  assume J: "?J (ms_world s0)" and R: "?R (ms_ctx s0) (ms_di s0)"
  have ctx: "ms_ctx s0 = ?ctx"
    using R by (auto simp: on_course_def in_replica_def in_shard_def run_context_def)
  have di: "di_spec (ms_di s0) = di_spec d0" "get_stateful_set_for_replica ?ctx (ms_di s0) r = ?new"
    using R wanted_set_cong [of "ms_di s0" d0 ?ctx r] by (simp_all add: on_course_def)
  obtain b where "cd_marshal_set (dp_codec D) (set_spec ?new) = Some b"
    using D(2) unfolding codec_total_def by blast
  then obtain x where x: "set_stateful_set_last_applied (dp_codec D) ?new = Inr x"
    by (auto simp: set_stateful_set_last_applied_def)
  have label: "brings (holds ?J ?R) (sync_pod_label D r s0) (holds ?J ?R)"
    unfolding sync_pod_label_def Let_def D(1)
    by (auto intro!: brings_world brings_ret label_pod_served split: option.splits)
  have none: "start (ob_key (KStatefulSet ?new)) = None" using p by (simp add: set_missing_def set_key_of_new)
  have "stops (holds ?J ?R) (create_stateful_set D ?new) ?E"
    by (rule stops_weaken [OF create_stops [where start = start, OF D(1) x _ none]])
      (use p x in \<open>auto simp: added_def set_key_of_new\<close>)
  then have rest: "stops (holds ?J ?R) (andthen (sync_pod_label D r s0) (create_stateful_set D ?new)) ?E"
    by (intro stops_then [OF label])
  show "stops (holds ?J (\<lambda>ctx di. ?R ctx di \<and> ctx = ms_ctx s0 \<and> di = ms_di s0))
      (bindp (try_prog (on_world (decoded as_stateful_set (kc_get K (set_key (ms_ctx s0) r))))) (\<lambda>res. case res of
         Inl e \<Rightarrow>
           if \<not> is_not_found e then throw (Failure ''syncStatefulSet: failed to get sts'')
           else if sp_paused (di_spec (ms_di s0)) then ret ()
           else andthen (sync_pod_label D r s0)
             (create_stateful_set D (get_stateful_set_for_replica (ms_ctx s0) (ms_di s0) r))
       | Inr old \<Rightarrow>
           if sp_paused (di_spec (ms_di s0)) then ret ()
           else andthen (sync_pod_label D r s0)
             (refresh_stateful_set D (get_stateful_set_for_replica (ms_ctx s0) (ms_di s0) r) old))) ?E"
    unfolding ctx di
  proof (rule stopsI)
    fix s :: "('w, 'd) mstate" assume s: "holds ?J (\<lambda>ctx di. ?R ctx di \<and> ctx = ?ctx \<and> di = ms_di s0) s"
    then have "objs (ms_world s) (set_key ?ctx r) = None"
      using p by (simp add: holds_def calm_def settled_def set_key_def set_missing_def)
    then obtain w where w: "?J w"
      "try_prog (decoded as_stateful_set (kc_get K (set_key ?ctx r))) (ms_world s) = (Done (Inl (Api NotFound)), w)"
      using read_serves [of "dp_codec D" start "ms_world s" "set_key ?ctx r" as_stateful_set] s view_kinds(4)
      by (auto simp: holds_def set_key_def)
    have "holds ?J ?R (s\<lparr>ms_world := w\<rparr>)" using s w(1) by (auto simp: holds_def)
    from stops_run [OF rest this] w(2) run
    show "\<exists>e s'. bindp (try_prog (on_world (decoded as_stateful_set (kc_get K (set_key ?ctx r))))) (\<lambda>res. case res of
         Inl e \<Rightarrow>
           if \<not> is_not_found e then throw (Failure ''syncStatefulSet: failed to get sts'')
           else if sp_paused (di_spec d0) then ret ()
           else andthen (sync_pod_label D r s0) (create_stateful_set D ?new)
       | Inr old \<Rightarrow>
           if sp_paused (di_spec d0) then ret ()
           else andthen (sync_pod_label D r s0)
             (refresh_stateful_set D ?new old)) s = (Err (RequeueError e), s') \<and> ?E s'"
      by (auto simp: bindp_def try_prog_def on_world_def is_not_found_def split: prod.splits outcome.splits)
  qed
qed

lemma sync_replica_stops:
  fixes D :: "('w, 'd) deps"
  assumes D: "dp_kube D = K" "codec_total (dp_codec D)" and run: "\<not> sp_paused (di_spec d0)"
    and p: "p = (base\<lparr>mc_cur_cluster := c, mc_cur_shard := sh, mc_cur_replica := rp_name r\<rparr>, r)" "set_missing start p"
  shows "stops (holds (calm (dp_codec D) start) (on_course e d0 base (in_shard c sh k) k)) (sync_replica D r)
    (\<lambda>s. added (dp_codec D) d0 start [p] (ms_world s))"
  unfolding sync_replica_def
proof (rule stops_then [OF replica_entered stops_read_holds])
  fix s0 :: "('w, 'd) mstate"
  let ?J = "calm (dp_codec D) start"
  let ?R = "on_course e d0 base (\<lambda>ctx st. in_shard c sh k ctx st \<and> mc_cur_replica ctx = rp_name r) k"
  show "stops (holds ?J (\<lambda>ctx di. ?R ctx di \<and> ctx = ms_ctx s0 \<and> di = ms_di s0))
      (andthen (write_status (make_replicas (ms_ctx s0)))
      (andthen (on_world (sync_config_map (dp_kube D) (get_config_map_replica r s0) True))
      (andthen (sync_stateful_set D r) (andthen (sync_service_for_replica D r) (sync_tables D r)))))
      (\<lambda>s. added (dp_codec D) d0 start [p] (ms_world s))"
    unfolding D(1)
    by (intro stops_then [OF replicas_made] stops_then [OF brings_world [OF config_map_served]]
        stops_first [OF sync_set_stops [OF D run p]]) simp_all
qed

text \<open>A shard whose replicas are up to date or missing, and at least one is missing.\<close>

lemma sync_shard_stops:
  fixes D :: "('w, 'd) deps"
  assumes D: "dp_kube D = K" "codec_total (dp_codec D)" "driver_up (dp_driver D)" and run: "\<not> sp_paused (di_spec d0)"
    and there: "list_all (\<lambda>p. set_ready e (dp_codec D) d0 start p \<or> set_missing start p) (shard_walk base c sh)"
      "\<not> list_all (set_ready e (dp_codec D) d0 start) (shard_walk base c sh)"
  shows "stops (holds (calm (dp_codec D) start) (on_course e d0 base (in_cluster c k) k)) (sync_shard D sh)
    (\<lambda>s. added (dp_codec D) d0 start (shard_walk base c sh) (ms_world s))"
  unfolding sync_shard_def
proof (rule stops_then [OF shard_entered stops_read_holds])
  fix s0 :: "('w, 'd) mstate"
  let ?J = "calm (dp_codec D) start" and ?W = "shard_walk base c sh"
  let ?I = "\<lambda>k. holds ?J (on_course e d0 base (in_shard c (sh_name sh) k) k)"
  let ?at = "\<lambda>y. (base\<lparr>mc_cur_cluster := c, mc_cur_shard := sh_name sh, mc_cur_replica := rp_name (snd y)\<rparr>, snd y)"
  let ?E = "\<lambda>s. added (dp_codec D) d0 start ?W (ms_world s)"
  assume now: "on_course e d0 base (at_shard c sh k) k (ms_ctx s0) (ms_di s0)"
  obtain ys y zs where es: "mentries (sh_replicas sh) = ys @ y # zs"
    "list_all (\<lambda>y. set_ready e (dp_codec D) d0 start (?at y)) ys" "set_missing start (?at y)"
    using first_other [of "\<lambda>y. set_ready e (dp_codec D) d0 start (?at y)" "\<lambda>y. set_missing start (?at y)" "mentries (sh_replicas sh)"]
      there by (auto simp: shard_walk_def list_all_iff split_def)
  have up: "brings (?I k) ((\<lambda>(_, r). sync_replica D r) x) (?I (k + 1))" if "x \<in> set ys" for x k
    unfolding split_def by (rule sync_replica_up [OF D run]) (use that es(2) in \<open>simp add: list_all_iff set_ready_def\<close>)
  have "?at y \<in> set ?W" using es(1) by (auto simp: shard_walk_def split_def)
  then have more: "added (dp_codec D) d0 start [?at y] w \<Longrightarrow> added (dp_codec D) d0 start ?W w" for w
    by (elim added_mono) simp
  have stop: "stops (?I k) ((\<lambda>(_, r). sync_replica D r) y) ?E" for k
    unfolding split_def by (rule stops_weaken [OF sync_replica_stops [OF D(1,2) run refl es(3)]]) (auto dest: more)
  have "stops (?I k) (each (\<lambda>(_, r). sync_replica D r) (mentries (sh_replicas sh))) ?E"
    unfolding es(1) by (rule stops_each_count [where I = ?I and w = "\<lambda>_. 1"]) (fact up, fact stop)
  then show "stops (holds ?J (\<lambda>ctx di. on_course e d0 base (at_shard c sh k) k ctx di \<and> ctx = ms_ctx s0 \<and> di = ms_di s0))
      (andthen (write_status (record_shard (mc_cur_cluster (ms_ctx s0)) sh))
      (andthen (each (\<lambda>(_, r). sync_replica D r) (mentries (sh_replicas sh)))
      (bindp get_state (\<lambda>s1. each (delete_replica D) (extra_replicas (ms_ctx s1) sh (ms_di s1)))))) ?E"
    by (intro stops_then [OF shard_recorded [OF now]] stops_first)
qed

lemma sync_cluster_stops:
  fixes D :: "('w, 'd) deps"
  assumes D: "dp_kube D = K" "codec_total (dp_codec D)" "driver_up (dp_driver D)" and run: "\<not> sp_paused (di_spec d0)"
    and there: "list_all (\<lambda>p. set_ready e (dp_codec D) d0 start p \<or> set_missing start p) (cluster_walk base p)"
      "\<not> list_all (set_ready e (dp_codec D) d0 start) (cluster_walk base p)" "cluster_exact base d0 p"
  shows "stops (holds (calm (dp_codec D) start) (on_course e d0 base (at_cluster (fst p) k) k)) (sync_cluster D (snd p))
    (\<lambda>s. added (dp_codec D) d0 start (cluster_walk base p) (ms_world s))"
  unfolding sync_cluster_def
proof (rule stops_then [OF cluster_made])
  let ?J = "calm (dp_codec D) start" and ?W = "\<lambda>y. shard_walk base (fst p) (snd y)"
  let ?I = "\<lambda>k. holds ?J (on_course e d0 base (in_cluster (fst p) k) k)"
  let ?E = "\<lambda>s. added (dp_codec D) d0 start (cluster_walk base p) (ms_world s)"
  obtain ys y zs where es: "mentries (lo_shards (cl_layout (snd p))) = ys @ y # zs"
    "list_all (\<lambda>y. list_all (set_ready e (dp_codec D) d0 start) (?W y)) ys"
    "\<not> list_all (set_ready e (dp_codec D) d0 start) (?W y)"
    "list_all (\<lambda>q. set_ready e (dp_codec D) d0 start q \<or> set_missing start q) (?W y)"
    using first_other_concat [OF there(1,2) [unfolded cluster_walk_def split_def]] by blast
  have "shard_up e (dp_codec D) base d0 start (fst p) (snd x)" if "x \<in> set ys" for x
    using that es(1,2) there(3) by (simp add: shard_up_walk list_all_iff cluster_exact_def split_def)
  then have up: "brings (?I k) ((\<lambda>(_, sh). sync_shard D sh) x) (?I (k + shard_weight x))" if "x \<in> set ys" for x k
    unfolding split_def shard_weight_def using that by (intro sync_shard_up [OF D run]) simp
  have "set (?W y) \<subseteq> set (cluster_walk base p)" by (auto simp: cluster_walk_def es(1) split_def)
  then have more: "added (dp_codec D) d0 start (?W y) w \<Longrightarrow> added (dp_codec D) d0 start (cluster_walk base p) w" for w
    by (elim added_mono)
  have stop: "stops (?I k) ((\<lambda>(_, sh). sync_shard D sh) y) ?E" for k
    unfolding split_def by (rule stops_weaken [OF sync_shard_stops [OF D run es(4,3)]]) (auto dest: more)
  show "stops (?I k) (each (\<lambda>(_, sh). sync_shard D sh) (mentries (lo_shards (cl_layout (snd p))))) ?E"
    unfolding es(1) by (rule stops_each_count [where I = ?I and w = shard_weight]) (fact up, fact stop)
qed

lemma sync_configuration_stops:
  fixes D :: "('w, 'd) deps"
  assumes D: "dp_kube D = K" "codec_total (dp_codec D)" "driver_up (dp_driver D)" and run: "\<not> sp_paused (di_spec d0)"
    and there: "list_all (\<lambda>p. set_ready e (dp_codec D) d0 start p \<or> set_missing start p) (walk n d0)"
      "\<not> list_all (set_ready e (dp_codec D) d0 start) (walk n d0)" "nothing_left n d0"
  shows "stops (holds (calm (dp_codec D) start) (at_start e n d0)) (sync_configuration D)
    (\<lambda>s. added (dp_codec D) d0 start (walk n d0) (ms_world s))"
  unfolding sync_configuration_def Let_def
proof (rule stops_read_holds)
  fix s0 :: "('w, 'd) mstate"
  let ?J = "calm (dp_codec D) start" and ?N = "- int (replicas_count n)" and ?base = "walk_context n d0"
  let ?cs = "cf_clusters (sp_configuration (no_spec n))" and ?W = "cluster_walk (walk_context n d0)"
  let ?step = "\<lambda>(name, c). andthen (set_ctx (\<lambda>x. x\<lparr>mc_cur_cluster := name\<rparr>)) (sync_cluster D c) :: ('w, 'd, unit) mprog"
  let ?I = "\<lambda>k. holds ?J (on_course e d0 ?base (\<lambda>_. status_ok k) k)"
  let ?E = "\<lambda>s. added (dp_codec D) d0 start (walk n d0) (ms_world s)"
  assume "at_start e n d0 (ms_ctx s0) (ms_di s0)"
  then have n: "mc_normalized (ms_ctx s0) = n" by (simp add: sync_context_def)
  obtain ys y zs where es: "mentries ?cs = ys @ y # zs"
    "list_all (\<lambda>y. list_all (set_ready e (dp_codec D) d0 start) (?W y)) ys"
    "\<not> list_all (set_ready e (dp_codec D) d0 start) (?W y)"
    "list_all (\<lambda>q. set_ready e (dp_codec D) d0 start q \<or> set_missing start q) (?W y)"
    using first_other_concat [OF there(1,2) [unfolded walk_def]] by blast
  have exact: "cluster_exact ?base d0 x" if "x \<in> set (mentries ?cs)" for x
    using there(3) that by (simp add: nothing_left_def list_all_iff)
  have sh: "\<forall>(_, sh) \<in> set (mentries (lo_shards (cl_layout (snd x)))). shard_up e (dp_codec D) ?base d0 start (fst x) sh"
    if "x \<in> set ys" for x
    using that es(1,2) exact [of x]
    by (auto simp: shard_up_walk list_all_iff cluster_exact_def cluster_walk_def split_def)
  have up: "brings (?I k) (?step x) (?I (k + cluster_weight x))" if "x \<in> set ys" for x k
    by (rule cluster_step_up [OF D run sh [OF that]])
  have "set (?W y) \<subseteq> set (walk n d0)" by (auto simp: walk_def es(1))
  then have more: "added (dp_codec D) d0 start (?W y) w \<Longrightarrow> ?E (s\<lparr>ms_world := w\<rparr>)" for w and s :: "('w, 'd) mstate"
    by (simp add: added_mono)
  have stop: "stops (?I k) (?step y) ?E" for k
    unfolding split_def
    by (intro stops_then [OF cluster_entered] stops_weaken [OF sync_cluster_stops [OF D run es(4,3) exact]])
      (use more es(1) in auto)
  have "stops (?I ?N) (each ?step (mentries ?cs)) ?E"
    unfolding es(1) by (rule stops_each_count [where I = ?I and w = cluster_weight]) (fact up, fact stop)
  then show "stops (holds ?J (\<lambda>ctx di. at_start e n d0 ctx di \<and> ctx = ms_ctx s0 \<and> di = ms_di s0))
      (andthen (set_ctx (\<lambda>c. c\<lparr>mc_clusters := cf_clusters (sp_configuration (no_spec (mc_normalized (ms_ctx s0))))\<rparr>))
        (each ?step (mentries (cf_clusters (sp_configuration (no_spec (mc_normalized (ms_ctx s0)))))))) ?E"
    unfolding n by (intro stops_then [OF clusters_set [OF walk_context_def]])
qed

lemma sync_normalized_stops:
  fixes D :: "('w, 'd) deps"
  assumes D: "dp_kube D = K" "codec_total (dp_codec D)" "driver_up (dp_driver D)"
    and run: "\<not> sp_paused (di_spec d0)" and names: "names_ok (di_status d0)"
    and there: "list_all (\<lambda>p. set_ready e (dp_codec D) d0 start p \<or> set_missing start p) (walk n d0)"
      "\<not> list_all (set_ready e (dp_codec D) d0 start) (walk n d0)" "nothing_left n d0"
  shows "stops (holds (calm (dp_codec D) start) (\<lambda>_ di. di = d0)) (sync_normalized D old n)
    (\<lambda>s. added (dp_codec D) d0 start (walk n d0) (ms_world s))"
  unfolding sync_normalized_def
  by (intro stops_then [OF sync_started] stops_then [OF status_filled [where e = e, OF names]] stops_then [OF service_made [where e = e, OF D(1,2)]]
      stops_then [OF config_maps_served [OF D(1)]] stops_first [OF sync_configuration_stops [OF D run there]])

end

end
