(* ===== verification/Config_Kept.thy ===== *)
theory Config_Kept
  imports Member_Manager
begin

text \<open>
  A reconciliation enlists templates in the operator's configuration only while it normalizes: all
  its later steps leave the configuration alone. Two reconciliations of an installation that
  enlists nothing therefore normalize it in the same way.
\<close>

named_theorems conf_kept

definition keeps_conf :: "('w, 'd, 'a) mprog \<Rightarrow> bool" where
  "keeps_conf m \<longleftrightarrow> (\<forall>s. ms_conf (snd (m s)) = ms_conf s)"

lemma conf_basic [conf_kept]:
  "keeps_conf (ret x)" "keeps_conf (throw e)" "keeps_conf (panic msg)" "keeps_conf get_state" "keeps_conf (gets g)"
  "keeps_conf (on_world m)" "keeps_conf (on_db h)" "keeps_conf (set_ctx u)" "keeps_conf (set_di v)" "keeps_conf (on_status z)"
  "keeps_conf (write_status y)" "keeps_conf (from_sum r)" "keeps_conf (receive_di ob)"
  by (auto simp: keeps_conf_def ret_def throw_def panic_def get_state_def gets_def on_world_def on_db_def set_ctx_def set_di_def
      on_status_def write_status_def from_sum_def receive_di_def modify_def modify_or_panic_def split: prod.splits option.splits sum.splits)

lemma conf_bind [conf_kept]: "keeps_conf m \<Longrightarrow> (\<And>x. keeps_conf (f x)) \<Longrightarrow> keeps_conf (bindp m f)"
  unfolding keeps_conf_def by (auto simp: bindp_def split: prod.splits outcome.splits) (metis snd_conv)+

lemma conf_try [conf_kept]: "keeps_conf m \<Longrightarrow> keeps_conf (try_prog m)"
  unfolding keeps_conf_def by (auto simp: try_prog_def split: prod.splits outcome.splits) (metis snd_conv)+

lemma conf_each [conf_kept]: "(\<And>x. keeps_conf (f x)) \<Longrightarrow> keeps_conf (each f xs)"
  by (induction xs) (auto intro: conf_kept)

lemma conf_if [conf_kept]: "keeps_conf m \<Longrightarrow> keeps_conf m' \<Longrightarrow> keeps_conf (if b then m else m')"
  by simp

lemmas conf_splits = option.split sum.split prod.split

lemma conf_update_di [conf_kept]: "keeps_conf (update_di D)"
  unfolding update_di_def by (auto intro!: conf_kept)

lemma conf_update_status [conf_kept]: "keeps_conf (update_installation_status D t)"
  unfolding update_installation_status_def by (auto intro!: conf_kept split: conf_splits)

lemma conf_services [conf_kept]:
  "keeps_conf (sync_service_for_installation D)" "keeps_conf (sync_service_for_replica D r)" "keeps_conf (sync_config_maps D u)"
  "keeps_conf (delete_service_for_replica D r)"
  unfolding sync_service_for_installation_def sync_service_for_replica_def sync_config_maps_def delete_service_for_replica_def
  by (auto intro!: conf_kept)

lemma conf_tables [conf_kept]: "keeps_conf (sync_tables D r)" "keeps_conf (sync_replica_status D x a)"
  unfolding sync_tables_def sync_replica_status_def Let_def by (auto intro!: conf_kept split: conf_splits)

lemma conf_set [conf_kept]: "keeps_conf (sync_pod_label D r s)" "keeps_conf (create_stateful_set D new)"
  "keeps_conf (refresh_stateful_set D new old)"
  unfolding sync_pod_label_def create_stateful_set_def refresh_stateful_set_def Let_def
  by (auto intro!: conf_kept split: conf_splits)

lemma conf_sync_set [conf_kept]: "keeps_conf (sync_stateful_set D r)"
  unfolding sync_stateful_set_def by (auto intro!: conf_kept split: conf_splits)

lemma conf_sync_replica [conf_kept]: "keeps_conf (sync_replica D r)"
  unfolding sync_replica_def by (auto intro!: conf_kept)

lemma conf_deletes [conf_kept]: "keeps_conf (delete_tables D r)" "keeps_conf (delete_stateful_set_for_replica D r)"
  "keeps_conf (delete_pvc D r)"
  unfolding delete_tables_def delete_stateful_set_for_replica_def delete_pvc_def
  by (auto intro!: conf_kept split: conf_splits)

lemma conf_delete_replica [conf_kept]: "keeps_conf (delete_replica D r)"
  unfolding delete_replica_def by (auto intro!: conf_kept split: conf_splits)

lemma conf_sync_cluster [conf_kept]: "keeps_conf (sync_shard D sh)" "keeps_conf (sync_cluster D c)" "keeps_conf (sync_configuration D)"
  unfolding sync_shard_def sync_cluster_def sync_configuration_def Let_def
  by (auto intro!: conf_kept split: conf_splits)

lemma conf_annotation [conf_kept]: "keeps_conf (apply_annotation D n)"
  unfolding apply_annotation_def by (auto intro!: conf_kept)

lemma conf_context [conf_kept]: "keeps_conf (modify (\<lambda>s. s\<lparr>ms_for_cfg := f s, ms_ctx := g s\<rparr>))"
  by (simp add: keeps_conf_def modify_def)

lemma conf_sync_normalized: "keeps_conf (sync_normalized D old n)"
  unfolding sync_normalized_def by (auto intro!: conf_kept)

lemma sync_normalized_conf: "sync_normalized D old n s = (r, s') \<Longrightarrow> ms_conf s' = ms_conf s"
  using conf_sync_normalized [of D old n] unfolding keeps_conf_def by (metis snd_conv)

end
