(* ===== verification/Rounds.thy ===== *)
theory Rounds
  imports Bring_Up Config_Kept
begin

text \<open>
  Bringing an installation up: reconciliations of one installation alternate with the rest of the
  cluster, which starts the pods of what has been created. Each round leaves one set fewer missing,
  so as many rounds as sets are missing, and one more, complete the installation.
\<close>

section \<open>What the rest of the cluster does\<close>

text \<open>
  Between two reconciliations the status of a stateful set may become anything, and if \<open>e\<close> asks for
  it its pod becomes ready; installations stay, services can still be read, and anything may happen
  to pods, claims and config maps.
\<close>

definition cluster_moves :: "bool \<Rightarrow> codec \<Rightarrow> (okey \<Rightarrow> kobject option) \<Rightarrow> (okey \<Rightarrow> kobject option) \<Rightarrow> bool" where
  "cluster_moves e cd before after \<longleftrightarrow>
     (\<forall>k. ok_kind k = StatefulSetKind \<longrightarrow> before k = None \<longrightarrow> after k = None)
     \<and> (\<forall>k x. before k = Some (KStatefulSet x) \<longrightarrow>
          (\<exists>st. after k = Some (KStatefulSet (x\<lparr>set_status := st\<rparr>)) \<and> (e \<longrightarrow> ss_ready_replicas st = 1)))
     \<and> (\<forall>k. ok_kind k = InstallationKind \<longrightarrow> after k = before k)
     \<and> ((\<forall>k v. before k = Some (KService v) \<longrightarrow> service_parses cd v) \<longrightarrow>
         (\<forall>k v. after k = Some (KService v) \<longrightarrow> service_parses cd v))"

lemma equal_status [simp]: "stateful_set_equal cd new (old\<lparr>set_status := st\<rparr>) = stateful_set_equal cd new old"
  by (simp add: stateful_set_equal_def)

lemma claims_status [simp]: "set_claims (old\<lparr>set_status := st\<rparr>) = set_claims old"
  by (simp add: set_claims_def)

lemma ready_iff:
  "set_ready e cd d stored p \<longleftrightarrow> (let new = get_stateful_set_for_replica (fst p) d (snd p) in
     \<exists>old. stored (set_key (fst p) (snd p)) = Some (KStatefulSet old) \<and> (e \<longrightarrow> ss_ready_replicas (set_status old) = 1)
       \<and> sx_replicas (set_spec old) \<noteq> None \<and> stateful_set_equal cd new old
       \<and> list_all (claim_kept (set_claims old)) (set_claims new))"
  by (auto simp: set_ready_def up_to_date_def Let_def split: option.splits kobject.splits)

lemma ready_after_start:
  assumes "cluster_moves e cd before after" "set_ready e cd d before p"
  shows "set_ready e cd d after p"
proof -
  let ?k = "set_key (fst p) (snd p)"
  obtain old where old: "before ?k = Some (KStatefulSet old)" "sx_replicas (set_spec old) \<noteq> None"
    "stateful_set_equal cd (get_stateful_set_for_replica (fst p) d (snd p)) old"
    "list_all (claim_kept (set_claims old)) (set_claims (get_stateful_set_for_replica (fst p) d (snd p)))"
    using assms(2) by (auto simp: ready_iff Let_def)
  moreover obtain st where "after ?k = Some (KStatefulSet (old\<lparr>set_status := st\<rparr>))" "(e \<longrightarrow> ss_ready_replicas st = 1)"
    using assms(1) old(1) unfolding cluster_moves_def by blast
  ultimately show ?thesis by (auto simp: ready_iff Let_def)
qed

text \<open>A stateful set that has been created as it was wanted is up to date as soon as its pod is ready.\<close>

lemma own_claims_kept: "distinct (map claim_name cs) \<Longrightarrow> list_all (claim_kept cs) cs"
proof -
  assume d: "distinct (map claim_name cs)"
  have "claim_kept cs c" if "c \<in> set cs" for c
  proof -
    have "find (\<lambda>x. claim_name x = claim_name c) cs \<noteq> None" using that by (auto simp: find_None_iff)
    then obtain c' where c': "find (\<lambda>x. claim_name x = claim_name c) cs = Some c'" by blast
    then have "c' \<in> set cs" "claim_name c' = claim_name c" using find_SomeD [OF c'] by auto
    then have "c' = c" using d that by (simp add: distinct_map inj_on_def)
    then show ?thesis using c' by (simp add: claim_kept_def claim_matching_name_def compare_storage_requests_def)
  qed
  then show ?thesis by (simp add: list_all_iff)
qed

lemma wanted_claims: "distinct (map claim_name (set_claims (get_stateful_set_for_replica ctx d r)))"
proof -
  have "claims_ok ctx r (get_stateful_set_for_replica ctx d r)"
    unfolding get_stateful_set_for_replica_def by (intro claims_setup) simp
  then show ?thesis by (simp add: claims_ok_def)
qed

lemma created_equal:
  assumes "set_stateful_set_last_applied cd new = Inr x" "codec_faithful cd (set_spec new)" "om_annotations (set_meta new) = None"
  shows "stateful_set_equal cd new x \<and> set_spec x = set_spec new"
proof -
  obtain b where b: "cd_marshal_set cd (set_spec new) = Some b"
    and x: "x = new\<lparr>set_meta := set_annotation last_applied_config b (set_meta new)\<rparr>"
    using assms(1) by (auto simp: set_stateful_set_last_applied_def split: option.splits)
  obtain y where "cd_unmarshal_set cd b = Some y" "sx_replicas y = sx_replicas (set_spec new)"
    "sx_update_strategy y = sx_update_strategy (set_spec new)"
    "cd_eq_template cd ((sx_template y)\<lparr>tm_annotations := mdel last_applied_config (tm_annotations (sx_template y))\<rparr>)
       (sx_template (set_spec new))"
    using assms(2) b by (auto simp: codec_faithful_def)
  moreover have "cd_eq_strings cd None (Some [])" using assms(2) by (simp add: codec_faithful_def fun_eq_iff)
  ultimately show ?thesis
    using assms(3) by (simp add: x stateful_set_equal_def set_annotation_def put_def Let_def)
qed

lemma ready_when_created:
  assumes "cluster_moves e cd before after" "before (set_key (fst p) (snd p)) = Some (KStatefulSet x)"
    and "set_stateful_set_last_applied cd (get_stateful_set_for_replica (fst p) d (snd p)) = Inr x"
    and "codec_faithful cd (set_spec (get_stateful_set_for_replica (fst p) d (snd p)))"
  shows "set_ready e cd d after p"
proof -
  let ?new = "get_stateful_set_for_replica (fst p) d (snd p)"
  note eq = created_equal [OF assms(3,4) wanted_annotations]
  obtain st where "after (set_key (fst p) (snd p)) = Some (KStatefulSet (x\<lparr>set_status := st\<rparr>))" "(e \<longrightarrow> ss_ready_replicas st = 1)"
    using assms(1,2) unfolding cluster_moves_def by blast
  moreover have "set_claims x = set_claims ?new" using eq by (simp add: set_claims_def)
  ultimately show ?thesis
    using eq own_claims_kept [OF wanted_claims] by (simp add: ready_iff Let_def)
qed

section \<open>One set fewer is missing\<close>

definition begun :: "bool \<Rightarrow> codec \<Rightarrow> normalized_spec \<Rightarrow> daisy_installation \<Rightarrow> (okey \<Rightarrow> kobject option) \<Rightarrow> bool" where
  "begun e cd n d stored \<longleftrightarrow> list_all (\<lambda>p. set_ready e cd d stored p \<or> set_missing stored p) (walk n d)"

definition missing_sets :: "normalized_spec \<Rightarrow> daisy_installation \<Rightarrow> (okey \<Rightarrow> kobject option) \<Rightarrow> nat" where
  "missing_sets n d stored = length (filter (set_missing stored) (walk n d))"

definition names_apart :: "normalized_spec \<Rightarrow> daisy_installation \<Rightarrow> bool" where
  "names_apart n d \<longleftrightarrow> distinct (map (\<lambda>p. set_key (fst p) (snd p)) (walk n d))"

lemma set_key_kind [simp]: "ok_kind (set_key ctx r) = StatefulSetKind"
  by (simp add: set_key_def)

lemma begun_next:
  assumes stored: "begun e cd n d stored" "p \<in> set (walk n d)" "set_missing stored p" "names_apart n d"
    and x: "set_stateful_set_last_applied cd (get_stateful_set_for_replica (fst p) d (snd p)) = Inr x"
      "codec_faithful cd (set_spec (get_stateful_set_for_replica (fst p) d (snd p)))"
    and now: "settled cd (stored(set_key (fst p) (snd p) \<mapsto> KStatefulSet x)) now" "cluster_moves e cd now later"
  shows "begun e cd n d later" "Suc (missing_sets n d later) = missing_sets n d stored"
proof -
  let ?key = "\<lambda>p. set_key (fst p) (snd p)"
  have apart: "inj_on ?key (set (walk n d))" "distinct (walk n d)"
    using stored(4) by (auto simp: names_apart_def distinct_map)
  have now_sets: "now (?key q) = (if ?key q = ?key p then Some (KStatefulSet x) else stored (?key q))" for q
    using now(1) by (simp add: settled_def)
  have p: "set_ready e cd d later p" by (rule ready_when_created [OF now(2) _ x]) (simp add: now_sets)
  have other: "set_ready e cd d stored q \<Longrightarrow> set_ready e cd d later q" "set_missing stored q \<Longrightarrow> set_missing later q"
    if "q \<in> set (walk n d)" "q \<noteq> p" for q
  proof -
    have "?key q \<noteq> ?key p" using apart(1) stored(2) that by (auto dest: inj_onD)
    then have same: "now (?key q) = stored (?key q)" by (simp add: now_sets)
    then have "set_ready e cd d now q \<longleftrightarrow> set_ready e cd d stored q" by (simp add: ready_iff)
    then show "set_ready e cd d stored q \<Longrightarrow> set_ready e cd d later q" using ready_after_start [OF now(2)] by blast
    show "set_missing stored q \<Longrightarrow> set_missing later q"
      using now(2) same by (simp add: set_missing_def cluster_moves_def)
  qed
  have each: "set_ready e cd d stored q \<or> set_missing stored q" if "q \<in> set (walk n d)" for q
    using stored(1) that by (simp add: begun_def list_all_iff)
  then have "set_ready e cd d later q \<or> set_missing later q" if "q \<in> set (walk n d)" for q
    using other [OF that] p that by blast
  then show "begun e cd n d later" by (simp add: begun_def list_all_iff)
  have "set_missing later q \<longleftrightarrow> set_missing stored q \<and> q \<noteq> p" if "q \<in> set (walk n d)" for q
    using other [OF that] each [OF that] p by (cases "q = p") (auto dest: ready_not_missing)
  then have "{q \<in> set (walk n d). set_missing later q} = {q \<in> set (walk n d). set_missing stored q} - {p}" by auto
  moreover have "p \<in> {q \<in> set (walk n d). set_missing stored q}" using stored(2,3) by simp
  ultimately show "Suc (missing_sets n d later) = missing_sets n d stored"
    using card_Suc_Diff1 [of "{q \<in> set (walk n d). set_missing stored q}" p] apart(2)
    by (simp add: missing_sets_def distinct_length_filter Int_def conj_commute)
qed

section \<open>Rounds\<close>

text \<open>
  Reconciliations of one installation until one does not ask for another, at most \<open>k\<close> of them; in
  between, the rest of the cluster acts.
\<close>

fun reconciles ::
  "('w, 'd) deps \<Rightarrow> string \<Rightarrow> string \<Rightarrow> ('w \<Rightarrow> 'w) \<Rightarrow> nat \<Rightarrow> ('w, 'd) mstate \<Rightarrow> (bool outcome \<times> ('w, 'd) mstate) option" where
  "reconciles D ns name env 0 s = None"
| "reconciles D ns name env (Suc k) s =
     (case reconcile_installation D ns name s of
        Some (Done True, s') \<Rightarrow> reconciles D ns name env k (s'\<lparr>ms_world := env (ms_world s')\<rparr>)
      | r \<Rightarrow> r)"

lemma begun_complete:
  "begun e cd n d stored \<Longrightarrow> missing_sets n d stored = 0 \<longleftrightarrow> list_all (set_ready e cd d stored) (walk n d)"
  unfolding begun_def missing_sets_def by (auto simp: list_all_iff filter_empty_conv dest: ready_not_missing)

text \<open>The installation as \<open>Sync\<close> normalizes it, with nothing enlisted.\<close>

definition normalizes_to :: "('w, 'd) deps \<Rightarrow> operator_config \<Rightarrow> daisy_installation \<Rightarrow> normalized_spec \<Rightarrow> bool" where
  "normalizes_to D conf d n \<longleftrightarrow> get_installation_from_template (dp_norm D) conf (add_finalizer d) True = (Some n, conf)"

lemma normalizes_run:
  assumes "normalizes_to D (ms_conf s) (ms_di s) n"
  shows "normalize D (s\<lparr>ms_di := add_finalizer (ms_di s)\<rparr>) = Some (n, s\<lparr>ms_di := add_finalizer (ms_di s)\<rparr>)"
  using assms by (simp add: normalize_def normalizes_to_def)

lemma sync_adds:
  fixes D :: "('w, 'd) deps" and s :: "('w, 'd) mstate"
  assumes K: "kube_serves K objs up" and D: "dp_kube D = K" "codec_total (dp_codec D)" "driver_up (dp_driver D)"
    and s: "up (ms_world s)" "names_ok (ms_status s)"
    and d: "om_deletion_timestamp (di_meta (ms_di s)) = None" "\<not> sp_paused (di_spec (ms_di s))"
    and parses: "\<forall>k v. objs (ms_world s) k = Some (KService v) \<longrightarrow> service_parses (dp_codec D) v"
    and n: "normalizes_to D (ms_conf s) (ms_di s) n"
    and there: "begun e (dp_codec D) n (add_finalizer (ms_di s)) (objs (ms_world s))"
      "missing_sets n (add_finalizer (ms_di s)) (objs (ms_world s)) \<noteq> 0" "nothing_left n (add_finalizer (ms_di s))"
  shows "\<exists>msg s' p x. sync_installation D s = Some (Err (RequeueError msg), s') \<and> ms_conf s' = ms_conf s
    \<and> p \<in> set (walk n (add_finalizer (ms_di s))) \<and> set_missing (objs (ms_world s)) p
    \<and> set_stateful_set_last_applied (dp_codec D)
        (get_stateful_set_for_replica (fst p) (add_finalizer (ms_di s)) (snd p)) = Inr x
    \<and> up (ms_world s')
    \<and> settled (dp_codec D) ((objs (ms_world s))(set_key (fst p) (snd p) \<mapsto> KStatefulSet x)) (objs (ms_world s'))"
proof -
  let ?d = "add_finalizer (ms_di s)" and ?cd = "dp_codec D" and ?start = "objs (ms_world s)"
  let ?J = "kube_serves.calm objs up ?cd" and ?s1 = "s\<lparr>ms_di := add_finalizer (ms_di s)\<rparr>"
  have run: "\<not> sp_paused (di_spec ?d)" and names: "names_ok (di_status ?d)" using s d by simp_all
  have ready: "list_all (\<lambda>p. set_ready e ?cd ?d ?start p \<or> set_missing ?start p) (walk n ?d)"
    "\<not> list_all (set_ready e ?cd ?d ?start) (walk n ?d)"
    using there(1,2) begun_complete [OF there(1)] by (simp_all add: begun_def)
  have pre: "holds (?J ?start) (\<lambda>_ di. di = ?d) ?s1"
    using s(1) parses by (simp add: holds_def kube_serves.calm_def [OF K] settled_def)
  note stop = kube_serves.sync_normalized_stops [OF K D run names ready there(3), of "ms_status s"]
  from stops_run [OF stop pre] obtain e s' where
    s': "sync_normalized D (ms_status s) n ?s1 = (Err (RequeueError e), s')" and
    "kube_serves.added objs up ?cd ?d ?start (walk n ?d) (ms_world s')" by blast
  then obtain p x where p: "p \<in> set (walk n ?d)" "set_missing ?start p"
    "set_stateful_set_last_applied ?cd (get_stateful_set_for_replica (fst p) ?d (snd p)) = Inr x"
    "?J (?start(set_key (fst p) (snd p) \<mapsto> KStatefulSet x)) (ms_world s')"
    unfolding kube_serves.added_def [OF K] by blast
  have "sync_installation D s = Some (Err (RequeueError e), s')"
    using d(1) s' by (simp add: sync_installation_def Let_def normalizes_run [OF n])
  moreover have "ms_conf s' = ms_conf s" using sync_normalized_conf [OF s'] by simp
  ultimately show ?thesis using p unfolding kube_serves.calm_def [OF K] by blast
qed

lemma reconcile_reads:
  assumes K: "kube_reads K objs up" and D: "dp_kube D = K" and s: "up (ms_world s)"
    and d: "objs (ms_world s) (OKey InstallationKind ns name) = Some (KInstallation d)"
  shows "\<exists>w. up w \<and> objs w = objs (ms_world s) \<and> reconcile_installation D ns name s =
    (case sync_installation D (s\<lparr>ms_world := w, ms_di := d\<rparr>) of
       None \<Rightarrow> None
     | Some (Done _, s') \<Rightarrow> Some (Done False, s')
     | Some (Err e, s') \<Rightarrow> Some (if is_requeue_error e then Done True else Err e, s')
     | Some (Panic msg, s') \<Rightarrow> Some (Panic msg, s'))"
proof -
  obtain w where w: "up w" "objs w = objs (ms_world s)"
    "kc_get K (OKey InstallationKind ns name) (ms_world s) = (Inr (KInstallation d), w)"
    using kube_reads.get_serves [OF K s, of "OKey InstallationKind ns name"] d by auto
  then have "decoded as_installation (kc_get K (OKey InstallationKind ns name)) (ms_world s) = (Done d, w)"
    by (simp add: decoded_def bindp_def api_def as_installation_def ret_def)
  then show ?thesis using w D by (auto simp: reconcile_installation_def)
qed

lemma bring_up_rounds:
  fixes D :: "('w, 'd) deps" and s :: "('w, 'd) mstate"
  assumes K: "kube_serves K objs up" and D: "dp_kube D = K" "codec_total (dp_codec D)" "driver_up (dp_driver D)"
    and env: "\<forall>w. up w \<longrightarrow> up (env w) \<and> cluster_moves e (dp_codec D) (objs w) (objs (env w))"
    and d: "om_deletion_timestamp (di_meta d) = None" "\<not> sp_paused (di_spec d)" "names_ok (di_status d)"
    and n: "normalizes_to D conf d n" "nothing_left n (add_finalizer d)" "names_apart n (add_finalizer d)"
    and faithful: "\<forall>p \<in> set (walk n (add_finalizer d)).
      codec_faithful (dp_codec D) (set_spec (get_stateful_set_for_replica (fst p) (add_finalizer d) (snd p)))"
    and s: "up (ms_world s)" "objs (ms_world s) (OKey InstallationKind ns name) = Some (KInstallation d)" "ms_conf s = conf"
      "\<forall>k v. objs (ms_world s) k = Some (KService v) \<longrightarrow> service_parses (dp_codec D) v"
      "begun e (dp_codec D) n (add_finalizer d) (objs (ms_world s))" "missing_sets n (add_finalizer d) (objs (ms_world s)) = m"
  shows "\<exists>s' d'. reconciles D ns name env (Suc m) s = Some (Done False, s')
    \<and> objs (ms_world s') (OKey InstallationKind ns name) = Some (KInstallation d')
    \<and> (is_state (di_status d') = status_completed \<longleftrightarrow> is_ready_replicas (di_status d') = is_replicas_count (di_status d'))
    \<and> (e \<longrightarrow> is_ready_replicas (di_status d') = is_replicas_count (di_status d'))
    \<and> list_all (set_ready e (dp_codec D) (add_finalizer d) (objs (ms_world s'))) (walk n (add_finalizer d))"
  using s
proof (induction m arbitrary: s)
  case 0
  let ?d = "add_finalizer d" and ?k = "OKey InstallationKind ns name"
  obtain w where w: "up w" "objs w = objs (ms_world s)" and step: "reconcile_installation D ns name s =
    (case sync_installation D (s\<lparr>ms_world := w, ms_di := d\<rparr>) of
       None \<Rightarrow> None
     | Some (Done _, s') \<Rightarrow> Some (Done False, s')
     | Some (Err e, s') \<Rightarrow> Some (if is_requeue_error e then Done True else Err e, s')
     | Some (Panic msg, s') \<Rightarrow> Some (Panic msg, s'))"
    using reconcile_reads [OF kube_serves.axioms(1) [OF K] D(1) 0(1,2)] by blast
  let ?s = "s\<lparr>ms_world := w, ms_di := d\<rparr>"
  have k: "ob_key (KInstallation d) = ?k" by (rule kube_api.key_ok [OF kube_reads.axioms(1) [OF kube_serves.axioms(1) [OF K]] 0(2)])
  have norm: "normalize D (?s\<lparr>ms_di := add_finalizer (ms_di ?s)\<rparr>) = Some (n, ?s\<lparr>ms_di := add_finalizer (ms_di ?s)\<rparr>)"
    by (rule normalizes_run) (use n(1) 0(3) in simp)
  have "sets_up e (dp_codec D) n ?d (objs w)"
    using begun_complete [OF 0(5)] 0(6) n(2) w(2) by (simp add: sets_up_walk)
  then obtain s' where s': "sync_installation D ?s = Some (Done (), s')"
    "is_state (ms_status s') = status_completed \<longleftrightarrow> is_ready_replicas (ms_status s') = is_replicas_count (ms_status s')"
    "e \<longrightarrow> is_ready_replicas (ms_status s') = is_replicas_count (ms_status s')"
    "objs (ms_world s') ?k = Some (KInstallation (ms_di s'))"
    "\<forall>k. ok_kind k = StatefulSetKind \<longrightarrow> objs (ms_world s') k = objs w k"
    using sync_finishes [where e = e, OF K D, of ?s, OF _ _ _ _ _ _ norm] d w 0(2,4) k by auto
  have "set_ready e (dp_codec D) ?d (objs (ms_world s')) = set_ready e (dp_codec D) ?d (objs w)"
    using s'(5) by (simp add: ready_iff fun_eq_iff)
  then show ?case
    using s' step w(2) begun_complete [OF 0(5)] 0(6) by auto
next
  case (Suc m)
  let ?d = "add_finalizer d" and ?k = "OKey InstallationKind ns name"
  obtain w where w: "up w" "objs w = objs (ms_world s)" and step: "reconcile_installation D ns name s =
    (case sync_installation D (s\<lparr>ms_world := w, ms_di := d\<rparr>) of
       None \<Rightarrow> None
     | Some (Done _, s') \<Rightarrow> Some (Done False, s')
     | Some (Err e, s') \<Rightarrow> Some (if is_requeue_error e then Done True else Err e, s')
     | Some (Panic msg, s') \<Rightarrow> Some (Panic msg, s'))"
    using reconcile_reads [OF kube_serves.axioms(1) [OF K] D(1) Suc.prems(1,2)] by blast
  let ?s = "s\<lparr>ms_world := w, ms_di := d\<rparr>"
  obtain msg s1 p x where s1: "sync_installation D ?s = Some (Err (RequeueError msg), s1)" "ms_conf s1 = conf"
    and p: "p \<in> set (walk n ?d)" "set_missing (objs w) p"
      "set_stateful_set_last_applied (dp_codec D) (get_stateful_set_for_replica (fst p) ?d (snd p)) = Inr x"
    and w1: "up (ms_world s1)" "settled (dp_codec D) ((objs w)(set_key (fst p) (snd p) \<mapsto> KStatefulSet x)) (objs (ms_world s1))"
    using sync_adds [where e = e, OF K D, of ?s n] Suc.prems d w n by auto
  let ?t = "s1\<lparr>ms_world := env (ms_world s1)\<rparr>"
  have t: "up (ms_world ?t)" "cluster_moves e (dp_codec D) (objs (ms_world s1)) (objs (ms_world ?t))"
    using env w1(1) by simp_all
  have next_t: "begun e (dp_codec D) n ?d (objs (ms_world ?t))" "Suc (missing_sets n ?d (objs (ms_world ?t))) = Suc m"
    using begun_next [OF _ p(1,2) n(3) p(3) _ w1(2) t(2)] Suc.prems(5,6) faithful p(1) w(2) by auto
  have installed: "objs (ms_world ?t) ?k = Some (KInstallation d)"
    using t(2) w1(2) Suc.prems(2) w(2) by (simp add: cluster_moves_def settled_def set_key_def)
  have parses: "\<forall>k v. objs (ms_world ?t) k = Some (KService v) \<longrightarrow> service_parses (dp_codec D) v"
    using t(2) w1(2) unfolding cluster_moves_def settled_def by blast
  have "reconcile_installation D ns name s = Some (Done True, s1)"
    using step s1(1) by (simp add: is_requeue_error_def)
  then show ?case
    using Suc.IH [OF t(1) installed _ parses next_t(1)] next_t(2) s1(2) by simp
qed

section \<open>Properties\<close>




section \<open>A run\<close>

text \<open>One installation, nothing else stored, pods that start at once.\<close>

definition start_set :: "kobject \<Rightarrow> kobject" where
  "start_set ob = (case ob of
     KStatefulSet x \<Rightarrow> KStatefulSet (x\<lparr>set_status := (set_status x)\<lparr>ss_ready_replicas := 1\<rparr>\<rparr>) | _ \<Rightarrow> ob)"

definition start_pods :: "server \<Rightarrow> server" where
  "start_pods w = w\<lparr>sr_objects := map (\<lambda>(k, ob). (k, start_set ob)) (sr_objects w)\<rparr>"

lemma key_start_set [simp]: "ob_key (start_set ob) = ob_key ob"
  by (cases ob) (simp_all add: start_set_def ob_key_def)

lemma leaving_start_set [simp]: "leaving (start_set ob) \<longleftrightarrow> leaving ob"
  by (cases ob) (simp_all add: start_set_def leaving_def)

lemma store_start_pods: "store (start_pods w) k = map_option start_set (store w k)"
proof -
  have "map_of (map (\<lambda>(k, ob). (k, start_set ob)) es) k = map_option start_set (map_of es k)" for es
    by (induction es) auto
  then show ?thesis by (auto simp: store_def start_pods_def split: option.splits)
qed

lemma start_pods_serves: "serves_all w \<Longrightarrow> serves_all (start_pods w)"
  by (auto simp: serves_all_def store_start_pods) (simp add: start_pods_def)

lemma start_pods_start: "cluster_moves e cd (store w) (store (start_pods w))"
proof -
  have same: "ok_kind k = InstallationKind \<Longrightarrow> store w k = Some ob \<Longrightarrow> start_set ob = ob" for k ob
    using server.key_ok [of w k ob] by (cases ob) (auto simp: start_set_def)
  have service: "start_set ob = KService v \<longleftrightarrow> ob = KService v" for ob v
    by (cases ob) (simp_all add: start_set_def)
  show ?thesis
    unfolding cluster_moves_def store_start_pods
    by (auto simp: same service) (auto simp: start_set_def, metis option.map_disc_iff option.exhaust_sel same option.map_sel)
qed

definition new_server :: server where
  "new_server = \<lparr>sr_objects = [(ob_key (KInstallation zero_installation), KInstallation zero_installation)], sr_faults = []\<rparr>"

lemma new_server_store: "store new_server k = Some ob \<Longrightarrow> ob = KInstallation zero_installation"
  by (auto simp: store_def new_server_def split: if_splits)

lemma new_server_serves: "serves_all new_server"
  by (rule serves_all_start) (simp_all add: new_server_def leaving_def zero_installation_def zero_meta_def)

definition first_wanted :: "normalized_spec \<Rightarrow> daisy_installation \<Rightarrow> stateful_set" where
  "first_wanted n d = (let p = hd (walk n d) in get_stateful_set_for_replica (fst p) d (snd p))"

definition spec_starts :: "normalized_spec \<Rightarrow> bool" where
  "spec_starts n \<longleftrightarrow> (let d = add_finalizer zero_installation in
     nothing_left n d \<and> names_apart n d \<and> missing_sets n d (store new_server) = 1 \<and> length (walk n d) = 1)"

lemma ready_spec_starts: "spec_starts ready_spec"
  by code_simp

lemma one_walk:
  "\<exists>p. walk ready_spec (add_finalizer zero_installation) = [p] \<and> set_missing (store new_server) p
     \<and> get_stateful_set_for_replica (fst p) (add_finalizer zero_installation) (snd p)
       = first_wanted ready_spec (add_finalizer zero_installation)"
proof -
  have one: "length (walk ready_spec (add_finalizer zero_installation)) = 1"
    "missing_sets ready_spec (add_finalizer zero_installation) (store new_server) = 1"
    using ready_spec_starts unfolding spec_starts_def Let_def by blast+
  then obtain p where p: "walk ready_spec (add_finalizer zero_installation) = [p]" by (auto simp: length_Suc_conv)
  moreover have "set_missing (store new_server) p" using one(2) p by (auto simp: missing_sets_def split: if_splits)
  ultimately show ?thesis by (simp add: first_wanted_def)
qed

definition start_deps :: "(server, (string \<times> string) list) deps" where
  "start_deps = example_deps\<lparr>dp_codec := ready_codec (first_wanted ready_spec (add_finalizer zero_installation))\<rparr>"

lemma start_deps_simps [simp]:
  "dp_kube start_deps = server_kube" "dp_driver start_deps = log_driver" "dp_norm start_deps = pure_env"
  "dp_codec start_deps = ready_codec (first_wanted ready_spec (add_finalizer zero_installation))"
  by (simp_all add: start_deps_def example_deps_def)

lemma nothing_enlisted:
  "sp_use_templates (di_spec di) = [] \<Longrightarrow> snd (get_installation_from_template env conf di b) = conf"
  by (simp add: get_installation_from_template_def Let_def)

lemma ready_normalizes: "normalizes_to start_deps zero_operator_config zero_installation ready_spec"
proof -
  have "sp_use_templates (di_spec (add_finalizer zero_installation)) = []"
    by (simp add: zero_installation_def zero_spec_def)
  then have "snd (get_installation_from_template pure_env zero_operator_config (add_finalizer zero_installation) True)
      = zero_operator_config" by (rule nothing_enlisted)
  moreover have "fst (get_installation_from_template pure_env zero_operator_config (add_finalizer zero_installation) True)
      \<noteq> None" by (rule get_installation_returns) simp
  ultimately show ?thesis by (auto simp: normalizes_to_def ready_spec_def prod_eq_iff)
qed

lemma same_entries:
  "list_all (\<lambda>(k, _). mget a k = mget b k) (mentries a @ mentries b) \<longleftrightarrow> mget a = mget b"
proof
  assume all: "list_all (\<lambda>(k, _). mget a k = mget b k) (mentries a @ mentries b)"
  show "mget a = mget b"
  proof
    fix k
    show "mget a k = mget b k"
    proof (cases "k \<in> fst ` set (mentries a @ mentries b)")
      case True
      then show ?thesis using all by (fastforce simp: list_all_iff)
    next
      case False
      then have "mget a k = None" "mget b k = None" by (auto simp: mget_def map_of_eq_None_iff)
      then show ?thesis by simp
    qed
  qed
qed (simp add: list_all_iff split_def)

lemma ready_codec_faithful:
  assumes "tm_annotations (sx_template (set_spec w)) = None"
  shows "codec_faithful (ready_codec w) (set_spec w)"
proof -
  have "cd_eq_strings (ready_codec w) a b \<longleftrightarrow> mget a = mget b" for a b
    unfolding same_entries [symmetric] by (simp add: ready_codec_def)
  then show ?thesis
    using assms by (simp add: codec_faithful_def) (simp add: ready_codec_def mdel_def)
qed

lemma ready_installed: "store new_server (OKey InstallationKind [] []) = Some (KInstallation zero_installation)"
  by (simp add: store_def new_server_def ob_key_def meta_key_def zero_installation_def zero_meta_def)


text \<open>The hypotheses of the two properties for this run.\<close>

lemma new_server_ready:
  defines "s \<equiv> example_state new_server zero_installation"
  shows "serves_all (ms_world s)" "names_ok (ms_status s)" "om_deletion_timestamp (di_meta (ms_di s)) = None"
    "\<not> sp_paused (di_spec (ms_di s))" "ms_conf s = zero_operator_config" "ms_di s = zero_installation"
    "ms_world s = new_server"
    "\<forall>k v. store (ms_world s) k = Some (KService v) \<longrightarrow> service_parses (dp_codec start_deps) v"
proof -
  show "names_ok (ms_status s)" "om_deletion_timestamp (di_meta (ms_di s)) = None" by (simp_all add: s_def names_ok_none)
  show "\<not> sp_paused (di_spec (ms_di s))" by (simp add: s_def zero_installation_def zero_spec_def)
  show "ms_conf s = zero_operator_config" "ms_di s = zero_installation" "ms_world s = new_server"
    by (simp_all add: s_def example_state_def)
  show "serves_all (ms_world s)" unfolding s_def by (simp add: new_server_serves)
  show "\<forall>k v. store (ms_world s) k = Some (KService v) \<longrightarrow> service_parses (dp_codec start_deps) v"
    using new_server_store by (fastforce simp: s_def)
qed

lemma new_walk_begun:
  "begun e cd ready_spec (add_finalizer zero_installation) (store new_server)"
  "missing_sets ready_spec (add_finalizer zero_installation) (store new_server) = 1"
  "nothing_left ready_spec (add_finalizer zero_installation)" "names_apart ready_spec (add_finalizer zero_installation)"
  using ready_spec_starts one_walk unfolding spec_starts_def Let_def begun_def by auto


lemma new_run:
  defines "s \<equiv> example_state new_server zero_installation" and "d \<equiv> add_finalizer zero_installation"
  shows "codec_total (dp_codec start_deps)" "driver_up (dp_driver start_deps)"
    "normalizes_to start_deps (ms_conf s) zero_installation ready_spec"
    "\<forall>p \<in> set (walk ready_spec d). codec_faithful (dp_codec start_deps) (set_spec (get_stateful_set_for_replica (fst p) d (snd p)))"
    "store (ms_world s) (OKey InstallationKind [] []) = Some (KInstallation zero_installation)"
    "begun e (dp_codec start_deps) ready_spec d (store (ms_world s))"
    "missing_sets ready_spec d (store (ms_world s)) + 1 = 2"
proof -
  note simps = new_server_ready(5,7) [folded s_def]
  show "codec_total (dp_codec start_deps)" "driver_up (dp_driver start_deps)"
    by (simp_all add: ready_codec_total log_driver_up)
  show "normalizes_to start_deps (ms_conf s) zero_installation ready_spec" using ready_normalizes simps(1) by simp
  show "store (ms_world s) (OKey InstallationKind [] []) = Some (KInstallation zero_installation)"
    using ready_installed simps(2) by simp
  show "begun e (dp_codec start_deps) ready_spec d (store (ms_world s))"
    "missing_sets ready_spec d (store (ms_world s)) + 1 = 2"
    using new_walk_begun simps(2) by (simp_all add: d_def)
  obtain p where p: "walk ready_spec d = [p]"
    "get_stateful_set_for_replica (fst p) d (snd p) = first_wanted ready_spec d" using one_walk unfolding d_def by blast
  then have "tm_annotations (sx_template (set_spec (first_wanted ready_spec d))) = None"
    using wanted_template_annotations by metis
  then show "\<forall>p \<in> set (walk ready_spec d).
      codec_faithful (dp_codec start_deps) (set_spec (get_stateful_set_for_replica (fst p) d (snd p)))"
    using p ready_codec_faithful by (simp add: d_def)
qed

lemmas new_installation = new_server_ready(3,4,2) [unfolded new_server_ready(6)]



end
