(* ===== verification/Clearing.thy ===== *)
theory Clearing
  imports Rounds Deletion
begin

text \<open>
  Deleting an installation in an environment in which every request succeeds (the locale
  \<open>kube_clears\<close>): what has been removed after a part of the walk over the replicas, and the removal
  of one replica.
\<close>

section \<open>A server that serves every request of a deletion\<close>

text \<open>
  A list has each object once, as it is stored. A deletion is accepted; what it does is said in
  \<open>kube_api\<close>. An update that takes the last finalizer off an installation that is being deleted
  removes it.
\<close>

locale kube_clears = kube_reads K objs up
  for K :: "'w kube" and objs :: "'w \<Rightarrow> okey \<Rightarrow> kobject option" and up :: "'w \<Rightarrow> bool" +
  assumes list_serves: "up w \<Longrightarrow> \<exists>obs w'. up w' \<and> objs w' = objs w \<and> kc_list K kd ns sel w = (Inr obs, w')
      \<and> distinct (map ob_key obs) \<and> (\<forall>ob \<in> set obs. objs w (ob_key ob) = Some ob)"
    and delete_serves: "up w \<Longrightarrow> objs w k \<noteq> None \<Longrightarrow> \<exists>w'. up w' \<and> kc_delete K k w = (Inr (), w')"
    and finalize_serves: "up w \<Longrightarrow> objs w (ob_key (KInstallation d)) \<noteq> None \<Longrightarrow> \<exists>ob w'. as_updated (KInstallation d) ob
      \<and> objs w' = (objs w)(ob_key (KInstallation d) := if leaving (KInstallation d) then None else Some ob)
      \<and> kc_update K (KInstallation d) w = (Inr ob, w')"
begin

text \<open>\<open>Get\<close> and \<open>Delete\<close>, as the delete functions do it.\<close>

lemma get_delete_up:
  assumes w: "up w" and k: "\<And>ob. ob_kind ob = ok_kind k \<Longrightarrow> view ob \<noteq> None" "ok_kind k \<noteq> PvcKind"
  shows "\<exists>w'. up w' \<and> objs w' = (objs w)(k := None)
    \<and> bindp (try_prog (decoded view (kc_get K k))) (\<lambda>r. case r of
        Inr _ \<Rightarrow> api (kc_delete K k) | Inl e \<Rightarrow> if is_not_found e then ret () else throw e) w = (Done (), w')"
proof -
  obtain w1 where w1: "up w1" "objs w1 = objs w"
    "try_prog (decoded view (kc_get K k)) w = (Done (case objs w k of None \<Rightarrow> Inl (Api NotFound)
        | Some ob \<Rightarrow> Inr (the (view ob))), w1)"
    using reading_up [where k = k and view = view, OF w k(1)] by blast
  show ?thesis
  proof (cases "objs w k")
    case None
    then have "(objs w)(k := None) = objs w1" using w1(2) by auto
    then show ?thesis using w1 None by (auto simp: bindp_def is_not_found_def ret_def)
  next
    case (Some ob)
    obtain w2 where w2: "up w2" "kc_delete K k w1 = (Inr (), w2)"
      using delete_serves [OF w1(1), of k] Some w1(2) by auto
    then have "objs w2 = (objs w)(k := None)" using delete_ok [OF w2(2)] k(2) w1(2) by simp
    then show ?thesis using w1 w2 Some by (auto simp: bindp_def api_def ret_def)
  qed
qed

lemma delete_claims_up:
  assumes "up w" "distinct (map (\<lambda>p. meta_key PvcKind (pc_meta p)) ps)"
    "\<forall>p \<in> set ps. objs w (meta_key PvcKind (pc_meta p)) \<noteq> None"
  shows "\<exists>w'. up w' \<and> (\<forall>k. ok_kind k \<noteq> PvcKind \<longrightarrow> objs w' k = objs w k)
    \<and> each (\<lambda>p. api (kc_delete K (meta_key PvcKind (pc_meta p)))) ps w = (Done (), w')"
  using assms
proof (induction ps arbitrary: w)
  case Nil
  then show ?case by (auto simp: ret_def)
next
  case (Cons p ps)
  let ?key = "\<lambda>p. meta_key PvcKind (pc_meta p)"
  obtain w1 where w1: "up w1" "kc_delete K (?key p) w = (Inr (), w1)"
    using delete_serves [OF Cons.prems(1), of "?key p"] Cons.prems(3) by auto
  have other: "objs w1 k = objs w k" if "k \<noteq> ?key p" for k using delete_kept [OF w1(2) that] .
  have "distinct (map ?key ps)" using Cons.prems(2) by simp
  moreover have "\<forall>q \<in> set ps. objs w1 (?key q) \<noteq> None"
    using Cons.prems(2,3) other by (metis (no_types, lifting) distinct.simps(2) image_eqI list.set_intros(2) list.simps(9) set_map)
  ultimately obtain w2 where w2: "up w2" "\<forall>k. ok_kind k \<noteq> PvcKind \<longrightarrow> objs w2 k = objs w1 k"
    "each (\<lambda>p. api (kc_delete K (?key p))) ps w1 = (Done (), w2)"
    using Cons.IH [OF w1(1)] by blast
  have "objs w1 k = objs w k" if "ok_kind k \<noteq> PvcKind" for k
    using that by (intro other) (auto simp: meta_key_def)
  moreover have "each (\<lambda>p. api (kc_delete K (?key p))) (p # ps) w = (Done (), w2)"
    using w1(2) w2(3) by (simp add: bindp_def api_def [of "kc_delete K (?key p)"])
  ultimately show ?case using w2 by auto
qed

end

section \<open>What has been removed\<close>

text \<open>
  The pairs of context and replica deletion visits, in the order of the maps.
\<close>

definition removal_walk :: "normalized_spec \<Rightarrow> daisy_installation \<Rightarrow> (member_context \<times> replica) list" where
  "removal_walk n d = concat (map (cluster_walk (delete_context n d)) (mentries (cf_clusters (sp_configuration (no_spec n)))))"

abbreviation pair_key :: "member_context \<times> replica \<Rightarrow> okey" where
  "pair_key p \<equiv> set_key (fst p) (snd p)"

text \<open>
  The first replica of each name whose stateful set was there: its config map and its service are
  gone, too.
\<close>

definition cleaned_up :: "(okey \<Rightarrow> kobject option) \<Rightarrow> (member_context \<times> replica) list \<Rightarrow> (okey \<Rightarrow> kobject option) \<Rightarrow> bool" where
  "cleaned_up start ps now \<longleftrightarrow> (\<forall>ys p zs. ps = ys @ p # zs \<longrightarrow> pair_key p \<notin> pair_key ` set ys \<longrightarrow>
     start (pair_key p) \<noteq> None \<longrightarrow> (\<forall>k \<in> set (replica_keys (fst p) (snd p)). now k = None))"

lemma replica_keys_kinds: "k \<in> set (replica_keys ctx r) \<Longrightarrow> ok_kind k \<in> {StatefulSetKind, ConfigMapKind, ServiceKind}"
  by (auto simp: replica_keys_def set_key_def)

lemma cleaned_up_mono:
  assumes "cleaned_up start ps now"
    and "\<And>k. ok_kind k \<in> {StatefulSetKind, ConfigMapKind, ServiceKind} \<Longrightarrow> now k = None \<Longrightarrow> now' k = None"
  shows "cleaned_up start ps now'"
  using assms(1) assms(2) [OF replica_keys_kinds] unfolding cleaned_up_def by blast

lemma cleaned_up_each:
  assumes "cleaned_up start ps now" "distinct (map pair_key ps)" "(ctx, r) \<in> set ps" "start (set_key ctx r) \<noteq> None"
  shows "\<forall>k \<in> set (replica_keys ctx r). now k = None"
proof -
  obtain ys zs where ps: "ps = ys @ (ctx, r) # zs" using assms(3) by (meson split_list)
  then have "pair_key (ctx, r) \<notin> pair_key ` set ys" using assms(2) by auto
  moreover have "\<forall>ys p zs. ps = ys @ p # zs \<longrightarrow> pair_key p \<notin> pair_key ` set ys \<longrightarrow>
     start (pair_key p) \<noteq> None \<longrightarrow> (\<forall>k \<in> set (replica_keys (fst p) (snd p)). now k = None)"
    using assms(1) unfolding cleaned_up_def .
  note this [rule_format, OF ps]
  ultimately show ?thesis using assms(4) by simp
qed

lemma cleaned_up_snoc:
  assumes "cleaned_up start ps now"
    and "pair_key p \<notin> pair_key ` set ps \<Longrightarrow> start (pair_key p) \<noteq> None \<Longrightarrow>
      \<forall>k \<in> set (replica_keys (fst p) (snd p)). now k = None"
  shows "cleaned_up start (ps @ [p]) now"
  unfolding cleaned_up_def
proof (intro allI impI)
  fix ys q zs
  assume eq: "ps @ [p] = ys @ q # zs" and q: "pair_key q \<notin> pair_key ` set ys" "start (pair_key q) \<noteq> None"
  show "\<forall>k \<in> set (replica_keys (fst q) (snd q)). now k = None"
  proof (cases zs rule: rev_cases)
    case Nil
    then show ?thesis using eq q assms(2) by simp
  next
    case (snoc zs' z)
    then have "ps = ys @ q # zs'" using eq by simp
    then show ?thesis using q assms(1) unfolding cleaned_up_def by blast
  qed
qed

text \<open>
  After the walk over \<open>ps\<close>: the stateful sets of \<open>ps\<close> (and those of \<open>sets\<close>, in the middle of a step)
  are gone and no others; no config map or service has come back; the objects \<open>G\<close> are gone; the
  installation is stored, with some status.
\<close>

definition cleared ::
  "(okey \<Rightarrow> kobject option) \<Rightarrow> daisy_installation \<Rightarrow> (member_context \<times> replica) list
   \<Rightarrow> (member_context \<times> replica) list \<Rightarrow> okey set \<Rightarrow> (okey \<Rightarrow> kobject option) \<Rightarrow> bool" where
  "cleared start d sets ps G now \<longleftrightarrow>
     (\<forall>k. ok_kind k = StatefulSetKind \<longrightarrow> now k = (if k \<in> pair_key ` set sets then None else start k))
     \<and> (\<forall>k. ok_kind k \<in> {ConfigMapKind, ServiceKind} \<longrightarrow> start k = None \<longrightarrow> now k = None)
     \<and> cleaned_up start ps now \<and> (\<forall>k \<in> G. now k = None)
     \<and> (\<exists>st. now (ob_key (KInstallation d)) = Some (KInstallation (d\<lparr>di_status := st\<rparr>)))"

lemma cleared_others:
  assumes "cleared start d sets ps G now" "\<And>k. ok_kind k \<noteq> PvcKind \<Longrightarrow> now' k = now k" "\<forall>k \<in> G. ok_kind k \<noteq> PvcKind"
  shows "cleared start d sets ps G now'"
proof -
  have "cleaned_up start ps now'"
    by (rule cleaned_up_mono [of start ps now]) (use assms in \<open>auto simp: cleared_def\<close>)
  then show ?thesis using assms unfolding cleared_def by simp
qed

lemma cleared_drop:
  assumes "cleared start d sets ps G now" "ok_kind k \<in> {ConfigMapKind, ServiceKind}"
  shows "cleared start d sets ps (insert k G) (now(k := None))"
proof -
  have "cleaned_up start ps (now(k := None))"
    by (rule cleaned_up_mono [of start ps now]) (use assms in \<open>auto simp: cleared_def\<close>)
  then show ?thesis using assms unfolding cleared_def by auto
qed

lemma set_not_installation: "ob_key (KInstallation d) \<noteq> set_key ctx r"
  by (simp add: set_key_def ob_key_def meta_key_def)

lemma cleared_set:
  assumes "cleared start d sets ps G now"
  shows "cleared start d (sets @ [p]) ps (insert (pair_key p) G) (now(pair_key p := None))"
proof -
  have "cleaned_up start ps (now(pair_key p := None))"
    by (rule cleaned_up_mono [of start ps now]) (use assms in \<open>auto simp: cleared_def\<close>)
  then show ?thesis using assms set_not_installation unfolding cleared_def by auto
qed

lemma cleared_status:
  assumes "cleared start d sets ps G now" "\<forall>k \<in> G. ok_kind k \<noteq> InstallationKind"
  shows "cleared start d sets ps G (now(ob_key (KInstallation d) \<mapsto> KInstallation (d\<lparr>di_status := st\<rparr>)))"
    (is "cleared _ _ _ _ _ ?now")
proof -
  have other: "?now k = now k" if "ok_kind k \<noteq> InstallationKind" for k using that by auto
  have "cleaned_up start ps now" using assms(1) by (simp add: cleared_def)
  then have "cleaned_up start ps ?now" by (rule cleaned_up_mono) (subst other, auto)
  moreover have "?now (ob_key (KInstallation d)) = Some (KInstallation (d\<lparr>di_status := st\<rparr>))" by simp
  ultimately show ?thesis using assms other unfolding cleared_def by (simp del: fun_upd_apply) metis
qed

lemma cleared_snoc:
  assumes "cleared start d (ps @ [p]) ps G now" "\<forall>k \<in> set (replica_keys (fst p) (snd p)). now k = None"
  shows "cleared start d (ps @ [p]) (ps @ [p]) {} now"
  using assms cleaned_up_snoc [of start ps now p] by (simp add: cleared_def)

lemma cleared_absent:
  assumes "cleared start d ps ps {} now" "now (pair_key p) = None"
  shows "cleared start d (ps @ [p]) (ps @ [p]) {} now"
proof -
  have "now (pair_key p) = (if pair_key p \<in> pair_key ` set ps then None else start (pair_key p))"
    using assms(1) by (simp add: cleared_def)
  then have "pair_key p \<in> pair_key ` set ps \<or> start (pair_key p) = None" using assms(2) by (metis (no_types, lifting))
  then have "cleaned_up start (ps @ [p]) now"
    using assms(1) by (intro cleaned_up_snoc) (auto simp: cleared_def)
  then show ?thesis using assms unfolding cleared_def by auto
qed

section \<open>Removing a replica\<close>

text \<open>The installation is the one that is deleted but for its status, the context is the one of the run.\<close>

definition deleting_with ::
  "daisy_installation \<Rightarrow> member_context \<Rightarrow> (member_context \<Rightarrow> installation_status \<Rightarrow> bool)
   \<Rightarrow> member_context \<Rightarrow> daisy_installation \<Rightarrow> bool" where
  "deleting_with d base P ctx di \<longleftrightarrow> (\<exists>st. di = d\<lparr>di_status := st\<rparr>) \<and> run_context base ctx \<and> P ctx (di_status di)"

lemma deleting_status: "deleting_with d base P ctx di \<Longrightarrow> P' ctx st \<Longrightarrow> deleting_with d base P' ctx (di\<lparr>di_status := st\<rparr>)"
  by (auto simp: deleting_with_def)

text \<open>The claims of a list.\<close>

lemma claim_key: "as_pvc ob = Some q \<Longrightarrow> meta_key PvcKind (pc_meta q) = ob_key ob"
  by (cases ob) (auto simp: as_pvc_def ob_key_def)

lemma listed_claims:
  "(\<lambda>p. meta_key PvcKind (pc_meta p)) ` set (List.map_filter as_pvc obs) \<subseteq> ob_key ` set obs"
  "distinct (map ob_key obs) \<Longrightarrow> distinct (map (\<lambda>p. meta_key PvcKind (pc_meta p)) (List.map_filter as_pvc obs))"
proof (induction obs)
  case (Cons ob obs)
  case 1
  then show ?case using Cons.IH(1) by (auto simp: claim_key split: option.splits)
  case 2
  then show ?case using Cons.IH by (auto simp: claim_key split: option.splits)
qed simp_all

lemma brings_on_world: "brings J m J' \<Longrightarrow> brings (holds J R) (on_world m) (holds J' R)"
  by (fastforce simp: brings_def on_world_def holds_def split: prod.splits)

context kube_clears
begin

definition live where
  "live C w \<longleftrightarrow> up w \<and> C (objs w)"

lemma brings_reading:
  assumes view: "\<And>ob. ob_kind ob = ok_kind k \<Longrightarrow> view ob \<noteq> None"
    and missing: "brings (holds (live (\<lambda>now. C now \<and> now k = None)) R) (f (Inl (Api NotFound))) Q"
    and found: "\<And>x. brings (holds (live C) R) (f (Inr x)) Q"
  shows "brings (holds (live C) R) (bindp (try_prog (on_world (decoded view (kc_get K k)))) f) Q"
proof (rule bringsI)
  fix s :: "('w, 'b) mstate" assume s: "holds (live C) R s"
  then have "up (ms_world s)" by (simp add: holds_def live_def)
  then obtain w where w: "up w" "objs w = objs (ms_world s)"
    "try_prog (decoded view (kc_get K k)) (ms_world s) = (Done (case objs (ms_world s) k of
       None \<Rightarrow> Inl (Api NotFound) | Some ob \<Rightarrow> Inr (the (view ob))), w)"
    using reading_up [where k = k and view = view, OF _ view] by blast
  then have run: "bindp (try_prog (on_world (decoded view (kc_get K k)))) f s
      = f (case objs w k of None \<Rightarrow> Inl (Api NotFound) | Some ob \<Rightarrow> Inr (the (view ob))) (s\<lparr>ms_world := w\<rparr>)"
    by (auto simp: on_world_commutes(2) bindp_def on_world_def)
  have now: "holds (live C) R (s\<lparr>ms_world := w\<rparr>)" using s w by (simp add: holds_def live_def)
  show "\<exists>x s'. bindp (try_prog (on_world (decoded view (kc_get K k)))) f s = (Done x, s') \<and> Q s'"
  proof (cases "objs w k")
    case None
    then have "holds (live (\<lambda>now. C now \<and> now k = None)) R (s\<lparr>ms_world := w\<rparr>)" using now by (simp add: holds_def live_def)
    then show ?thesis using brings_run [OF missing] None by (simp add: run)
  next
    case (Some ob)
    then show ?thesis using brings_run [OF found now] by (simp add: run)
  qed
qed

lemma brings_get_delete:
  assumes "\<And>ob. ob_kind ob = ok_kind k \<Longrightarrow> view ob \<noteq> None" "ok_kind k \<noteq> PvcKind"
    and "\<And>now. C now \<Longrightarrow> C' (now(k := None))"
  shows "brings (live C) (bindp (try_prog (decoded view (kc_get K k))) (\<lambda>r. case r of
      Inr _ \<Rightarrow> api (kc_delete K k) | Inl e \<Rightarrow> if is_not_found e then ret () else throw e)) (live C')"
proof (rule bringsI)
  let ?m = "bindp (try_prog (decoded view (kc_get K k))) (\<lambda>r. case r of
    Inr _ \<Rightarrow> api (kc_delete K k) | Inl e \<Rightarrow> if is_not_found e then ret () else throw e)"
  fix w assume w: "live C w"
  then obtain w' where w': "up w'" "objs w' = (objs w)(k := None)" "?m w = (Done (), w')"
    using get_delete_up [where k = k and view = view, OF _ assms(1,2)] unfolding live_def by blast
  moreover have "C' (objs w')" using w w'(2) assms(3) by (simp add: live_def)
  ultimately show "\<exists>x w'. ?m w = (Done x, w') \<and> live C' w'" by (auto simp: live_def)
qed

lemma config_map_deleted:
  assumes "ok_kind k = ConfigMapKind"
  shows "brings (live (cleared start d sets ps G)) (delete_config_map K k) (live (cleared start d sets ps (insert k G)))"
  unfolding delete_config_map_eq by (rule brings_get_delete) (auto simp: assms view_kinds intro: cleared_drop)

lemma service_deleted:
  assumes "ok_kind k = ServiceKind"
  shows "brings (live (cleared start d sets ps G)) (delete_service K k) (live (cleared start d sets ps (insert k G)))"
  unfolding delete_service_eq by (rule brings_get_delete) (auto simp: assms view_kinds intro: cleared_drop)

lemma set_deleted:
  fixes D :: "('w, 'd) deps"
  assumes D: "dp_kube D = K" and R: "\<And>ctx di. R ctx di \<Longrightarrow> ctx = fst p"
  shows "brings (holds (live (cleared start d sets ps G)) R) (delete_stateful_set_for_replica D (snd p))
    (holds (live (cleared start d (sets @ [p]) ps (insert (pair_key p) G))) R)"
  unfolding delete_stateful_set_on_world D
proof (rule brings_read_holds)
  fix s0 :: "('w, 'd) mstate"
  assume "R (ms_ctx s0) (ms_di s0)"
  then have ctx: "ms_ctx s0 = fst p" by (rule R)
  have "brings (live (cleared start d sets ps G))
      (bindp (try_prog (decoded as_stateful_set (kc_get K (pair_key p)))) (\<lambda>r. case r of
         Inl e \<Rightarrow> if is_not_found e then ret () else throw e | Inr _ \<Rightarrow> api (kc_delete K (pair_key p))))
      (live (cleared start d (sets @ [p]) ps (insert (pair_key p) G)))"
    by (rule brings_get_delete) (auto simp: view_kinds intro: cleared_set)
  then show "brings (holds (live (cleared start d sets ps G)) (\<lambda>ctx di. R ctx di \<and> ctx = ms_ctx s0 \<and> di = ms_di s0))
      (on_world (bindp (try_prog (decoded as_stateful_set (kc_get K (set_key (ms_ctx s0) (snd p))))) (\<lambda>r. case r of
         Inl e \<Rightarrow> if is_not_found e then ret () else throw e
       | Inr _ \<Rightarrow> api (kc_delete K (set_key (ms_ctx s0) (snd p))))))
      (holds (live (cleared start d (sets @ [p]) ps (insert (pair_key p) G))) R)"
    unfolding ctx by (rule brings_weaken [OF brings_on_world [where R = R]]) (auto simp: holds_def)
qed

lemma claims_deleted:
  fixes D :: "('w, 'd) deps"
  assumes D: "dp_kube D = K" and G: "\<forall>k \<in> G. ok_kind k \<noteq> PvcKind"
  shows "brings (holds (live (cleared start d sets ps G)) R) (delete_pvc D r)
    (holds (live (cleared start d sets ps G)) R)"
  unfolding delete_pvc_def D
proof (rule brings_read_holds)
  fix s0 :: "('w, 'd) mstate"
  let ?ns = "mc_namespace (ms_ctx s0)" and ?sel = "label_replica (ms_ctx s0) r"
  let ?del = "each (\<lambda>p. api (kc_delete K (meta_key PvcKind (pc_meta p))))"
  have on_each: "each (\<lambda>p. on_world (f p)) ps = on_world (each f ps)" for f :: "pvc \<Rightarrow> ('w, unit) prog" and ps
    by (induction ps) (simp_all add: on_world_commutes(1) on_world_commutes(3) [symmetric])
  have "brings (live (cleared start d sets ps G)) (bindp (api (kc_list K PvcKind ?ns ?sel))
      (\<lambda>obs. ?del (List.map_filter as_pvc obs))) (live (cleared start d sets ps G))"
  proof (rule bringsI)
    fix w assume w: "live (cleared start d sets ps G) w"
    then obtain obs w1 where w1: "up w1" "objs w1 = objs w" "kc_list K PvcKind ?ns ?sel w = (Inr obs, w1)"
      and obs: "distinct (map ob_key obs)" "\<forall>ob \<in> set obs. objs w (ob_key ob) = Some ob"
      using list_serves [of w PvcKind ?ns ?sel] by (auto simp: live_def)
    let ?ps = "List.map_filter as_pvc obs"
    have distinct: "distinct (map (\<lambda>p. meta_key PvcKind (pc_meta p)) ?ps)" by (rule listed_claims(2) [OF obs(1)])
    have stored: "\<forall>p \<in> set ?ps. objs w1 (meta_key PvcKind (pc_meta p)) \<noteq> None"
      using obs(2) w1(2) listed_claims(1) [of obs] by fastforce
    obtain w2 where "up w2" "\<forall>k. ok_kind k \<noteq> PvcKind \<longrightarrow> objs w2 k = objs w1 k" "?del ?ps w1 = (Done (), w2)"
      using delete_claims_up [OF w1(1) distinct stored] by blast
    then show "\<exists>x w'. bindp (api (kc_list K PvcKind ?ns ?sel)) (\<lambda>obs. ?del (List.map_filter as_pvc obs)) w = (Done x, w')
        \<and> live (cleared start d sets ps G) w'"
      using w w1 cleared_others [OF _ _ G, of start d sets ps "objs w" "objs w2"]
      by (auto simp: live_def bindp_def api_def [of "kc_list K PvcKind ?ns ?sel"])
  qed
  then show "brings (holds (live (cleared start d sets ps G)) (\<lambda>ctx di. R ctx di \<and> ctx = ms_ctx s0 \<and> di = ms_di s0))
      (bindp (on_world (api (kc_list K PvcKind ?ns ?sel))) (\<lambda>obs. each (\<lambda>p. on_world (api (kc_delete K (meta_key PvcKind (pc_meta p)))))
         (List.map_filter as_pvc obs))) (holds (live (cleared start d sets ps G)) R)"
    unfolding on_each on_world_commutes(1)
    by (rule brings_weaken [OF brings_on_world [where R = R]]) (auto simp: holds_def)
qed

text \<open>The status is reported and stored.\<close>

lemma deleting_reported:
  fixes D :: "('w, 'd) deps"
  assumes D: "dp_kube D = K" and G: "\<forall>k \<in> G. ok_kind k \<noteq> InstallationKind"
  shows "brings (holds (live (cleared start d sets ps G)) (deleting_with d base P)) (update_installation_status D t)
    (holds (live (cleared start d sets ps G)) (deleting_with d base P))"
  unfolding update_installation_status_def D
proof (rule bringsI)
  fix s :: "('w, 'd) mstate"
  let ?C = "cleared start d sets ps G" and ?ikey = "ob_key (KInstallation d)"
  assume s: "holds (live ?C) (deleting_with d base P) s"
  let ?d = "ms_di s"
  obtain st where di: "?d = d\<lparr>di_status := st\<rparr>" using s by (auto simp: holds_def deleting_with_def)
  have k: "OKey InstallationKind (di_namespace ?d) (di_name ?d) = ?ikey" "ob_key (KInstallation ?d) = ?ikey"
    using di by (simp_all add: ob_key_def meta_key_def)
  obtain old where old: "objs (ms_world s) ?ikey = Some (KInstallation (d\<lparr>di_status := old\<rparr>))"
    using s by (auto simp: holds_def live_def cleared_def)
  have up: "up (ms_world s)" using s by (simp add: holds_def live_def)
  obtain w1 where w1: "up w1" "objs w1 = objs (ms_world s)"
    "try_prog (decoded as_installation (kc_get K ?ikey)) (ms_world s) = (Done (Inr (d\<lparr>di_status := old\<rparr>)), w1)"
    using reading_up [where k = ?ikey and view = as_installation, OF up] old view_kinds(6) by (auto simp: as_installation_def)
  have "objs w1 (ob_key (KInstallation ?d)) = Some (KInstallation (?d\<lparr>di_status := old\<rparr>))"
    using w1(2) old di k(2) by simp
  from status_serves [OF w1(1) this] obtain w2 where w2: "up w2" "objs w2 = (objs w1)(?ikey \<mapsto> KInstallation ?d)"
    "kc_update_status K (KInstallation ?d) w1 = (Inr (KInstallation ?d), w2)" unfolding k(2) by blast
  have "?C (objs w2)"
    using s cleared_status [OF _ G, of start d sets ps "objs w1" st] w1(2) w2(2) di by (simp add: holds_def live_def)
  moreover have "try_prog (on_world (decoded as_installation (kc_get K ?ikey))) s
      = (Done (Inr (d\<lparr>di_status := old\<rparr>)), s\<lparr>ms_world := w1\<rparr>)"
    using w1(3) by (simp add: on_world_commutes(2) on_world_def)
  ultimately show "\<exists>x s'. bindp (gets ms_di) (\<lambda>d. bindp (try_prog (on_world (decoded as_installation
        (kc_get K (OKey InstallationKind (di_namespace d) (di_name d)))))) (\<lambda>r. case r of
      Inl e \<Rightarrow> if t then ret () else throw e
    | Inr _ \<Rightarrow> bindp (on_world (api (kc_update_status K (KInstallation d)))) receive_di)) s
    = (Done x, s') \<and> holds (live ?C) (deleting_with d base P) s'"
    using s w2(1,3) by (auto simp: bindp_def gets_def on_world_def api_def receive_di_def as_installation_def set_di_def
      modify_def holds_def live_def k(1))
qed

text \<open>The steps of \<open>deleteReplica\<close>, for the replica and the context \<open>p\<close>.\<close>

abbreviation at_replica where
  "at_replica d base N c sh p \<equiv> deleting_with d base (\<lambda>ctx st. in_removal N c sh ctx st \<and> ctx = fst p)"

abbreviation gone_with where
  "gone_with start d base N c sh ps p G \<equiv>
     holds (live (cleared start d (ps @ [p]) ps G)) (at_replica d base N c sh p)"

lemma replica_deletion_entered:
  assumes p: "p = (base\<lparr>mc_cur_cluster := c, mc_cur_shard := sh, mc_cur_replica := rp_name r\<rparr>, r)"
  shows "brings (holds J (deleting_with d base (in_removal N c sh))) (set_ctx (\<lambda>c. c\<lparr>mc_cur_replica := rp_name r\<rparr>))
    (holds J (at_replica d base N c sh p))"
proof (rule brings_set_ctx)
  fix ctx di
  assume di: "deleting_with d base (in_removal N c sh) ctx di"
  then have P: "in_removal N c sh ctx (di_status di)" and "run_context base ctx" by (simp_all add: deleting_with_def)
  then have run: "run_context base (ctx\<lparr>mc_cur_replica := rp_name r\<rparr>)" by (simp add: run_context_keeps)
  moreover have "mc_cur_cluster ctx = c" "mc_cur_shard ctx = sh" using P by (simp_all add: in_removal_def)
  ultimately have at: "ctx\<lparr>mc_cur_replica := rp_name r\<rparr> = fst p" by (simp add: run_context_def p)
  have "in_removal N c sh (fst p) (di_status di)" using deleting.moved [OF P, of "rp_name r"] unfolding at .
  then show "at_replica d base N c sh p (ctx\<lparr>mc_cur_replica := rp_name r\<rparr>) di"
    using di run unfolding at by (simp add: deleting_with_def)
qed

lemma replica_set_deleted:
  fixes D :: "('w, 'd) deps"
  assumes "dp_kube D = K" "snd p = r"
  shows "brings (holds (live (cleared start d ps ps {})) (at_replica d base N c sh p)) (delete_stateful_set_for_replica D r)
    (gone_with start d base N c sh ps p {pair_key p})"
  using set_deleted [where p = p and R = "at_replica d base N c sh p" and sets = ps and ps = ps and G = "{}", OF assms(1)]
  by (simp add: assms(2) deleting_with_def)

lemma replica_status_forgotten:
  "brings (gone_with start d base N c sh ps p G) (write_status (forget_replica_status (fst p) r))
    (gone_with start d base N c sh ps p G)"
proof (rule brings_write_status)
  fix ctx di assume R: "at_replica d base N c sh p ctx di"
  then have "in_removal N c sh ctx (di_status di)" "ctx = fst p" by (auto simp: deleting_with_def)
  from deleting.forgets [OF this(1) this(1), of r] this(2)
  show "\<exists>st. forget_replica_status (fst p) r (di_status di) = Some st
      \<and> at_replica d base N c sh p ctx (di\<lparr>di_status := st\<rparr>)"
    using deleting_status [OF R, of "\<lambda>ctx st. in_removal N c sh ctx st \<and> ctx = fst p"] by auto
qed

lemma replica_service_deleted:
  fixes D :: "('w, 'd) deps"
  assumes D: "dp_kube D = K"
  shows "brings (gone_with start d base N c sh ps p G) (delete_service_for_replica D r)
    (gone_with start d base N c sh ps p (insert (OKey ServiceKind (mc_namespace (fst p)) (rp_name r)) G))"
  unfolding delete_service_for_replica_def D
proof (rule brings_read_holds)
  fix s1 :: "('w, 'd) mstate" assume "at_replica d base N c sh p (ms_ctx s1) (ms_di s1)"
  then have ctx: "ms_ctx s1 = fst p" by (simp add: deleting_with_def)
  let ?R = "\<lambda>ctx di. at_replica d base N c sh p ctx di \<and> ctx = ms_ctx s1 \<and> di = ms_di s1"
  let ?k = "OKey ServiceKind (mc_namespace (fst p)) (rp_name r)"
  have "brings (live (cleared start d (ps @ [p]) ps G)) (delete_service K ?k) (live (cleared start d (ps @ [p]) ps (insert ?k G)))"
    by (rule service_deleted) simp
  from brings_on_world [OF this]
  show "brings (holds (live (cleared start d (ps @ [p]) ps G)) ?R)
      (on_world (delete_service K (OKey ServiceKind (mc_namespace (ms_ctx s1)) (rp_name r))))
      (gone_with start d base N c sh ps p (insert ?k G))"
    unfolding ctx by (rule brings_weaken) (auto simp: holds_def)
qed

lemma replica_deletion_reported:
  fixes D :: "('w, 'd) deps"
  assumes D: "dp_kube D = K" and G: "G = set (replica_keys (fst p) (snd p))"
  shows "brings (gone_with start d base N c sh ps p G) (update_installation_status D True)
    (holds (live (cleared start d (ps @ [p]) (ps @ [p]) {})) (deleting_with d base (in_removal N c sh)))"
proof (rule brings_weaken)
  let ?R = "at_replica d base N c sh p"
  show "brings (gone_with start d base N c sh ps p G) (update_installation_status D True) (gone_with start d base N c sh ps p G)"
    by (rule deleting_reported [OF D]) (auto simp: G dest: replica_keys_kinds)
  fix s :: "('w, 'd) mstate"
  assume s: "gone_with start d base N c sh ps p G s"
  then have "cleared start d (ps @ [p]) ps G (objs (ms_world s))" by (simp add: holds_def live_def)
  moreover from this have "\<forall>k \<in> set (replica_keys (fst p) (snd p)). objs (ms_world s) k = None" by (simp add: cleared_def G)
  ultimately have "cleared start d (ps @ [p]) (ps @ [p]) {} (objs (ms_world s))" by (rule cleared_snoc)
  then show "holds (live (cleared start d (ps @ [p]) (ps @ [p]) {})) (deleting_with d base (in_removal N c sh)) s"
    using s by (auto simp: holds_def live_def deleting_with_def)
qed

lemma delete_body_up:
  fixes D :: "('w, 'd) deps"
  assumes D: "dp_kube D = K" and p: "snd p = r"
  shows "brings (holds (live (cleared start d ps ps {})) (at_replica d base N c sh p))
    (andthen (delete_tables D r)
      (andthen (delete_stateful_set_for_replica D r)
      (andthen (on_status (\<lambda>st. st\<lparr>is_deleted_replicas_count := is_deleted_replicas_count st + 1\<rparr>))
      (andthen (write_status (forget_replica_status (fst p) r))
      (andthen (if b then delete_pvc D r else ret ())
      (andthen (on_world (delete_config_map K
          (OKey ConfigMapKind (mc_namespace (fst p)) (create_config_map_pod_name (fst p)))))
      (andthen (delete_service_for_replica D r) (update_installation_status D True))))))))
    (holds (live (cleared start d (ps @ [p]) (ps @ [p]) {})) (deleting_with d base (in_removal N c sh)))"
proof -
  let ?R = "at_replica d base N c sh p" and ?now = "cleared start d ps ps {}"
  let ?cm = "OKey ConfigMapKind (mc_namespace (fst p)) (create_config_map_pod_name (fst p))"
  let ?svc = "OKey ServiceKind (mc_namespace (fst p)) (rp_name r)"
  let ?step = "gone_with start d base N c sh ps p"
  have tables: "brings (holds (live ?now) ?R) (delete_tables D r) (holds (live ?now) ?R)"
    by (auto simp: delete_tables_def brings_def holds_def bindp_def get_state_def on_db_def ret_def split: prod.splits)
  have count: "brings (?step G) (on_status (\<lambda>st. st\<lparr>is_deleted_replicas_count := is_deleted_replicas_count st + 1\<rparr>)) (?step G)" for G
    by (rule brings_on_status, rule deleting_status) (auto simp: deleting_with_def dest: deleting.deleted)
  have claims: "brings (?step {pair_key p}) (if b then delete_pvc D r else ret ()) (?step {pair_key p})"
    by (auto intro: claims_deleted [OF D] served_ret)
  have maps: "brings (?step G) (on_world (delete_config_map K ?cm)) (?step (insert ?cm G))" for G
    by (intro brings_on_world config_map_deleted) simp
  have report: "brings (?step {?svc, ?cm, pair_key p}) (update_installation_status D True)
      (holds (live (cleared start d (ps @ [p]) (ps @ [p]) {})) (deleting_with d base (in_removal N c sh)))"
    by (rule replica_deletion_reported [OF D]) (auto simp: replica_keys_def p)
  show ?thesis
    by (rule brings_bind [OF tables brings_bind [OF replica_set_deleted [OF D p] brings_bind [OF count
        brings_bind [OF replica_status_forgotten brings_bind [OF claims brings_bind [OF maps
        brings_bind [OF replica_service_deleted [OF D] report]]]]]]])
qed

lemma delete_replica_up:
  fixes D :: "('w, 'd) deps"
  assumes D: "dp_kube D = K"
    and p: "p = (base\<lparr>mc_cur_cluster := c, mc_cur_shard := sh, mc_cur_replica := rp_name r\<rparr>, r)"
  shows "brings (holds (live (cleared start d ps ps {})) (deleting_with d base (in_removal N c sh))) (delete_replica D r)
    (holds (live (cleared start d (ps @ [p]) (ps @ [p]) {})) (deleting_with d base (in_removal N c sh)))"
  unfolding delete_replica_def D
proof (rule brings_bind [OF replica_deletion_entered [OF p] brings_read_holds], goal_cases)
  case (1 u s0)
  let ?R0 = "\<lambda>ctx di. at_replica d base N c sh p ctx di \<and> ctx = ms_ctx s0 \<and> di = ms_di s0"
  have ctx: "ms_ctx s0 = fst p" and r: "snd p = r" using 1(2) by (simp_all add: deleting_with_def p)
  have absent: "brings (holds (live (\<lambda>now. cleared start d ps ps {} now \<and> now (set_key (ms_ctx s0) r) = None)) ?R0) (ret ())
      (holds (live (cleared start d (ps @ [p]) (ps @ [p]) {})) (deleting_with d base (in_removal N c sh)))"
    by (rule brings_ret)
      (use cleared_absent [where p = p and d = d] ctx r in \<open>auto simp: holds_def live_def deleting_with_def\<close>)
  note body = brings_weaken [OF delete_body_up [OF D r, of start d ps base N c sh,
      where b = "sp_pv_reclaim_policy (di_spec (ms_di s0)) = ''Delete''"]]
  show ?case
  proof (rule brings_reading, goal_cases)
    case (3 x)
    show ?case unfolding sum.case ctx by (rule body) (auto simp: holds_def)
  qed (use absent in \<open>auto simp: view_kinds is_not_found_def\<close>)
qed

end

end
