(* ===== verification/Deletion_Completes.thy ===== *)
theory Deletion_Completes
  imports Clearing
begin

text \<open>
  The deletion of a whole installation where every request succeeds: the walk over clusters and
  shards, the objects of the installation, the finalizer; the concrete server as an instance, and
  the property that one reconciliation is enough.
\<close>

section \<open>Removing everything\<close>

lemma brings_each_walk:
  assumes "\<And>x ps. x \<in> set xs \<Longrightarrow> brings (I ps) (f x) (I (ps @ g x))"
  shows "brings (I ps) (each f xs) (I (ps @ concat (map g xs)))"
  using assms
proof (induction xs arbitrary: ps)
  case Nil
  then show ?case by (simp add: served_ret)
next
  case (Cons x xs)
  have "brings (I (ps @ g x)) (each f xs) (I ((ps @ g x) @ concat (map g xs)))"
    using Cons.prems by (intro Cons.IH) simp
  then show ?case using Cons.prems [of x ps] by (simp add: brings_bind)
qed

lemma brings_tried: "brings P m Q \<Longrightarrow> brings P (try_prog m) Q"
  by (fastforce simp: brings_def try_prog_def)

lemma brings_checked: "brings P m R \<Longrightarrow> brings R n Q \<Longrightarrow> brings P (bindp (try_prog m) (\<lambda>r. case r of Inl e \<Rightarrow> f e | Inr _ \<Rightarrow> n)) Q"
  by (fastforce simp: brings_def try_prog_def bindp_def)

lemma brings_both_tried:
  "brings P m R \<Longrightarrow> brings R n Q \<Longrightarrow> brings P (bindp (try_prog m) (\<lambda>r1. bindp (try_prog n) (\<lambda>r2. case (r1, r2) of
     (Inl e, _) \<Rightarrow> throw e | (Inr _, Inl e) \<Rightarrow> throw e | (Inr _, Inr _) \<Rightarrow> ret ()))) Q"
  by (fastforce simp: brings_def try_prog_def bindp_def ret_def)

abbreviation in_deleted_cluster where
  "in_deleted_cluster N c \<equiv> \<lambda>ctx st. listed N ctx st \<and> mc_cur_cluster ctx = c"

context kube_clears
begin

abbreviation walked where
  "walked start d base P ps \<equiv> holds (live (cleared start d ps ps {})) (deleting_with d base P)"

lemma delete_shard_up:
  fixes D :: "('w, 'd) deps"
  assumes D: "dp_kube D = K" and c: "c \<in> N"
  shows "brings (walked start d base (in_deleted_cluster N c) ps) (delete_shard D sh)
    (walked start d base (in_deleted_cluster N c) (ps @ shard_walk base c sh))"
proof -
  let ?at = "\<lambda>ctx st. in_deleted_cluster N c ctx st \<and> mc_cur_shard ctx = sh_name sh"
  let ?in = "in_removal N c (sh_name sh)" and ?pair = "\<lambda>(_, r). (base\<lparr>mc_cur_cluster := c, mc_cur_shard := sh_name sh,
    mc_cur_replica := rp_name r\<rparr>, r)"
  have enter: "brings (walked start d base (in_deleted_cluster N c) ps) (set_ctx (\<lambda>c. c\<lparr>mc_cur_shard := sh_name sh\<rparr>))
      (walked start d base ?at ps)"
    by (rule brings_set_ctx) (auto simp: deleting_with_def listed_def run_context_keeps)
  have mark: "brings (walked start d base ?at ps) (write_status (mark_shard_deleted c sh)) (walked start d base ?in ps)"
  proof (rule brings_write_status)
    fix ctx di assume at: "deleting_with d base ?at ctx di"
    then obtain st where "mark_shard_deleted c sh (di_status di) = Some st" "?in ctx st"
      using mark_shard_ok [of N ctx "di_status di" c sh] c by (auto simp: deleting_with_def)
    then show "\<exists>st. mark_shard_deleted c sh (di_status di) = Some st \<and> deleting_with d base ?in ctx (di\<lparr>di_status := st\<rparr>)"
      using deleting_status [OF at] by blast
  qed
  have "brings (walked start d base ?in ps) (each (\<lambda>(_, r). delete_replica D r) (mentries (sh_replicas sh)))
      (walked start d base ?in (ps @ concat (map (\<lambda>x. [?pair x]) (mentries (sh_replicas sh)))))"
    by (rule brings_each_walk) (auto intro!: delete_replica_up [OF D])
  then have replicas: "brings (walked start d base ?in ps) (each (\<lambda>(_, r). delete_replica D r) (mentries (sh_replicas sh)))
      (walked start d base (in_deleted_cluster N c) (ps @ shard_walk base c sh))"
    by (rule brings_weaken) (auto simp: shard_walk_def holds_def deleting_with_def in_removal_def)
  show ?thesis
    unfolding delete_shard_def
  proof (rule brings_bind [OF enter brings_read_holds], goal_cases)
    case (1 u s0)
    then have cur: "mc_cur_cluster (ms_ctx s0) = c" by (simp add: deleting_with_def)
    show ?case
      unfolding cur by (rule brings_weaken [OF brings_bind [OF mark replicas]]) (auto simp: holds_def)
  qed
qed

lemma delete_clusters_up:
  fixes D :: "('w, 'd) deps"
  assumes D: "dp_kube D = K" and N: "fst ` set cs \<subseteq> N"
  shows "brings (walked start d base (listed N) ps)
    (each (\<lambda>(name, c). andthen (set_ctx (\<lambda>x. x\<lparr>mc_cur_cluster := name\<rparr>)) (delete_cluster D c)) cs)
    (walked start d base (listed N) (ps @ concat (map (cluster_walk base) cs)))"
proof (rule brings_each_walk)
  fix p ps assume "p \<in> set cs"
  moreover obtain name c where p: "p = (name, c)" by fastforce
  ultimately have name: "name \<in> N" using N by force
  have enter: "brings (walked start d base (listed N) ps) (set_ctx (\<lambda>x. x\<lparr>mc_cur_cluster := name\<rparr>))
      (walked start d base (in_deleted_cluster N name) ps)"
    by (rule brings_set_ctx) (auto simp: deleting_with_def listed_def run_context_keeps)
  have "brings (walked start d base (in_deleted_cluster N name) ps) (delete_cluster D c)
      (walked start d base (in_deleted_cluster N name)
        (ps @ concat (map (\<lambda>(_, sh). shard_walk base name sh) (mentries (lo_shards (cl_layout c))))))"
    unfolding delete_cluster_def by (rule brings_each_walk) (auto intro!: delete_shard_up [OF D name])
  then have cluster: "brings (walked start d base (in_deleted_cluster N name) ps) (delete_cluster D c)
      (walked start d base (listed N) (ps @ cluster_walk base p))"
    by (rule brings_weaken) (auto simp: cluster_walk_def p holds_def deleting_with_def)
  show "brings (walked start d base (listed N) ps)
      (case p of (name, c) \<Rightarrow> andthen (set_ctx (\<lambda>x. x\<lparr>mc_cur_cluster := name\<rparr>)) (delete_cluster D c))
      (walked start d base (listed N) (ps @ cluster_walk base p))"
    unfolding p prod.case by (rule brings_bind [OF enter cluster [unfolded p]])
qed

end

lemma delete_context_status [simp]: "delete_context n (d\<lparr>di_status := st\<rparr>) = delete_context n d"
  by (simp add: delete_context_def get_instance_name_def split: option.split)

text \<open>The objects of the installation itself.\<close>

definition installation_keys :: "member_context \<Rightarrow> daisy_installation \<Rightarrow> okey list" where
  "installation_keys ctx d =
     [OKey ConfigMapKind (mc_namespace ctx) (create_config_map_common_name ctx),
      OKey ConfigMapKind (mc_namespace ctx) (create_config_map_common_users_name ctx),
      OKey ServiceKind (mc_namespace ctx) (create_installation_service_name d)]"

lemma installation_keys_kinds: "k \<in> set (installation_keys ctx d) \<Longrightarrow> ok_kind k \<in> {ConfigMapKind, ServiceKind}"
  by (auto simp: installation_keys_def)

lemma installation_keys_run:
  "run_context base ctx \<Longrightarrow> installation_keys ctx (d\<lparr>di_status := st\<rparr>) = installation_keys base d"
  unfolding run_context_def by (erule subst) (simp add: installation_keys_def config_map_names installation_service_name)

lemma remove_finalizer_meta [simp]:
  "ob_key (KInstallation (remove_finalizer d)) = ob_key (KInstallation d)"
  "remove_finalizer (d\<lparr>di_status := st\<rparr>) = (remove_finalizer d)\<lparr>di_status := st\<rparr>"
  by (simp_all add: remove_finalizer_def ob_key_def meta_key_def)

text \<open>Everything that has been removed, and what has become of the installation.\<close>

definition deleted ::
  "normalized_spec \<Rightarrow> daisy_installation \<Rightarrow> (okey \<Rightarrow> kobject option) \<Rightarrow> (okey \<Rightarrow> kobject option) \<Rightarrow> bool" where
  "deleted n d start now \<longleftrightarrow>
     (\<forall>k \<in> pair_key ` set (removal_walk n d). now k = None)
     \<and> cleaned_up start (removal_walk n d) now
     \<and> (\<forall>k \<in> set (installation_keys (delete_context n d) d). now k = None)
     \<and> (if leaving (KInstallation (remove_finalizer d)) then now (ob_key (KInstallation d)) = None
        else \<exists>st. now (ob_key (KInstallation d)) = Some (KInstallation ((remove_finalizer d)\<lparr>di_status := st\<rparr>)))"

context kube_clears
begin

text \<open>The last update takes the finalizer off.\<close>

lemma finalizer_removed:
  fixes D :: "('w, 'd) deps"
  assumes D: "dp_kube D = K"
    and G: "set (installation_keys (delete_context n d) d) \<subseteq> G"
  shows "brings (holds (live (cleared start d (removal_walk n d) (removal_walk n d) G)) (deleting_with d base P))
    (andthen (set_di remove_finalizer) (update_di D)) (\<lambda>s. deleted n d start (objs (ms_world s)))"
proof (rule bringsI)
  fix s :: "('w, 'd) mstate"
  let ?C = "cleared start d (removal_walk n d) (removal_walk n d) G" and ?k = "ob_key (KInstallation d)"
  assume s: "holds (live ?C) (deleting_with d base P) s"
  then obtain st where di: "ms_di s = d\<lparr>di_status := st\<rparr>" and C: "?C (objs (ms_world s))" and up: "up (ms_world s)"
    by (auto simp: holds_def live_def deleting_with_def)
  let ?d = "(remove_finalizer d)\<lparr>di_status := st\<rparr>"
  have "objs (ms_world s) (ob_key (KInstallation ?d)) \<noteq> None" using C by (auto simp: cleared_def)
  from finalize_serves [OF up this] obtain ob w' where
    w': "as_updated (KInstallation ?d) ob" "kc_update K (KInstallation ?d) (ms_world s) = (Inr ob, w')"
    "objs w' = (objs (ms_world s))(?k := if leaving (KInstallation ?d) then None else Some ob)" by auto
  obtain d' where d': "ob = KInstallation d'" "d'\<lparr>di_status := di_status ?d\<rparr> = ?d"
    using w'(1) by (cases ob) (auto simp: as_updated_def)
  then have "d' = (remove_finalizer d)\<lparr>di_status := di_status d'\<rparr>" by (cases d'; cases "remove_finalizer d") auto
  then have left: "if leaving (KInstallation (remove_finalizer d)) then objs w' ?k = None
      else \<exists>st. objs w' ?k = Some (KInstallation ((remove_finalizer d)\<lparr>di_status := st\<rparr>))"
    using w'(3) d'(1) by auto
  have same: "objs w' k = objs (ms_world s) k" if "ok_kind k \<noteq> InstallationKind" for k
    using w'(3) that by auto
  have "cleaned_up start (removal_walk n d) (objs (ms_world s))" using C by (simp add: cleared_def)
  then have "cleaned_up start (removal_walk n d) (objs w')" by (rule cleaned_up_mono) (subst same, auto)
  moreover have "\<forall>k \<in> pair_key ` set (removal_walk n d). objs w' k = None"
    using C same by (auto simp: cleared_def)
  moreover have "\<forall>k \<in> set (installation_keys (delete_context n d) d). objs w' k = None"
  proof
    fix k assume k: "k \<in> set (installation_keys (delete_context n d) d)"
    then have "objs (ms_world s) k = None" using C G by (auto simp: cleared_def)
    then show "objs w' k = None" using same [of k] installation_keys_kinds [OF k] by auto
  qed
  ultimately have "deleted n d start (objs w')" using left by (simp add: deleted_def)
  then show "\<exists>x s'. andthen (set_di remove_finalizer) (update_di D) s = (Done x, s') \<and> deleted n d start (objs (ms_world s'))"
    using w'(2) d'(1) di by (simp add: bindp_def set_di_def modify_def update_di_def gets_def on_world_def api_def D
      receive_di_def as_installation_def)
qed

lemma deletion_begun:
  "brings (\<lambda>s. live (cleared start d [] [] {}) (ms_world s) \<and> ms_di s = d \<and> listed N (ms_ctx s) (ms_status s))
    (andthen (on_status (\<lambda>st. st\<lparr>is_state := t\<rparr>)) (modify (\<lambda>s. s\<lparr>ms_ctx := delete_context n (ms_di s)\<rparr>)))
    (walked start d (delete_context n d) (listed N) [])"
  by (auto simp: brings_def on_status_def set_di_def modify_def bindp_def holds_def deleting_with_def run_context_def listed_def
      elim: names_ok_cong [rotated])

text \<open>The two config maps and the service of the installation; their names are those of the run.\<close>

abbreviation sets_gone where
  "sets_gone start d n N G \<equiv> holds (live (cleared start d (removal_walk n d) (removal_walk n d) G))
     (deleting_with d (delete_context n d) (listed N))"

lemma run_keys:
  assumes "deleting_with d base P ctx di"
  shows "installation_keys base d = [OKey ConfigMapKind (mc_namespace ctx) (create_config_map_common_name ctx),
      OKey ConfigMapKind (mc_namespace ctx) (create_config_map_common_users_name ctx),
      OKey ServiceKind (mc_namespace ctx) (create_installation_service_name di)]"
proof -
  obtain st where "di = d\<lparr>di_status := st\<rparr>" "run_context base ctx" using assms by (auto simp: deleting_with_def)
  then show ?thesis using installation_keys_run [where base = base and ctx = ctx and d = d and st = st] by (simp add: installation_keys_def)
qed

lemma maps_deleted:
  fixes D :: "('w, 'd) deps"
  assumes D: "dp_kube D = K" and keys: "installation_keys (delete_context n d) d = [k1, k2, k3]"
  shows "brings (sets_gone start d n N {})
    (bindp get_state (\<lambda>s. try_prog (on_world (delete_config_maps (dp_kube D) (ms_ctx s))))) (sets_gone start d n N {k1, k2})"
proof (rule brings_read_holds, goal_cases)
  case (1 s0)
  let ?C = "\<lambda>G. live (cleared start d (removal_walk n d) (removal_walk n d) G)"
  have k: "k1 = OKey ConfigMapKind (mc_namespace (ms_ctx s0)) (create_config_map_common_name (ms_ctx s0))"
    "k2 = OKey ConfigMapKind (mc_namespace (ms_ctx s0)) (create_config_map_common_users_name (ms_ctx s0))"
    using run_keys [OF 1(2)] keys by simp_all
  have "brings (?C {}) (delete_config_maps K (ms_ctx s0)) (?C {k2, k1})"
    unfolding delete_config_maps_def k by (rule brings_both_tried [OF config_map_deleted config_map_deleted]) simp_all
  then show ?case
    unfolding D insert_commute [of k1]
    by (intro brings_tried brings_weaken [OF brings_on_world [where R = "deleting_with d (delete_context n d) (listed N)"]])
      (auto simp: holds_def)
qed

lemma installation_service_deleted:
  fixes D :: "('w, 'd) deps"
  assumes D: "dp_kube D = K" and keys: "installation_keys (delete_context n d) d = [k1, k2, k3]"
  shows "brings (sets_gone start d n N G) (delete_service_for_installation D) (sets_gone start d n N (insert k3 G))"
  unfolding delete_service_for_installation_def D
proof (rule brings_read_holds, goal_cases)
  case (1 s0)
  have k: "OKey ServiceKind (mc_namespace (ms_ctx s0)) (create_installation_service_name (ms_di s0)) = k3"
    using run_keys [OF 1(2)] keys by simp
  moreover have "ok_kind k3 = ServiceKind" unfolding k [symmetric] by simp
  ultimately show ?case
    by (intro brings_weaken [OF brings_on_world [OF service_deleted, where R = "deleting_with d (delete_context n d) (listed N)"]])
      (auto simp: holds_def)
qed

lemma delete_normalized_up:
  fixes D :: "('w, 'd) deps"
  assumes D: "dp_kube D = K"
    and N: "N = fst ` set (mentries (cf_clusters (sp_configuration (no_spec n))))"
  shows "brings (\<lambda>s. live (cleared start d [] [] {}) (ms_world s) \<and> ms_di s = d \<and> listed N (ms_ctx s) (ms_status s))
    (delete_normalized D n) (\<lambda>s. deleted n d start (objs (ms_world s)))"
proof -
  obtain k1 k2 k3 where keys: "installation_keys (delete_context n d) d = [k1, k2, k3]" by (simp add: installation_keys_def)
  then have kinds: "ok_kind k \<noteq> InstallationKind" if "k \<in> {k3, k1, k2}" for k
    using that installation_keys_kinds [of k "delete_context n d" d] by auto
  have clusters: "brings (walked start d (delete_context n d) (listed N) [])
      (each (\<lambda>(name, c). andthen (set_ctx (\<lambda>x. x\<lparr>mc_cur_cluster := name\<rparr>)) (delete_cluster D c))
        (mentries (cf_clusters (sp_configuration (no_spec n))))) (sets_gone start d n N {})"
    using delete_clusters_up [OF D, where N = N and start = start and d = d and base = "delete_context n d" and ps = "[]"] N
    by (simp add: removal_walk_def)
  have finish: "brings (sets_gone start d n N G) (on_status (\<lambda>st. st\<lparr>is_state := status_completed\<rparr>)) (sets_gone start d n N G)" for G
    by (rule brings_on_status, rule deleting_status) (auto simp: deleting_with_def)
  have last: "brings (sets_gone start d n N {k3, k1, k2}) (bindp (try_prog (update_installation_status D True)) (\<lambda>r. case r of
      Inl e \<Rightarrow> throw (if is_conflict e then RequeueError ''Conflict while updating status'' else e)
    | Inr _ \<Rightarrow> andthen (set_di remove_finalizer) (update_di D))) (\<lambda>s. deleted n d start (objs (ms_world s)))"
    by (rule brings_checked [OF deleting_reported [OF D] finalizer_removed [OF D]]) (use kinds in \<open>auto simp: keys\<close>)
  have whole: "andthen (andthen a b) c = andthen a (andthen b c)" for a :: "('w, 'd, unit) mprog" and b :: "('w, 'd, unit) mprog" and c :: "('w, 'd, unit) mprog"
    by (simp add: bindp_def fun_eq_iff split: prod.splits outcome.splits)
  show ?thesis
    unfolding delete_normalized_def whole [symmetric, of "on_status _" "modify _"]
    by (rule brings_bind [OF deletion_begun brings_bind [OF clusters brings_bind [OF maps_deleted [OF D keys]
        brings_bind [OF installation_service_deleted [OF D keys] brings_bind [OF finish last]]]]])
qed

end

section \<open>The concrete server serves deletions\<close>

definition clears_all :: "server \<Rightarrow> bool" where
  "clears_all w \<longleftrightarrow> serves_all w \<and> sorted_wrt (<) (map fst (sr_objects w))
     \<and> (\<forall>(k, ob) \<in> set (sr_objects w). ob_key ob = k)"

lemma set_insert_object: "set (insert_object k ob es) \<subseteq> insert (k, ob) (set es)"
proof (induction es)
  case (Cons e es)
  then show ?case by (cases e) auto
qed simp

lemma sorted_insert_object:
  "sorted_wrt (<) (map fst es) \<Longrightarrow> sorted_wrt (<) (map fst (insert_object k ob es))"
proof (induction es)
  case (Cons e es)
  obtain k' ob' where e: "e = (k', ob')" by fastforce
  have "\<forall>x \<in> fst ` set (insert_object k ob es). k' < x" if "k' < k"
    using that Cons.prems set_insert_object [of k ob es] by (fastforce simp: e)
  then show ?case using Cons by (auto simp: e)
qed simp

lemma clears_insert:
  assumes "clears_all w" "\<not> leaving ob"
  shows "clears_all (w\<lparr>sr_objects := insert_object (ob_key ob) ob (sr_objects w)\<rparr>)"
proof -
  have "serves_all (w\<lparr>sr_objects := insert_object (ob_key ob) ob (sr_objects w)\<rparr>)"
    using assms by (auto simp: clears_all_def serves_all_def store_insert)
  then show ?thesis
    using assms(1) sorted_insert_object set_insert_object [of "ob_key ob" ob "sr_objects w"]
    by (fastforce simp: clears_all_def)
qed

lemma clears_drop: "clears_all w \<Longrightarrow> clears_all (w\<lparr>sr_objects := drop_object k (sr_objects w)\<rparr>)"
proof -
  have "sorted_wrt (<) (map fst es) \<Longrightarrow> sorted_wrt (<) (map fst (drop_object k es))" for es :: "(okey \<times> kobject) list"
    unfolding drop_object_def by (induction es) auto
  then show "clears_all w \<Longrightarrow> ?thesis"
    by (auto simp: clears_all_def serves_all_def store_drop) (auto simp: drop_object_def)
qed

lemma clears_listed:
  assumes "clears_all w"
  shows "distinct (map ob_key (map snd (sr_objects w)))" "ob \<in> set (map snd (sr_objects w)) \<Longrightarrow> store w (ob_key ob) = Some ob"
proof -
  have keys: "map ob_key (map snd (sr_objects w)) = map fst (sr_objects w)"
    using assms by (auto simp: clears_all_def)
  have distinct: "distinct (map fst (sr_objects w))"
    using assms by (simp add: clears_all_def strict_sorted_iff)
  show "distinct (map ob_key (map snd (sr_objects w)))" unfolding keys by (rule distinct)
  show "store w (ob_key ob) = Some ob" if ob: "ob \<in> set (map snd (sr_objects w))"
  proof -
    obtain k where k: "(k, ob) \<in> set (sr_objects w)" using ob by auto
    then have "map_of (sr_objects w) k = Some ob" using distinct by simp
    moreover have "ob_key ob = k" using assms k by (auto simp: clears_all_def)
    ultimately show ?thesis by (simp add: store_def)
  qed
qed

interpretation clearing: kube_clears server_kube store clears_all
proof
  fix w k assume w: "clears_all w"
  then have free: "sr_faults w = []" by (simp add: clears_all_def serves_all_def)
  show "\<exists>w'. clears_all w' \<and> store w' = store w \<and> kc_get server_kube k w
      = (case store w k of None \<Rightarrow> Inl NotFound | Some ob \<Rightarrow> Inr ob, w')"
    using w free by (auto simp: server_kube_def no_fault split: option.splits)
  show "\<not> leaving ob" if "store w k = Some ob" for ob
    using w that by (auto simp: clears_all_def serves_all_def)
  show "\<exists>w'. clears_all w' \<and> kc_delete server_kube k w = (Inr (), w')" if "store w k \<noteq> None"
    using w free that clears_drop by (auto simp: server_kube_def no_fault)
  show "\<exists>obs w'. clears_all w' \<and> store w' = store w \<and> kc_list server_kube kd ns sel w = (Inr obs, w')
      \<and> distinct (map ob_key obs) \<and> (\<forall>ob \<in> set obs. store w (ob_key ob) = Some ob)" for kd ns sel
    using w clears_listed [OF w] free
    by (auto simp: server_kube_def no_fault distinct_map_filter simp del: map_map)
next
  fix w d st assume w: "clears_all w"
    and d: "store w (ob_key (KInstallation d)) = Some (KInstallation (d\<lparr>di_status := st\<rparr>))"
  then have "\<not> leaving (KInstallation (d\<lparr>di_status := st\<rparr>))" unfolding clears_all_def serves_all_def by blast
  then have "clears_all (w\<lparr>sr_objects := insert_object (ob_key (KInstallation d)) (KInstallation d) (sr_objects w)\<rparr>)"
    by (intro clears_insert [OF w]) simp
  then show "\<exists>w'. clears_all w' \<and> store w' = (store w)(ob_key (KInstallation d) \<mapsto> KInstallation d)
      \<and> kc_update_status server_kube (KInstallation d) w = (Inr (KInstallation d), w')"
    using w d by (auto simp: clears_all_def serves_all_def server_kube_def no_fault store_insert)
next
  fix w d assume w: "clears_all w" and d: "store w (ob_key (KInstallation d)) \<noteq> None"
  then show "\<exists>ob w'. as_updated (KInstallation d) ob
      \<and> store w' = (store w)(ob_key (KInstallation d) := if leaving (KInstallation d) then None else Some ob)
      \<and> kc_update server_kube (KInstallation d) w = (Inr ob, w')"
    using as_updated_same [of "KInstallation d"]
    by (auto simp: clears_all_def serves_all_def server_kube_def no_fault store_insert store_drop)
qed

section \<open>Properties\<close>


text \<open>A run: an installation of one replica that is being deleted.\<close>

definition doomed :: daisy_installation where
  "doomed = zero_installation\<lparr>di_meta := zero_meta\<lparr>om_finalizers := [daisy_finalizer], om_deletion_timestamp := Some 0\<rparr>,
     di_status := (di_status zero_installation)\<lparr>is_clusters := Some [(''cluster'', zero_cluster_status)]\<rparr>\<rparr>"

definition doomed_set :: stateful_set where
  "doomed_set = (example_set [])\<lparr>set_meta := zero_meta\<lparr>om_name := ''-cluster-0-0''\<rparr>\<rparr>"

definition doomed_server :: server where
  "doomed_server = \<lparr>sr_objects = map (\<lambda>ob. (ob_key ob, ob)) [KStatefulSet doomed_set, KInstallation doomed], sr_faults = []\<rparr>"

definition doomed_spec :: normalized_spec where
  "doomed_spec = the (fst (get_installation_from_template pure_env zero_operator_config doomed True))"

definition removable :: "normalized_spec \<Rightarrow> bool" where
  "removable n \<longleftrightarrow> list_all (\<lambda>(c, _). mget (is_clusters (di_status doomed)) c \<noteq> None)
       (mentries (cf_clusters (sp_configuration (no_spec n))))
     \<and> map (\<lambda>p. set_key (fst p) (snd p)) (removal_walk n doomed) = [OKey StatefulSetKind [] ''-cluster-0-0'']"

lemma doomed_removable: "removable doomed_spec"
  by code_simp

lemma doomed_server_clears: "clears_all doomed_server"
proof -
  have "serves_all doomed_server"
    by (rule serves_all_start)
      (simp_all add: doomed_server_def doomed_set_def doomed_def leaving_def zero_meta_def)
  moreover have "sorted_wrt (<) (map fst (sr_objects doomed_server))" by code_simp
  moreover have "\<forall>(k, ob) \<in> set (sr_objects doomed_server). ob_key ob = k" by (simp add: doomed_server_def)
  ultimately show ?thesis by (simp add: clears_all_def)
qed


end
