(* ===== verification/Footprint.thy ===== *)
theory Footprint
  imports Deletion_Completes
begin

text \<open>
  Which objects a reconciliation can change at all, whatever requests fail: those of the
  installation, of the replicas of its specification, and of the replicas that have gone from a
  shard that is still specified. \<open>leaves X m V\<close> says that a program on the world leaves the
  observation \<open>X\<close> alone, ends as it may, and returns \<open>V\<close>; \<open>tame X R m Q\<close> is the triple for programs
  of the manager.
\<close>

section \<open>Programs that leave an observation alone\<close>

named_theorems footprint_rules

definition leaves :: "('w \<Rightarrow> 'v) \<Rightarrow> ('w, 'a) prog \<Rightarrow> ('a \<Rightarrow> bool) \<Rightarrow> bool" where
  "leaves X m V \<longleftrightarrow> (\<forall>w out w'. m w = (out, w') \<longrightarrow> X w' = X w \<and> (\<forall>x. out = Done x \<longrightarrow> V x))"

abbreviation leaves_any :: "('w \<Rightarrow> 'v) \<Rightarrow> ('w, 'a) prog \<Rightarrow> bool" where
  "leaves_any X m \<equiv> leaves X m (\<lambda>_. True)"

lemma leaves_weaken: "leaves X m V \<Longrightarrow> (\<And>x. V x \<Longrightarrow> V' x) \<Longrightarrow> leaves X m V'"
  by (simp add: leaves_def)

lemma leaves_bind:
  assumes "leaves X m V" "\<And>x. V x \<Longrightarrow> leaves X (f x) V'"
  shows "leaves X (bindp m f) V'"
  unfolding leaves_def
proof (intro allI impI)
  fix w out w' assume run: "bindp m f w = (out, w')"
  obtain o1 w1 where m: "m w = (o1, w1)" by fastforce
  have first: "X w1 = X w" "\<And>x. o1 = Done x \<Longrightarrow> V x" using assms(1) m by (auto simp: leaves_def)
  show "X w' = X w \<and> (\<forall>x. out = Done x \<longrightarrow> V' x)"
  proof (cases o1)
    case (Done x)
    then have "f x w1 = (out, w')" using run m by (simp add: bindp_def)
    then show ?thesis using assms(2) [OF first(2) [OF Done]] first(1) by (simp add: leaves_def)
  qed (use run m first(1) in \<open>auto simp: bindp_def\<close>)
qed

lemma leaves_basic:
  "V x \<Longrightarrow> leaves X (ret x) V" "leaves X (throw e) V" "leaves X (panic msg) V"
  by (simp_all add: leaves_def prog_defs)

lemma leaves_any_bind [footprint_rules]: "leaves_any X m \<Longrightarrow> (\<And>x. leaves_any X (f x)) \<Longrightarrow> leaves_any X (bindp m f)"
  by (rule leaves_bind)

lemma leaves_any_basic [footprint_rules]: "leaves_any X (ret x)" "leaves_any X (throw e)" "leaves_any X (panic msg)"
  by (simp_all add: leaves_basic)

lemma leaves_try: "leaves X m V \<Longrightarrow> leaves X (try_prog m) (\<lambda>r. \<forall>x. r = Inr x \<longrightarrow> V x)"
  by (auto simp: leaves_def try_prog_def split: prod.splits outcome.splits)

lemma leaves_any_try [footprint_rules]: "leaves_any X m \<Longrightarrow> leaves_any X (try_prog m)"
  by (drule leaves_try) simp

lemma leaves_each [footprint_rules]: "(\<And>x. x \<in> set xs \<Longrightarrow> leaves_any X (f x)) \<Longrightarrow> leaves_any X (each f xs)"
  by (induction xs) (auto intro: footprint_rules)

lemma leaves_if [footprint_rules]: "(b \<Longrightarrow> leaves X m V) \<Longrightarrow> (\<not> b \<Longrightarrow> leaves X m' V) \<Longrightarrow> leaves X (if b then m else m') V"
  by simp

lemma leaves_from_sum [footprint_rules]: "leaves X (from_sum r) (\<lambda>x. r = Inr x)"
  by (auto simp: from_sum_def leaves_basic split: sum.split)

lemma leaves_api: "(\<And>w r w'. c w = (r, w') \<Longrightarrow> X w' = X w \<and> (\<forall>x. r = Inr x \<longrightarrow> V x)) \<Longrightarrow> leaves X (api c) V"
  by (fastforce simp: leaves_def api_def split: prod.splits sum.splits)

lemma leaves_decoded:
  assumes "leaves X (api c) V" "\<And>ob x. V ob \<Longrightarrow> view ob = Some x \<Longrightarrow> V' x"
  shows "leaves X (decoded view c) V'"
  unfolding decoded_def
  by (rule leaves_bind [OF assms(1)]) (auto intro: leaves_basic assms(2) split: option.split)

section \<open>The requests\<close>

context kube_api
begin

abbreviation at_key :: "okey \<Rightarrow> 'w \<Rightarrow> kobject option" where
  "at_key k w \<equiv> objs w k"

lemma leaves_get: "leaves (at_key k) (api (kc_get K k')) (\<lambda>ob. ob_key ob = k')"
  by (rule leaves_api) (auto dest: get_pure get_ok key_ok)

lemma leaves_list: "leaves_any (at_key k) (api (kc_list K kd ns l))"
  by (rule leaves_api) (auto dest: list_pure)

lemma leaves_create: "ob_key ob \<noteq> k \<Longrightarrow> leaves (at_key k) (api (kc_create K ob)) (\<lambda>ob'. ob_key ob' = ob_key ob)"
  by (rule leaves_api) (metis create_kept create_ok)

lemma leaves_update: "ob_key ob \<noteq> k \<Longrightarrow> leaves (at_key k) (api (kc_update K ob)) (\<lambda>ob'. ob_key ob' = ob_key ob)"
  by (rule leaves_api) (metis update_kept update_ok)

lemma leaves_update_any [footprint_rules]: "ob_key ob \<noteq> k \<Longrightarrow> leaves_any (at_key k) (api (kc_update K ob))"
  by (rule leaves_weaken [OF leaves_update]) auto

lemma leaves_create_any [footprint_rules]: "ob_key ob \<noteq> k \<Longrightarrow> leaves_any (at_key k) (api (kc_create K ob))"
  by (rule leaves_weaken [OF leaves_create]) auto

lemma leaves_delete [footprint_rules]: "k' \<noteq> k \<Longrightarrow> leaves_any (at_key k) (api (kc_delete K k'))"
  by (rule leaves_api) (auto dest: delete_kept)

lemma leaves_found:
  "(\<And>ob x. view ob = Some x \<Longrightarrow> ob_key ob = k' \<Longrightarrow> V x) \<Longrightarrow> leaves (at_key k) (decoded view (kc_get K k')) V"
  by (rule leaves_decoded [OF leaves_get]) auto

lemma leaves_found_any [footprint_rules]: "leaves_any (at_key k) (decoded view (kc_get K k'))"
  by (rule leaves_found) simp

lemma leaves_config_map [footprint_rules]:
  assumes "config_map_key cm \<noteq> k"
  shows "leaves_any (at_key k) (sync_config_map K cm u)"
proof -
  have key: "ob_key (KConfigMap cm) = config_map_key cm" by (simp add: ob_key_def meta_key_def config_map_key_def)
  have made: "leaves (at_key k) (case r of
      Inr _ \<Rightarrow> ret (None, KConfigMap cm)
    | Inl e \<Rightarrow> if is_not_found e
        then bindp (try_prog (api (kc_create K (KConfigMap cm)))) (\<lambda>c.
               ret (case c of Inl e' \<Rightarrow> (Some e', KConfigMap cm) | Inr ob \<Rightarrow> (None, ob)))
        else throw e) (\<lambda>(_, ob). ob_key ob = config_map_key cm)" for r :: "error + config_map"
    using assms
    by (auto intro!: leaves_basic leaves_bind [OF leaves_try [OF leaves_create]] simp: key split: sum.splits)
  show ?thesis
    unfolding sync_config_map_def
    by (rule leaves_bind [OF leaves_try [OF leaves_found_any]], rule leaves_bind [OF made])
      (use assms in \<open>auto intro!: footprint_rules split: option.split\<close>)
qed

lemma leaves_delete_config_map [footprint_rules]: "key \<noteq> k \<Longrightarrow> leaves_any (at_key k) (delete_config_map K key)"
  unfolding delete_config_map_def by (auto intro!: footprint_rules split: sum.split)

lemma leaves_delete_service [footprint_rules]: "key \<noteq> k \<Longrightarrow> leaves_any (at_key k) (delete_service K key)"
  unfolding delete_service_def by (auto intro!: footprint_rules split: sum.split)

end

lemma service_last_applied_key: "set_service_last_applied cd v = Inr x \<Longrightarrow> ob_key (KService x) = ob_key (KService v)"
  by (auto simp: set_service_last_applied_def set_annotation_def ob_key_def meta_key_def split: option.splits)

lemma mark_synced_key: "ob_key (KService (mark_synced (v, b))) = ob_key (KService v)"
  by (simp add: mark_synced_def Let_def ob_key_def meta_key_def)

lemma as_service_Some: "as_service ob = Some x \<longleftrightarrow> ob = KService x"
  by (cases ob) (auto simp: as_service_def)

lemma as_stateful_set_Some: "as_stateful_set ob = Some x \<longleftrightarrow> ob = KStatefulSet x"
  by (cases ob) (auto simp: as_stateful_set_def)

lemma as_pod_Some: "as_pod ob = Some x \<longleftrightarrow> ob = KPod x"
  by (cases ob) (auto simp: as_pod_def)

lemma updated_set_key: "updated_stateful_set cd new old = Some (Inr (Some s)) \<Longrightarrow> ob_key (KStatefulSet s) = ob_key (KStatefulSet old)"
  by (auto simp: updated_stateful_set_def Let_def map_sum_def ob_key_def meta_key_def split: if_splits option.splits sum.splits
      dest!: last_applied_key)

context kube_api
begin

lemma leaves_sync_service [footprint_rules]:
  assumes "ob_key (KService (fst svc)) = OKey ServiceKind ns (om_name (sv_meta (fst svc)))"
    and "ob_key (KService (fst svc)) \<noteq> k"
  shows "leaves_any (at_key k) (sync_service K cd ns svc)"
  unfolding sync_service_def
proof (rule leaves_bind [OF leaves_try [OF leaves_found]])
  show "ob_key (KService x) = ob_key (KService (fst svc))" if "as_service ob = Some x"
    "ob_key ob = OKey ServiceKind ns (om_name (sv_meta (fst svc)))" for ob x
    using that assms(1) by (simp add: as_service_Some)
  fix r :: "error + service"
  assume r: "\<forall>x. r = Inr x \<longrightarrow> ob_key (KService x) = ob_key (KService (fst svc))"
  show "leaves_any (at_key k) (case r of
      Inl e \<Rightarrow>
        if is_not_found e
        then bindp (from_sum (set_service_last_applied cd (fst svc))) (\<lambda>s.
               andthen (api (kc_create K (KService (mark_synced (s, snd svc))))) (ret ()))
        else throw (Failure ''syncService: failed to get svc'')
    | Inr old \<Rightarrow>
        bindp (from_sum (service_equal cd (fst svc) old)) (\<lambda>equal.
          if equal then ret ()
          else bindp (from_sum (set_service_last_applied cd (old\<lparr>sv_spec := sv_spec (fst svc)\<rparr>))) (\<lambda>s.
                 andthen (api (kc_update K (KService (s\<lparr>sv_spec := (sv_spec s)\<lparr>vs_cluster_ip :=
                     vs_cluster_ip (sv_spec old)\<rparr>\<rparr>)))) (ret ()))))"
    using r assms(2)
    by (auto intro!: footprint_rules leaves_bind [OF leaves_from_sum] simp: mark_synced_key split: sum.split
        dest!: service_last_applied_key) (simp add: ob_key_def meta_key_def)+
qed

lemma leaves_label_pod [footprint_rules]:
  assumes "key \<noteq> k"
  shows "leaves_any (at_key k) (label_pod K key)"
  unfolding label_pod_def
proof (rule leaves_bind [OF leaves_try [OF leaves_found]])
  show "ob_key (KPod x) = key" if "as_pod ob = Some x" "ob_key ob = key" for ob x
    using that by (simp add: as_pod_Some)
qed (use assms in \<open>auto intro!: footprint_rules simp: ob_key_def meta_key_def split: sum.split option.split\<close>)

lemma leaves_update_set [footprint_rules]:
  "ob_key (KStatefulSet old) \<noteq> k \<Longrightarrow> leaves_any (at_key k) (update_stateful_set K cd new old)"
  unfolding update_stateful_set_def
  by (auto intro!: footprint_rules split: option.split sum.split dest: updated_set_key)

lemma pvc_key_kind: "ok_kind k \<noteq> PvcKind \<Longrightarrow> ob_key (KPvc p) \<noteq> k"
  by (auto simp: ob_key_def meta_key_def)

lemma leaves_retrieve_pvcs [footprint_rules]: "leaves_any (at_key k) (retrieve_pvcs K ns ps m)"
proof (induction ps arbitrary: m)
  case (Cons e ps)
  obtain p name where "e = (p, name)" by (cases e)
  then show ?case using Cons by (auto intro!: footprint_rules split: sum.split)
qed (simp add: leaves_basic)

lemma leaves_validate_claims [footprint_rules]: "leaves_any (at_key k) (validate_claims_storage_update K xs ys False)"
  unfolding validate_claims_storage_update_def ensure_claim_supports_expansion_def
  by (auto intro!: footprint_rules split: option.split storage_comparison.split)

lemma leaves_volume_expansion [footprint_rules]:
  "ok_kind k \<noteq> PvcKind \<Longrightarrow> leaves_any (at_key k) (handle_volume_expansion K new old False)"
  unfolding handle_volume_expansion_def resize_pvcs_def retrieve_actual_pvcs_def resize_pvc_def
  by (auto intro!: footprint_rules split: option.split simp: pvc_key_kind)

end

section \<open>Programs of the manager\<close>

definition tame ::
  "('w \<Rightarrow> 'v) \<Rightarrow> (member_context \<Rightarrow> daisy_installation \<Rightarrow> bool) \<Rightarrow> ('w, 'd, 'a) mprog
   \<Rightarrow> ('a \<Rightarrow> member_context \<Rightarrow> daisy_installation \<Rightarrow> bool) \<Rightarrow> bool" where
  "tame X R m Q \<longleftrightarrow> (\<forall>s out s'. R (ms_ctx s) (ms_di s) \<longrightarrow> m s = (out, s') \<longrightarrow>
     X (ms_world s') = X (ms_world s) \<and> (\<forall>x. out = Done x \<longrightarrow> Q x (ms_ctx s') (ms_di s')))"

abbreviation tame_to where
  "tame_to X R m R' \<equiv> tame X R m (\<lambda>_. R')"

lemma tame_bind:
  assumes "tame X R m Q" "\<And>x. tame X (Q x) (f x) Q'"
  shows "tame X R (bindp m f) Q'"
  unfolding tame_def
proof (intro allI impI)
  fix s out s' assume R: "R (ms_ctx s) (ms_di s)" and run: "bindp m f s = (out, s')"
  obtain o1 s1 where m: "m s = (o1, s1)" by fastforce
  have first: "X (ms_world s1) = X (ms_world s)" "\<And>x. o1 = Done x \<Longrightarrow> Q x (ms_ctx s1) (ms_di s1)"
    using assms(1) R m by (auto simp: tame_def)
  show "X (ms_world s') = X (ms_world s) \<and> (\<forall>x. out = Done x \<longrightarrow> Q' x (ms_ctx s') (ms_di s'))"
  proof (cases o1)
    case (Done x)
    then have "f x s1 = (out, s')" using run m by (simp add: bindp_def)
    then show ?thesis using assms(2) [of x] first(2) [OF Done] first(1) by (simp add: tame_def)
  qed (use run m first(1) in \<open>auto simp: bindp_def\<close>)
qed

lemma tame_weaken:
  "tame X R' m Q' \<Longrightarrow> (\<And>ctx di. R ctx di \<Longrightarrow> R' ctx di) \<Longrightarrow> (\<And>x ctx di. Q' x ctx di \<Longrightarrow> Q x ctx di) \<Longrightarrow> tame X R m Q"
  unfolding tame_def by blast

lemma tame_basic [footprint_rules]:
  "tame_to X R (ret x) R" "tame X R (throw e) Q" "tame X R (panic msg) Q"
  by (simp_all add: tame_def prog_defs)

lemma tame_then [footprint_rules]: "tame_to X R m R \<Longrightarrow> (\<And>x. tame X R (f x) Q) \<Longrightarrow> tame X R (bindp m f) Q"
  by (rule tame_bind)

lemma tame_if [footprint_rules]: "(b \<Longrightarrow> tame X R m Q) \<Longrightarrow> (\<not> b \<Longrightarrow> tame X R m' Q) \<Longrightarrow> tame X R (if b then m else m') Q"
  by simp

lemma tame_each [footprint_rules]: "(\<And>x. x \<in> set xs \<Longrightarrow> tame_to X R (f x) R) \<Longrightarrow> tame_to X R (each f xs) R"
  by (induction xs) (auto intro!: footprint_rules)

lemma tame_on_world: "leaves X m V \<Longrightarrow> tame X R (on_world m) (\<lambda>x ctx di. V x \<and> R ctx di)"
  by (fastforce simp: leaves_def tame_def on_world_def split: prod.splits)

lemma tame_world [footprint_rules]: "leaves_any X m \<Longrightarrow> tame_to X R (on_world m) R"
  by (drule tame_on_world) (auto elim: tame_weaken)

lemma tame_try_world [footprint_rules]: "leaves_any X m \<Longrightarrow> tame_to X R (try_prog (on_world m)) R"
  unfolding on_world_commutes by (auto intro: footprint_rules)

lemma tame_try_on_world: "leaves X m V \<Longrightarrow> tame X R (try_prog (on_world m)) (\<lambda>r ctx di. (\<forall>x. r = Inr x \<longrightarrow> V x) \<and> R ctx di)"
  unfolding on_world_commutes by (rule tame_on_world) (rule leaves_try)

lemma tame_try: "tame X R m Q \<Longrightarrow> tame X R (try_prog m) (\<lambda>r ctx di. \<forall>x. r = Inr x \<longrightarrow> Q x ctx di)"
  by (fastforce simp: tame_def try_prog_def split: prod.splits outcome.splits)

lemma tame_from_sum: "tame X R (from_sum r) (\<lambda>x ctx di. r = Inr x \<and> R ctx di)"
  by (auto simp: from_sum_def tame_def prog_defs split: sum.split)

lemma tame_on_db [footprint_rules]: "tame_to X R (on_db h) R"
  by (auto simp: tame_def on_db_def split: prod.splits)

lemma tame_set_ctx: "(\<And>ctx di. R ctx di \<Longrightarrow> R' (f ctx) di) \<Longrightarrow> tame_to X R (set_ctx f) R'"
  by (auto simp: tame_def set_ctx_def modify_def)

lemma tame_set_di: "(\<And>ctx di. R ctx di \<Longrightarrow> R' ctx (f di)) \<Longrightarrow> tame_to X R (set_di f) R'"
  by (auto simp: tame_def set_di_def modify_def)

lemma tame_on_status: "(\<And>ctx di. R ctx di \<Longrightarrow> R' ctx (di\<lparr>di_status := f (di_status di)\<rparr>)) \<Longrightarrow> tame_to X R (on_status f) R'"
  unfolding on_status_def by (rule tame_set_di)

lemma tame_write_status:
  "(\<And>ctx di st. R ctx di \<Longrightarrow> f (di_status di) = Some st \<Longrightarrow> R' ctx (di\<lparr>di_status := st\<rparr>)) \<Longrightarrow> tame_to X R (write_status f) R'"
  by (auto simp: tame_def write_status_def modify_or_panic_def split: option.splits)

lemma tame_read:
  assumes "\<And>s. R (ms_ctx s) (ms_di s) \<Longrightarrow> tame X (\<lambda>ctx di. R ctx di \<and> ctx = ms_ctx s \<and> di = ms_di s) (f s) Q"
  shows "tame X R (bindp get_state f) Q"
  unfolding tame_def
proof (intro allI impI)
  fix s out s' assume "R (ms_ctx s) (ms_di s)" "bindp get_state f s = (out, s')"
  then show "X (ms_world s') = X (ms_world s) \<and> (\<forall>x. out = Done x \<longrightarrow> Q x (ms_ctx s') (ms_di s'))"
    using assms [of s] by (simp add: bindp_def get_state_def tame_def)
qed

lemma tame_gets:
  assumes "\<And>s. R (ms_ctx s) (ms_di s) \<Longrightarrow> tame X (\<lambda>ctx di. R ctx di \<and> ctx = ms_ctx s \<and> di = ms_di s) (f (g s)) Q"
  shows "tame X R (bindp (gets g) f) Q"
  unfolding tame_def
proof (intro allI impI)
  fix s out s' assume "R (ms_ctx s) (ms_di s)" "bindp (gets g) f s = (out, s')"
  then show "X (ms_world s') = X (ms_world s) \<and> (\<forall>x. out = Done x \<longrightarrow> Q x (ms_ctx s') (ms_di s'))"
    using assms [of s] by (simp add: bindp_def gets_def tame_def)
qed

lemma tame_run: "tame X R m Q \<Longrightarrow> m s = (out, s') \<Longrightarrow> R (ms_ctx s) (ms_di s) \<Longrightarrow> X (ms_world s') = X (ms_world s)"
  by (simp add: tame_def)

lemma tame_never: "(\<And>ctx di. \<not> R ctx di) \<Longrightarrow> tame X R m Q"
  by (simp add: tame_def)

text \<open>What stays the same of the installation and the context during the walk.\<close>

definition on_path ::
  "daisy_installation \<Rightarrow> member_context \<Rightarrow> (member_context \<Rightarrow> bool) \<Rightarrow> member_context \<Rightarrow> daisy_installation \<Rightarrow> bool" where
  "on_path d base P ctx di \<longleftrightarrow> ob_key (KInstallation di) = ob_key (KInstallation d)
     \<and> is_prev_spec (di_status di) = is_prev_spec (di_status d) \<and> run_context base ctx \<and> P ctx"

abbreviation in_cluster_path where
  "in_cluster_path d base c \<equiv> on_path d base (\<lambda>ctx. mc_cur_cluster ctx = c)"

abbreviation in_shard_path where
  "in_shard_path d base c sh \<equiv> on_path d base (\<lambda>ctx. mc_cur_cluster ctx = c \<and> mc_cur_shard ctx = sh)"

abbreviation at_replica where
  "at_replica d base x \<equiv> on_path d base (\<lambda>ctx. ctx = x)"

abbreviation pair_of where
  "pair_of base c sh r \<equiv> (base\<lparr>mc_cur_cluster := c, mc_cur_shard := sh, mc_cur_replica := rp_name r\<rparr>, r)"

lemma path_status: "on_path d base P ctx di \<Longrightarrow> is_prev_spec st = is_prev_spec (di_status di) \<Longrightarrow>
    on_path d base P ctx (di\<lparr>di_status := st\<rparr>)"
  by (simp add: on_path_def ob_key_def)

text \<open>The writes into the nested maps leave the specification applied last alone.\<close>

lemma record_replica_prev: "record_replica ctx now s a ready st = Some st' \<Longrightarrow> is_prev_spec st' = is_prev_spec st"
  by (auto simp: record_replica_def Let_def count_action_def dest!: put_status_only_clusters(3)
      split: prod.splits if_splits sync_action.splits)

lemma make_replicas_prev: "make_replicas ctx st = Some st' \<Longrightarrow> is_prev_spec st' = is_prev_spec st"
  by (auto simp: make_replicas_def Let_def split: if_splits dest!: put_status_only_clusters(2))

lemma record_shard_prev: "record_shard c sh st = Some st' \<Longrightarrow> is_prev_spec st' = is_prev_spec st"
  by (auto simp: record_shard_def Let_def dest!: put_status_only_clusters(1))

lemma forget_prev: "forget_replica_status ctx r st = Some st' \<Longrightarrow> is_prev_spec st' = is_prev_spec st"
  by (auto simp: forget_replica_status_def Let_def dest!: put_status_only_clusters(2))

lemma make_cluster_prev: "is_prev_spec (make_cluster_status c st) = is_prev_spec st"
  by (simp add: make_cluster_status_def Let_def)

lemma set_replica_prev: "is_prev_spec (set_replica_status c sh r x st) = is_prev_spec st"
  by (auto simp: set_replica_status_def Let_def split: option.split dest: put_status_only_clusters)

lemmas kept_prev = record_replica_prev make_replicas_prev record_shard_prev forget_prev make_cluster_prev set_replica_prev

text \<open>Every key a replica's synchronization or removal writes to.\<close>

definition replica_footprint :: "member_context \<times> replica \<Rightarrow> okey list" where
  "replica_footprint p = OKey PodKind (mc_namespace (fst p)) (rp_name (snd p) @ ''-0'') # replica_keys (fst p) (snd p)"

locale kube_echo = kube_api K objs for K :: "'w kube" and objs :: "'w \<Rightarrow> okey \<Rightarrow> kobject option" +
  assumes status_echo: "kc_update_status K (KInstallation d) w = (Inr ob, w') \<Longrightarrow>
    \<exists>d'. ob = KInstallation d' \<and> di_status d' = di_status d"
begin

lemma tame_update_status:
  fixes D :: "('w, 'd) deps"
  assumes D: "dp_kube D = K" and k: "ob_key (KInstallation d) \<noteq> k"
    and R: "\<And>ctx di. R ctx di \<Longrightarrow> ob_key (KInstallation di) = ob_key (KInstallation d)"
    and answered: "\<And>ctx di di'. R ctx di \<Longrightarrow> ob_key (KInstallation di') = ob_key (KInstallation di) \<Longrightarrow>
      di_status di' = di_status di \<Longrightarrow> R ctx di'"
  shows "tame_to (at_key k) R (update_installation_status D t) R"
  unfolding update_installation_status_def D
proof (rule tame_gets)
  fix s :: "('w, 'd) mstate"
  let ?d = "ms_di s"
  assume now: "R (ms_ctx s) ?d"
  let ?R = "\<lambda>ctx di. R ctx di \<and> ctx = ms_ctx s \<and> di = ?d"
  have "leaves (at_key k) (api (kc_update_status K (KInstallation ?d)))
      (\<lambda>ob. \<exists>d'. ob = KInstallation d' \<and> di_status d' = di_status ?d \<and> ob_key (KInstallation d') = ob_key (KInstallation ?d))"
  proof (rule leaves_api)
    fix w r w' assume c: "kc_update_status K (KInstallation ?d) w = (r, w')"
    have "at_key k w' = at_key k w" using status_kept [OF c] k R [OF now] by simp
    moreover have "\<exists>d'. ob = KInstallation d' \<and> di_status d' = di_status ?d \<and> ob_key (KInstallation d') = ob_key (KInstallation ?d)"
      if "r = Inr ob" for ob
      using status_echo [OF c [unfolded that]] status_ok [OF c [unfolded that]] by auto
    ultimately show "at_key k w' = at_key k w \<and> (\<forall>ob. r = Inr ob \<longrightarrow> (\<exists>d'. ob = KInstallation d'
        \<and> di_status d' = di_status ?d \<and> ob_key (KInstallation d') = ob_key (KInstallation ?d)))" by blast
  qed
  then have send: "tame_to (at_key k) ?R (bindp (on_world (api (kc_update_status K (KInstallation ?d)))) receive_di) R"
    by (rule tame_bind [OF tame_on_world])
      (auto simp: receive_di_def as_installation_def tame_def set_di_def modify_def throw_def intro: answered split: kobject.splits)
  show "tame_to (at_key k) ?R (bindp (try_prog (on_world (decoded as_installation
        (kc_get K (OKey InstallationKind (di_namespace ?d) (di_name ?d)))))) (\<lambda>r. case r of
      Inl e \<Rightarrow> if t then ret () else throw e
    | Inr _ \<Rightarrow> bindp (on_world (api (kc_update_status K (KInstallation ?d)))) receive_di)) R"
  proof (rule tame_then)
    fix r :: "error + daisy_installation"
    show "tame_to (at_key k) ?R (case r of
        Inl e \<Rightarrow> if t then ret () else throw e
      | Inr _ \<Rightarrow> bindp (on_world (api (kc_update_status K (KInstallation ?d)))) receive_di) R"
      using send by (cases r) (auto intro!: tame_if tame_basic(2) intro: tame_weaken [OF tame_basic(1)])
  qed (auto intro!: footprint_rules)
qed

lemma tame_update_di:
  fixes D :: "('w, 'd) deps"
  assumes D: "dp_kube D = K" and k: "ob_key (KInstallation d) \<noteq> k"
  shows "tame_to (at_key k) (\<lambda>ctx di. ob_key (KInstallation di) = ob_key (KInstallation d)) (update_di D)
    (\<lambda>ctx di. ob_key (KInstallation di) = ob_key (KInstallation d))"
  unfolding update_di_def D
proof (rule tame_gets, rule tame_bind [OF tame_on_world [OF leaves_update]])
  fix ob :: kobject and s :: "('w, 'd) mstate"
  assume "ob_key (KInstallation (ms_di s)) = ob_key (KInstallation d)"
  then show "ob_key (KInstallation (ms_di s)) \<noteq> k" using k by simp
  show "tame_to (at_key k) (\<lambda>ctx di. ob_key ob = ob_key (KInstallation (ms_di s)) \<and>
      (ob_key (KInstallation di) = ob_key (KInstallation d)) \<and> ctx = ms_ctx s \<and> di = ms_di s) (receive_di ob)
      (\<lambda>ctx di. ob_key (KInstallation di) = ob_key (KInstallation d))"
    by (auto simp: receive_di_def as_installation_def tame_def set_di_def modify_def throw_def split: kobject.splits)
qed

text \<open>One replica: every key it writes to belongs to its footprint.\<close>

lemma tame_sync_status [footprint_rules]:
  "tame_to (at_key k) (at_replica d base x) (sync_replica_status D s a) (at_replica d base x)"
  unfolding sync_replica_status_def
  by (rule tame_read)
    (auto intro!: tame_basic tame_write_status path_status record_replica_prev split: option.split)

lemma tame_pod_label:
  assumes "dp_kube D = K" "ms_ctx s = x" "k \<notin> set (replica_footprint (x, r))"
  shows "tame_to (at_key k) R (sync_pod_label D r s) R"
proof -
  have "OKey PodKind (mc_namespace x) (rp_name r @ ''-0'') \<noteq> k" using assms(3) by (auto simp: replica_footprint_def)
  then show ?thesis
    unfolding sync_pod_label_def assms(1,2) by (auto intro!: footprint_rules simp: Let_def split: option.split)
qed

lemma tame_create_set:
  assumes D: "dp_kube D = K" and key: "ob_key (KStatefulSet new) \<noteq> k"
  shows "tame_to (at_key k) (at_replica d base x) (create_stateful_set D new) (at_replica d base x)"
  unfolding create_stateful_set_def D
proof (rule tame_bind [OF tame_from_sum])
  fix y
  let ?R = "\<lambda>ctx di. set_stateful_set_last_applied (dp_codec D) new = Inr y \<and> at_replica d base x ctx di"
  have "tame (at_key k) (\<lambda>ctx di. ob_key (KStatefulSet y) \<noteq> k \<and> at_replica d base x ctx di)
      (bindp (on_world (decoded as_stateful_set (kc_create K (KStatefulSet y)))) (\<lambda>created.
        andthen (sync_replica_status D created ActionAdd) (throw (RequeueError ''waiting for replica running''))))
      (\<lambda>_. at_replica d base x)"
  proof (cases "ob_key (KStatefulSet y) = k")
    case False
    then have "leaves_any (at_key k) (decoded as_stateful_set (kc_create K (KStatefulSet y)))"
      by (intro leaves_decoded [OF leaves_create_any]) auto
    then show ?thesis
      by (intro tame_weaken [OF tame_then [OF tame_world tame_then], where R' = "at_replica d base x"]) (auto intro!: footprint_rules)
  qed (simp add: tame_def)
  then show "tame (at_key k) ?R (bindp (on_world (decoded as_stateful_set (kc_create K (KStatefulSet y)))) (\<lambda>created.
      andthen (sync_replica_status D created ActionAdd) (throw (RequeueError ''waiting for replica running''))))
      (\<lambda>_. at_replica d base x)"
    by (rule tame_weaken) (use key in \<open>auto dest: last_applied_key\<close>)
qed

lemma tame_refresh_set:
  assumes D: "dp_kube D = K" and "ok_kind k \<noteq> PvcKind" "ob_key (KStatefulSet old) \<noteq> k"
  shows "tame_to (at_key k) (at_replica d base x) (refresh_stateful_set D new old) (at_replica d base x)"
  using assms unfolding refresh_stateful_set_def D by (auto intro!: footprint_rules)

lemma tame_stateful_set:
  fixes D :: "('w, 'd) deps"
  assumes D: "dp_kube D = K" and kind: "ok_kind k \<noteq> PvcKind" and k: "k \<notin> set (replica_footprint (x, r))"
  shows "tame_to (at_key k) (at_replica d base x) (sync_stateful_set D r) (at_replica d base x)"
  unfolding sync_stateful_set_def D
proof (rule tame_read)
  fix s :: "('w, 'd) mstate" assume "at_replica d base x (ms_ctx s) (ms_di s)"
  then have ctx: "ms_ctx s = x" by (simp add: on_path_def)
  have key: "set_key x r \<noteq> k" using k by (auto simp: replica_footprint_def replica_keys_def)
  let ?new = "get_stateful_set_for_replica x (ms_di s) r"
  have "leaves (at_key k) (decoded as_stateful_set (kc_get K (set_key x r))) (\<lambda>old. ob_key (KStatefulSet old) = set_key x r)"
    by (rule leaves_found) (simp add: as_stateful_set_Some)
  note look = tame_try_on_world [OF this]
  have decide: "tame (at_key k) (\<lambda>ctx di. (\<forall>old. res = Inr old \<longrightarrow> ob_key (KStatefulSet old) = set_key x r) \<and> at_replica d base x ctx di)
      (case res of
         Inl e \<Rightarrow>
           if \<not> is_not_found e then throw (Failure ''syncStatefulSet: failed to get sts'')
           else if sp_paused (di_spec (ms_di s)) then ret ()
           else andthen (sync_pod_label D r s) (create_stateful_set D ?new)
       | Inr old \<Rightarrow>
           if sp_paused (di_spec (ms_di s)) then ret ()
           else andthen (sync_pod_label D r s) (refresh_stateful_set D ?new old))
      (\<lambda>_. at_replica d base x)" for res
  proof (cases "\<forall>old. res = Inr old \<longrightarrow> ob_key (KStatefulSet old) = set_key x r")
    case True
    then show ?thesis
      by (auto intro!: footprint_rules tame_create_set [OF D] tame_refresh_set [OF D kind] tame_pod_label [OF D ctx k]
          simp: set_key_of_new key not_sym [OF key] split: sum.split)
  next
    case False
    then show ?thesis by (intro tame_never) blast
  qed
  show "tame (at_key k) (\<lambda>ctx di. at_replica d base x ctx di \<and> ctx = ms_ctx s \<and> di = ms_di s)
      (bindp (try_prog (on_world (decoded as_stateful_set (kc_get K (set_key (ms_ctx s) r))))) (\<lambda>res. case res of
         Inl e \<Rightarrow>
           if \<not> is_not_found e then throw (Failure ''syncStatefulSet: failed to get sts'')
           else if sp_paused (di_spec (ms_di s)) then ret ()
           else andthen (sync_pod_label D r s) (create_stateful_set D (get_stateful_set_for_replica (ms_ctx s) (ms_di s) r))
       | Inr old \<Rightarrow>
           if sp_paused (di_spec (ms_di s)) then ret ()
           else andthen (sync_pod_label D r s) (refresh_stateful_set D (get_stateful_set_for_replica (ms_ctx s) (ms_di s) r) old)))
      (\<lambda>_. at_replica d base x)"
    unfolding ctx by (rule tame_weaken [OF tame_bind [OF look decide]]) auto
qed

lemma tame_read_path:
  fixes f :: "('w, 'd) mstate \<Rightarrow> ('w, 'd, 'a) mprog"
  assumes "\<And>s :: ('w, 'd) mstate. at_replica d base x (ms_ctx s) (ms_di s) \<Longrightarrow> ms_ctx s = x \<Longrightarrow>
    tame X (at_replica d base x) (f s) Q"
  shows "tame X (at_replica d base x) (bindp get_state f) Q"
  by (rule tame_read, rule tame_weaken [OF assms]) (auto simp: on_path_def)

lemma tame_replica_service:
  assumes "dp_kube D = K" "k \<notin> set (replica_footprint (x, r))"
  shows "tame_to (at_key k) (at_replica d base x) (sync_service_for_replica D r) (at_replica d base x)"
  unfolding sync_service_for_replica_def assms(1)
  by (rule tame_read_path)
    (use assms(2) in \<open>auto intro!: footprint_rules simp: get_new_replica_service_def Let_def ob_key_def meta_key_def
      create_stateful_set_service_name_def replica_footprint_def replica_keys_def\<close>)

lemma tame_tables:
  "tame_to (at_key k) (at_replica d base x) (sync_tables D r) (at_replica d base x)"
  unfolding sync_tables_def Let_def
  by (rule tame_read_path)
    (auto intro!: footprint_rules tame_on_status path_status split: option.split simp: set_replica_prev)

lemma tame_enter_replica:
  "tame_to X (in_shard_path d base c sh) (set_ctx (\<lambda>c. c\<lparr>mc_cur_replica := rp_name r\<rparr>))
    (at_replica d base (fst (pair_of base c sh r)))"
proof (rule tame_set_ctx)
  fix ctx di assume R: "in_shard_path d base c sh ctx di"
  then have "ctx\<lparr>mc_cur_replica := rp_name r\<rparr> = fst (pair_of base c sh r)"
    by (cases ctx; cases base; simp add: on_path_def run_context_def)
  then show "at_replica d base (fst (pair_of base c sh r)) (ctx\<lparr>mc_cur_replica := rp_name r\<rparr>) di"
    using R by (simp add: on_path_def run_context_def)
qed

lemma replica_in_shard: "at_replica d base (fst (pair_of base c sh r)) ctx di \<Longrightarrow> in_shard_path d base c sh ctx di"
  by (auto simp: on_path_def)

lemma tame_at_replica:
  fixes f :: "('w, 'd) mstate \<Rightarrow> ('w, 'd, unit) mprog"
  assumes "\<And>s :: ('w, 'd) mstate. ms_ctx s = fst (pair_of base c sh r) \<Longrightarrow>
    tame_to X (at_replica d base (fst (pair_of base c sh r))) (f s) (at_replica d base (fst (pair_of base c sh r)))"
  shows "tame_to X (in_shard_path d base c sh) (andthen (set_ctx (\<lambda>c. c\<lparr>mc_cur_replica := rp_name r\<rparr>)) (bindp get_state f))
    (in_shard_path d base c sh)"
proof (rule tame_bind [OF tame_enter_replica])
  show "tame_to X (at_replica d base (fst (pair_of base c sh r))) (bindp get_state f) (in_shard_path d base c sh)"
    by (rule tame_weaken [OF tame_read_path [OF assms]]) (auto intro: replica_in_shard)
qed

lemma tame_sync_replica:
  fixes D :: "('w, 'd) deps"
  assumes D: "dp_kube D = K" and kind: "ok_kind k \<noteq> PvcKind" and k: "k \<notin> set (replica_footprint (pair_of base c sh r))"
  shows "tame_to (at_key k) (in_shard_path d base c sh) (sync_replica D r) (in_shard_path d base c sh)"
proof -
  let ?x = "fst (pair_of base c sh r)"
  have key: "config_map_key (get_config_map_replica r s) \<noteq> k" if "ms_ctx s = ?x" for s :: "('w, 'd) mstate"
    using k that by (auto simp: get_config_map_replica_def new_config_map_def config_map_key_def Let_def
        replica_footprint_def replica_keys_def)
  have make: "tame_to (at_key k) (at_replica d base ?x) (write_status (make_replicas ctx)) (at_replica d base ?x)" for ctx
    by (rule tame_write_status) (auto intro: path_status make_replicas_prev)
  show ?thesis
    unfolding sync_replica_def D
  proof (rule tame_at_replica)
    fix s :: "('w, 'd) mstate" assume ctx: "ms_ctx s = ?x"
    show "tame_to (at_key k) (at_replica d base ?x)
      (andthen (write_status (make_replicas (ms_ctx s)))
      (andthen (on_world (sync_config_map K (get_config_map_replica r s) True))
      (andthen (sync_stateful_set D r) (andthen (sync_service_for_replica D r) (sync_tables D r)))))
      (at_replica d base ?x)"
      using k by (intro tame_then [OF make] tame_then [OF tame_world [OF leaves_config_map [OF key [OF ctx]]]]
          tame_then [OF tame_stateful_set [OF D kind]] tame_then [OF tame_replica_service [OF D]] tame_tables) auto
  qed
qed

lemma tame_delete_set:
  assumes D: "dp_kube D = K" and "set_key x r \<noteq> k"
  shows "tame_to (at_key k) (at_replica d base x) (delete_stateful_set_for_replica D r) (at_replica d base x)"
  unfolding delete_stateful_set_for_replica_def D
  by (rule tame_read_path) (use assms(2) in \<open>auto intro!: footprint_rules split: sum.split\<close>)

lemma tame_delete_pvc:
  assumes D: "dp_kube D = K" and "ok_kind k \<noteq> PvcKind"
  shows "tame_to (at_key k) (at_replica d base x) (delete_pvc D r) (at_replica d base x)"
  unfolding delete_pvc_def D
  by (rule tame_read_path) (use assms(2) in \<open>auto intro!: footprint_rules leaves_list simp: meta_key_def\<close>)

lemma tame_delete_tables:
  "tame_to (at_key k) (at_replica d base x) (delete_tables D r) (at_replica d base x)"
  unfolding delete_tables_def by (rule tame_read_path) (auto intro!: footprint_rules)

lemma tame_delete_service:
  assumes D: "dp_kube D = K" and "OKey ServiceKind (mc_namespace x) (rp_name r) \<noteq> k"
  shows "tame_to (at_key k) (at_replica d base x) (delete_service_for_replica D r) (at_replica d base x)"
  unfolding delete_service_for_replica_def D
  by (rule tame_read_path) (use assms(2) in \<open>auto intro!: footprint_rules\<close>)

lemma tame_delete_replica:
  fixes D :: "('w, 'd) deps"
  assumes D: "dp_kube D = K" and kind: "ok_kind k \<noteq> PvcKind" and k: "k \<notin> set (replica_keys (fst (pair_of base c sh r)) r)"
    and own: "ob_key (KInstallation d) \<noteq> k"
  shows "tame_to (at_key k) (in_shard_path d base c sh) (delete_replica D r) (in_shard_path d base c sh)"
proof -
  let ?x = "fst (pair_of base c sh r)"
  have keys: "set_key ?x r \<noteq> k" "OKey ServiceKind (mc_namespace ?x) (rp_name r) \<noteq> k"
    "OKey ConfigMapKind (mc_namespace ?x) (create_config_map_pod_name ?x) \<noteq> k"
    using k by (auto simp: replica_keys_def)
  have count: "tame_to (at_key k) (at_replica d base ?x)
      (on_status (\<lambda>st. st\<lparr>is_deleted_replicas_count := is_deleted_replicas_count st + 1\<rparr>)) (at_replica d base ?x)"
    by (rule tame_on_status) (auto intro: path_status)
  have forget: "tame_to (at_key k) (at_replica d base ?x) (write_status (forget_replica_status ctx r)) (at_replica d base ?x)" for ctx
    by (rule tame_write_status) (auto intro: path_status forget_prev)
  have report: "tame_to (at_key k) (at_replica d base ?x) (update_installation_status D True) (at_replica d base ?x)"
    by (rule tame_update_status [OF D own]) (auto simp: on_path_def)
  have remove: "tame_to (at_key k) (at_replica d base ?x)
      (andthen (delete_tables D r)
      (andthen (delete_stateful_set_for_replica D r)
      (andthen (on_status (\<lambda>st. st\<lparr>is_deleted_replicas_count := is_deleted_replicas_count st + 1\<rparr>))
      (andthen (write_status (forget_replica_status ?x r))
      (andthen (if b then delete_pvc D r else ret ())
      (andthen (on_world (delete_config_map K (OKey ConfigMapKind (mc_namespace ?x) (create_config_map_pod_name ?x))))
      (andthen (delete_service_for_replica D r)
        (update_installation_status D True)))))))) (at_replica d base ?x)" for b
    by (intro tame_then [OF tame_delete_tables] tame_then [OF tame_delete_set [OF D keys(1)]] tame_then [OF count]
        tame_then [OF forget] tame_then [OF tame_if [OF tame_delete_pvc [OF D kind] tame_basic(1)]]
        tame_then [OF tame_world [OF leaves_delete_config_map [OF keys(3)]]] tame_then [OF tame_delete_service [OF D keys(2)]] report)
  show ?thesis
    unfolding delete_replica_def D
  proof (rule tame_at_replica)
    fix s :: "('w, 'd) mstate" assume ctx: "ms_ctx s = ?x"
    show "tame_to (at_key k) (at_replica d base ?x)
      (bindp (try_prog (on_world (decoded as_stateful_set (kc_get K (set_key (ms_ctx s) r))))) (\<lambda>res. case res of
          Inl e \<Rightarrow> if is_not_found e then ret () else throw e
        | Inr _ \<Rightarrow>
            andthen (delete_tables D r)
            (andthen (delete_stateful_set_for_replica D r)
            (andthen (on_status (\<lambda>st. st\<lparr>is_deleted_replicas_count := is_deleted_replicas_count st + 1\<rparr>))
            (andthen (write_status (forget_replica_status (ms_ctx s) r))
            (andthen (if sp_pv_reclaim_policy (di_spec (ms_di s)) = ''Delete'' then delete_pvc D r else ret ())
            (andthen (on_world (delete_config_map K
                (OKey ConfigMapKind (mc_namespace (ms_ctx s)) (create_config_map_pod_name (ms_ctx s)))))
            (andthen (delete_service_for_replica D r)
              (update_installation_status D True)))))))))
      (at_replica d base ?x)"
      unfolding ctx
    proof (rule tame_then)
      fix res :: "error + stateful_set"
      show "tame_to (at_key k) (at_replica d base ?x) (case res of
          Inl e \<Rightarrow> if is_not_found e then ret () else throw e
        | Inr _ \<Rightarrow>
            andthen (delete_tables D r)
            (andthen (delete_stateful_set_for_replica D r)
            (andthen (on_status (\<lambda>st. st\<lparr>is_deleted_replicas_count := is_deleted_replicas_count st + 1\<rparr>))
            (andthen (write_status (forget_replica_status ?x r))
            (andthen (if sp_pv_reclaim_policy (di_spec (ms_di s)) = ''Delete'' then delete_pvc D r else ret ())
            (andthen (on_world (delete_config_map K (OKey ConfigMapKind (mc_namespace ?x) (create_config_map_pod_name ?x))))
            (andthen (delete_service_for_replica D r)
              (update_installation_status D True)))))))) (at_replica d base ?x)"
        using remove by (cases res) (simp_all add: tame_basic tame_if)
    qed (auto intro!: footprint_rules)
  qed
qed

end

end
