(* ===== verification/Own_Objects.thy ===== *)
theory Own_Objects
  imports Footprint
begin

text \<open>
  From replicas to whole reconciliations: the footprint of a synchronization and of a deletion, and
  the property that a reconciliation leaves every other object alone.
\<close>

text \<open>
  The replicas a reconciliation works on: those of the specification, and those that have gone from
  a shard of it since the specification applied last.
\<close>

definition shard_pairs :: "member_context \<Rightarrow> daisy_installation \<Rightarrow> string \<Rightarrow> shard \<Rightarrow> (member_context \<times> replica) list" where
  "shard_pairs base d c sh = shard_walk base c sh
     @ map (pair_of base c (sh_name sh)) (extra_replicas (base\<lparr>mc_cur_cluster := c, mc_cur_shard := sh_name sh\<rparr>) sh d)"

definition cluster_pairs :: "member_context \<Rightarrow> daisy_installation \<Rightarrow> string \<times> cluster \<Rightarrow> (member_context \<times> replica) list" where
  "cluster_pairs base d p = concat (map (\<lambda>(_, sh). shard_pairs base d (fst p) sh) (mentries (lo_shards (cl_layout (snd p)))))"

text \<open>The keys a synchronization and a deletion may write to.\<close>

definition sync_footprint :: "normalized_spec \<Rightarrow> daisy_installation \<Rightarrow> okey list" where
  "sync_footprint n d = ob_key (KInstallation d) # installation_keys (sync_context n d) d
     @ concat (map (\<lambda>p. concat (map replica_footprint (cluster_pairs (walk_context n d) d p)))
         (mentries (cf_clusters (sp_configuration (no_spec n)))))"

context kube_echo
begin

lemma tame_sync_shard:
  fixes D :: "('w, 'd) deps"
  assumes D: "dp_kube D = K" and kind: "ok_kind k \<noteq> PvcKind" and own: "ob_key (KInstallation d) \<noteq> k"
    and k: "\<forall>p \<in> set (shard_pairs base d c sh). k \<notin> set (replica_footprint p)"
  shows "tame_to (at_key k) (in_cluster_path d base c) (sync_shard D sh) (in_cluster_path d base c)"
proof -
  let ?in = "in_shard_path d base c (sh_name sh)"
  have enter: "tame_to (at_key k) (in_cluster_path d base c) (set_ctx (\<lambda>c. c\<lparr>mc_cur_shard := sh_name sh\<rparr>)) ?in"
    by (rule tame_set_ctx) (simp add: on_path_def run_context_keeps)
  have mark: "tame_to (at_key k) ?in (write_status (record_shard x sh)) ?in" for x
    by (rule tame_write_status) (auto intro: path_status record_shard_prev)
  have replicas: "tame_to (at_key k) ?in (each (\<lambda>(_, r). sync_replica D r) (mentries (sh_replicas sh))) ?in"
    by (rule tame_each) (use k in \<open>force intro!: tame_sync_replica [OF D kind] simp: shard_pairs_def shard_walk_def\<close>)
  have surplus: "tame_to (at_key k) ?in (bindp get_state (\<lambda>s. each (delete_replica D) (extra_replicas (ms_ctx s) sh (ms_di s)))) ?in"
  proof (rule tame_read)
    fix s :: "('w, 'd) mstate" assume R: "?in (ms_ctx s) (ms_di s)"
    have same: "extra_replicas (ms_ctx s) sh (ms_di s)
        = extra_replicas (base\<lparr>mc_cur_cluster := c, mc_cur_shard := sh_name sh\<rparr>) sh d"
      by (rule extra_replicas_cong) (use R in \<open>auto simp: on_path_def\<close>)
    have "tame_to (at_key k) ?in (each (delete_replica D) (extra_replicas (ms_ctx s) sh (ms_di s))) ?in"
      unfolding same
    proof (rule tame_each)
      fix r assume "r \<in> set (extra_replicas (base\<lparr>mc_cur_cluster := c, mc_cur_shard := sh_name sh\<rparr>) sh d)"
      then have "k \<notin> set (replica_footprint (pair_of base c (sh_name sh) r))" using k by (simp add: shard_pairs_def)
      then have "k \<notin> set (replica_keys (fst (pair_of base c (sh_name sh) r)) r)" by (simp add: replica_footprint_def)
      then show "tame_to (at_key k) ?in (delete_replica D r) ?in" by (rule tame_delete_replica [OF D kind _ own])
    qed
    then show "tame_to (at_key k) (\<lambda>ctx di. ?in ctx di \<and> ctx = ms_ctx s \<and> di = ms_di s)
        (each (delete_replica D) (extra_replicas (ms_ctx s) sh (ms_di s))) ?in"
      by (rule tame_weaken) auto
  qed
  have body: "tame_to (at_key k) ?in (bindp get_state (\<lambda>s. andthen (write_status (record_shard (mc_cur_cluster (ms_ctx s)) sh))
      (andthen (each (\<lambda>(_, r). sync_replica D r) (mentries (sh_replicas sh)))
      (bindp get_state (\<lambda>s1. each (delete_replica D) (extra_replicas (ms_ctx s1) sh (ms_di s1))))))) ?in"
    by (rule tame_read, rule tame_weaken [OF tame_then [OF mark tame_then [OF replicas surplus]]]) auto
  show ?thesis
    unfolding sync_shard_def by (rule tame_weaken [OF tame_bind [OF enter body]]) (auto simp: on_path_def)
qed

lemma tame_sync_cluster:
  fixes D :: "('w, 'd) deps"
  assumes D: "dp_kube D = K" and kind: "ok_kind k \<noteq> PvcKind" and own: "ob_key (KInstallation d) \<noteq> k"
    and k: "\<forall>p \<in> set (cluster_pairs base d (c, cl)). k \<notin> set (replica_footprint p)"
  shows "tame_to (at_key k) (in_cluster_path d base c) (sync_cluster D cl) (in_cluster_path d base c)"
proof -
  have made: "tame_to (at_key k) (in_cluster_path d base c) (on_status (make_cluster_status (cl_name cl))) (in_cluster_path d base c)"
    by (rule tame_on_status) (auto intro: path_status simp: make_cluster_prev)
  have "tame_to (at_key k) (in_cluster_path d base c) (each (\<lambda>(_, sh). sync_shard D sh) (mentries (lo_shards (cl_layout cl))))
      (in_cluster_path d base c)"
    by (rule tame_each) (use k in \<open>force intro!: tame_sync_shard [OF D kind own] simp: cluster_pairs_def\<close>)
  then show ?thesis unfolding sync_cluster_def by (rule tame_then [OF made])
qed

lemma tame_sync_configuration:
  fixes D :: "('w, 'd) deps"
  assumes D: "dp_kube D = K" and kind: "ok_kind k \<noteq> PvcKind" and k: "k \<notin> set (sync_footprint n d)"
  shows "tame_to (at_key k) (on_path d (sync_context n d) (\<lambda>ctx. ctx = sync_context n d)) (sync_configuration D)
    (on_path d (walk_context n d) (\<lambda>_. True))"
proof -
  let ?base = "walk_context n d" and ?clusters = "cf_clusters (sp_configuration (no_spec n))"
  have own: "ob_key (KInstallation d) \<noteq> k" using k by (auto simp: sync_footprint_def)
  have enter: "tame_to (at_key k) (on_path d (sync_context n d) (\<lambda>ctx. ctx = sync_context n d))
      (set_ctx (\<lambda>c. c\<lparr>mc_clusters := ?clusters\<rparr>)) (on_path d ?base (\<lambda>_. True))"
    by (rule tame_set_ctx) (simp add: on_path_def run_context_def walk_context_def sync_context_def name_context_def)
  have each: "tame_to (at_key k) (on_path d ?base (\<lambda>_. True))
      (each (\<lambda>(name, c). andthen (set_ctx (\<lambda>x. x\<lparr>mc_cur_cluster := name\<rparr>)) (sync_cluster D c)) (mentries ?clusters))
      (on_path d ?base (\<lambda>_. True))"
  proof (rule tame_each)
    fix p assume "p \<in> set (mentries ?clusters)"
    moreover obtain name c where p: "p = (name, c)" by fastforce
    ultimately have "\<forall>q \<in> set (cluster_pairs ?base d (name, c)). k \<notin> set (replica_footprint q)"
      using k by (fastforce simp: sync_footprint_def)
    note cluster = tame_sync_cluster [OF D kind own this]
    have "tame_to (at_key k) (on_path d ?base (\<lambda>_. True)) (set_ctx (\<lambda>x. x\<lparr>mc_cur_cluster := name\<rparr>)) (in_cluster_path d ?base name)"
      by (rule tame_set_ctx) (simp add: on_path_def run_context_keeps)
    note entered = tame_bind [OF this cluster]
    show "tame_to (at_key k) (on_path d ?base (\<lambda>_. True))
        (case p of (name, c) \<Rightarrow> andthen (set_ctx (\<lambda>x. x\<lparr>mc_cur_cluster := name\<rparr>)) (sync_cluster D c)) (on_path d ?base (\<lambda>_. True))"
      unfolding p prod.case by (rule tame_weaken [OF entered]) (auto simp: on_path_def)
  qed
  show ?thesis
    unfolding sync_configuration_def
  proof (rule tame_read)
    fix s :: "('w, 'd) mstate"
    assume "on_path d (sync_context n d) (\<lambda>ctx. ctx = sync_context n d) (ms_ctx s) (ms_di s)"
    then have clusters: "cf_clusters (sp_configuration (no_spec (mc_normalized (ms_ctx s)))) = ?clusters"
      by (simp add: on_path_def sync_context_def)
    show "tame_to (at_key k)
        (\<lambda>ctx di. on_path d (sync_context n d) (\<lambda>ctx. ctx = sync_context n d) ctx di \<and> ctx = ms_ctx s \<and> di = ms_di s)
        (let clusters = cf_clusters (sp_configuration (no_spec (mc_normalized (ms_ctx s))))
         in andthen (set_ctx (\<lambda>c. c\<lparr>mc_clusters := clusters\<rparr>))
           (each (\<lambda>(name, c). andthen (set_ctx (\<lambda>x. x\<lparr>mc_cur_cluster := name\<rparr>)) (sync_cluster D c)) (mentries clusters)))
        (on_path d ?base (\<lambda>_. True))"
      unfolding clusters Let_def by (rule tame_weaken [OF tame_bind [OF enter each]]) auto
  qed
qed

text \<open>Under the installation's key everything else is written to fixed keys.\<close>

abbreviation own_key :: "daisy_installation \<Rightarrow> member_context \<Rightarrow> daisy_installation \<Rightarrow> bool" where
  "own_key d ctx di \<equiv> ob_key (KInstallation di) = ob_key (KInstallation d)"

lemma tame_sync_config_maps:
  fixes D :: "('w, 'd) deps"
  assumes D: "dp_kube D = K" and k: "k \<notin> set (sync_footprint n d)" and R: "\<And>ctx di. R ctx di \<Longrightarrow> own_key d ctx di"
  shows "tame_to (at_key k) R (sync_config_maps D u) R"
proof -
  have keys: "config_map_key (get_config_map_common D s) \<noteq> k" "config_map_key (get_config_map_common_users s) \<noteq> k"
    if "R (ms_ctx s) (ms_di s)" for s :: "('w, 'd) mstate"
    using R [OF that] k
    by (auto simp: sync_footprint_def installation_keys_def config_map_key_def get_config_map_common_def Let_def
        get_config_map_common_users_def new_config_map_def ob_key_def meta_key_def sync_context_def config_map_names name_context_def)
  have write_map: "tame_to (at_key k) (\<lambda>ctx di. R ctx di \<and> ctx = c \<and> di = d') (on_world (sync_config_map K cm u) :: ('w, 'd, unit) mprog) R"
    if "config_map_key cm \<noteq> k" for cm c d'
    by (rule tame_weaken [OF tame_world [OF leaves_config_map [OF that]], where R = "\<lambda>ctx di. R ctx di \<and> ctx = c \<and> di = d'"])
      auto
  have users: "tame_to (at_key k) R (bindp (gets get_config_map_common_users) (\<lambda>users. on_world (sync_config_map K users u)) :: ('w, 'd, unit) mprog) R"
    by (rule tame_gets) (rule write_map, rule keys(2))
  show ?thesis
    unfolding sync_config_maps_def D
    by (rule tame_gets, rule tame_bind [OF write_map users], rule keys(1))
qed

lemma tame_sync_normalized:
  fixes D :: "('w, 'd) deps"
  assumes D: "dp_kube D = K" and kind: "ok_kind k \<noteq> PvcKind" and k: "k \<notin> set (sync_footprint n d)"
  shows "tame (at_key k) (\<lambda>_ di. di = d) (sync_normalized D old n) (\<lambda>_ _ _. True)"
proof -
  let ?ctx = "sync_context n d"
  let ?at = "on_path d ?ctx (\<lambda>ctx. ctx = ?ctx)"
  let ?first = "\<lambda>ctx di. ?at ctx di \<and> di_meta di = di_meta d"
  have own: "ob_key (KInstallation d) \<noteq> k" using k by (auto simp: sync_footprint_def)
  have enter: "tame_to (at_key k) (\<lambda>_ di. di = d)
      (modify (\<lambda>s. s\<lparr>ms_for_cfg := (ms_di s)\<lparr>di_spec := no_spec n\<rparr>, ms_ctx := sync_context n (ms_di s)\<rparr>)) ?first"
    by (auto simp: tame_def modify_def on_path_def run_context_def)
  have reset: "tame_to (at_key k) ?first
      (bindp get_state (\<lambda>s. on_status (\<lambda>st. status_reset (fill_status (dp_version D) (ms_ctx s) st)))) ?first"
    by (rule tame_read, rule tame_on_status) (auto intro!: path_status simp: status_reset_def fill_status_def)
  have service: "tame_to (at_key k) ?first (sync_service_for_installation D) ?first"
    unfolding sync_service_for_installation_def D
  proof (rule tame_read)
    fix s :: "('w, 'd) mstate" assume R: "?first (ms_ctx s) (ms_di s)"
    have "OKey ServiceKind (di_namespace d) (create_installation_service_name d) \<noteq> k"
      using k by (auto simp: sync_footprint_def installation_keys_def sync_context_def name_context_def)
    then have "leaves_any (at_key k) (sync_service K (dp_codec D) (mc_namespace (ms_ctx s)) (get_new_installation_service (ms_di s)))"
      using R by (intro leaves_sync_service)
        (auto simp: get_new_installation_service_def Let_def ob_key_def meta_key_def on_path_def sync_context_def
          name_context_def create_installation_service_name_def)
    then show "tame_to (at_key k) (\<lambda>ctx di. ?first ctx di \<and> ctx = ms_ctx s \<and> di = ms_di s)
        (on_world (sync_service K (dp_codec D) (mc_namespace (ms_ctx s)) (get_new_installation_service (ms_di s)))) ?first"
      by (intro tame_weaken [OF tame_world]) auto
  qed
  have maps: "tame_to (at_key k) ?first (sync_config_maps D False) ?first"
    by (rule tame_sync_config_maps [OF D k]) (simp add: on_path_def)
  have walk: "tame_to (at_key k) ?first (sync_configuration D) (own_key d)"
    by (rule tame_weaken [OF tame_sync_configuration [OF D kind k]]) (auto simp: on_path_def)
  have annotate: "tame_to (at_key k) (own_key d) (apply_annotation D n) (own_key d)"
    unfolding apply_annotation_def
    by (rule tame_gets, rule tame_bind [OF tame_from_sum], rule tame_set_di)
      (auto simp: set_installation_last_applied_def set_annotation_def ob_key_def meta_key_def split: option.splits)
  have maps2: "tame_to (at_key k) (own_key d) (sync_config_maps D True) (own_key d)"
    by (rule tame_sync_config_maps [OF D k])
  have decide: "tame_to (at_key k) (own_key d) (bindp get_state (\<lambda>s. on_status (decide_state (ms_di s)))) (own_key d)"
    by (rule tame_read, rule tame_on_status) (simp add: ob_key_def)
  have keep: "tame_to (at_key k) (own_key d) (on_status f) (own_key d)" for f
    by (rule tame_on_status) (simp add: ob_key_def)
  have report: "tame_to (at_key k) (own_key d) (update_installation_status D True) (own_key d)"
    by (rule tame_update_status [OF D own]) auto
  have store: "tame_to (at_key k) (own_key d) (bindp get_state (\<lambda>s.
      if status_unchanged old (di_status (ms_di s)) then ret ()
      else andthen (update_di D) (andthen (on_status (\<lambda>_. di_status (ms_di s))) (update_installation_status D True)))) (own_key d)"
    by (rule tame_read, rule tame_weaken [where R' = "own_key d" and Q' = "\<lambda>_. own_key d"])
      (auto intro!: tame_if tame_basic tame_then [OF tame_update_di [OF D own]] tame_then [OF keep] report)
  have rest: "tame_to (at_key k) (own_key d) (andthen (apply_annotation D n) (andthen (sync_config_maps D True)
     (andthen (bindp get_state (\<lambda>s. on_status (decide_state (ms_di s))))
     (bindp get_state (\<lambda>s.
        if status_unchanged old (di_status (ms_di s)) then ret ()
        else andthen (update_di D) (andthen (on_status (\<lambda>_. di_status (ms_di s))) (update_installation_status D True))))))) (own_key d)"
    by (intro tame_then [OF annotate] tame_then [OF maps2] tame_then [OF decide] store)
  show ?thesis
    unfolding sync_normalized_def
    by (rule tame_weaken [OF tame_bind [OF enter tame_then [OF reset tame_then [OF service tame_then [OF maps
      tame_bind [OF walk rest]]]]]]) auto
qed

end

text \<open>The deletion.\<close>

definition removal_footprint :: "normalized_spec \<Rightarrow> daisy_installation \<Rightarrow> okey list" where
  "removal_footprint n d = ob_key (KInstallation d) # installation_keys (delete_context n d) d
     @ concat (map (\<lambda>p. replica_keys (fst p) (snd p)) (removal_walk n d))"

lemma run_context_names:
  "run_context base ctx \<Longrightarrow> mc_namespace ctx = mc_namespace base"
  "run_context base ctx \<Longrightarrow> mc_installation ctx = mc_installation base"
  by (cases ctx; cases base; simp add: run_context_def)+

lemma mark_shard_prev: "mark_shard_deleted c sh st = Some st' \<Longrightarrow> is_prev_spec st' = is_prev_spec st"
  by (auto simp: mark_shard_deleted_def Let_def split: option.splits dest!: put_status_only_clusters(1))

context kube_echo
begin

lemma tame_delete_shard:
  fixes D :: "('w, 'd) deps"
  assumes D: "dp_kube D = K" and kind: "ok_kind k \<noteq> PvcKind" and own: "ob_key (KInstallation d) \<noteq> k"
    and k: "\<forall>p \<in> set (shard_walk base c sh). k \<notin> set (replica_keys (fst p) (snd p))"
  shows "tame_to (at_key k) (in_cluster_path d base c) (delete_shard D sh) (in_cluster_path d base c)"
proof -
  let ?in = "in_shard_path d base c (sh_name sh)"
  have enter: "tame_to (at_key k) (in_cluster_path d base c) (set_ctx (\<lambda>c. c\<lparr>mc_cur_shard := sh_name sh\<rparr>)) ?in"
    by (rule tame_set_ctx) (simp add: on_path_def run_context_keeps)
  have mark: "tame_to (at_key k) ?in (write_status (mark_shard_deleted x sh)) ?in" for x
    by (rule tame_write_status) (auto intro: path_status mark_shard_prev)
  have replicas: "tame_to (at_key k) ?in (each (\<lambda>(_, r). delete_replica D r) (mentries (sh_replicas sh))) ?in"
    by (rule tame_each) (use k in \<open>force intro!: tame_delete_replica [OF D kind _ own] simp: shard_walk_def\<close>)
  have body: "tame_to (at_key k) ?in (bindp get_state (\<lambda>s. andthen (write_status (mark_shard_deleted (mc_cur_cluster (ms_ctx s)) sh))
      (each (\<lambda>(_, r). delete_replica D r) (mentries (sh_replicas sh))))) ?in"
    by (rule tame_read, rule tame_weaken [OF tame_then [OF mark replicas]]) auto
  show ?thesis
    unfolding delete_shard_def by (rule tame_weaken [OF tame_bind [OF enter body]]) (auto simp: on_path_def)
qed

lemma tame_delete_clusters:
  fixes D :: "('w, 'd) deps"
  assumes D: "dp_kube D = K" and kind: "ok_kind k \<noteq> PvcKind" and own: "ob_key (KInstallation d) \<noteq> k"
    and k: "\<forall>p \<in> set (concat (map (cluster_walk base) cs)). k \<notin> set (replica_keys (fst p) (snd p))"
  shows "tame_to (at_key k) (on_path d base (\<lambda>_. True))
    (each (\<lambda>(name, c). andthen (set_ctx (\<lambda>x. x\<lparr>mc_cur_cluster := name\<rparr>)) (delete_cluster D c)) cs) (on_path d base (\<lambda>_. True))"
proof (rule tame_each)
  fix p assume "p \<in> set cs"
  moreover obtain name c where p: "p = (name, c)" by fastforce
  ultimately have each: "\<forall>q \<in> set (cluster_walk base (name, c)). k \<notin> set (replica_keys (fst q) (snd q))" using k by auto
  have "tame_to (at_key k) (in_cluster_path d base name) (delete_cluster D c) (in_cluster_path d base name)"
    unfolding delete_cluster_def
    by (rule tame_each) (use each in \<open>force intro!: tame_delete_shard [OF D kind own] simp: cluster_walk_def\<close>)
  moreover have "tame_to (at_key k) (on_path d base (\<lambda>_. True)) (set_ctx (\<lambda>x. x\<lparr>mc_cur_cluster := name\<rparr>)) (in_cluster_path d base name)"
    by (rule tame_set_ctx) (simp add: on_path_def run_context_keeps)
  ultimately have entered: "tame_to (at_key k) (on_path d base (\<lambda>_. True))
      (andthen (set_ctx (\<lambda>x. x\<lparr>mc_cur_cluster := name\<rparr>)) (delete_cluster D c)) (in_cluster_path d base name)"
    by (intro tame_bind)
  show "tame_to (at_key k) (on_path d base (\<lambda>_. True))
      (case p of (name, c) \<Rightarrow> andthen (set_ctx (\<lambda>x. x\<lparr>mc_cur_cluster := name\<rparr>)) (delete_cluster D c)) (on_path d base (\<lambda>_. True))"
    unfolding p prod.case by (rule tame_weaken [OF entered]) (auto simp: on_path_def)
qed

lemma tame_delete_normalized:
  fixes D :: "('w, 'd) deps"
  assumes D: "dp_kube D = K" and kind: "ok_kind k \<noteq> PvcKind" and k: "k \<notin> set (removal_footprint n d)"
  shows "tame (at_key k) (\<lambda>_ di. di = d) (delete_normalized D n) (\<lambda>_ _ _. True)"
proof -
  let ?base = "delete_context n d" and ?cs = "mentries (cf_clusters (sp_configuration (no_spec n)))"
  let ?path = "on_path d ?base (\<lambda>_. True)"
  have own: "ob_key (KInstallation d) \<noteq> k" and keys: "k \<notin> set (installation_keys ?base d)"
    and walk: "\<forall>p \<in> set (concat (map (cluster_walk ?base) ?cs)). k \<notin> set (replica_keys (fst p) (snd p))"
    using k by (auto simp: removal_footprint_def removal_walk_def)
  have start: "tame_to (at_key k) (\<lambda>_ di. di = d) (on_status (\<lambda>st. st\<lparr>is_state := status_terminating\<rparr>))
      (\<lambda>_ di. \<exists>st. di = d\<lparr>di_status := st\<rparr> \<and> is_prev_spec st = is_prev_spec (di_status d))"
    by (rule tame_on_status) auto
  have enter: "tame_to (at_key k) (\<lambda>_ di. \<exists>st. di = d\<lparr>di_status := st\<rparr> \<and> is_prev_spec st = is_prev_spec (di_status d))
      (modify (\<lambda>s. s\<lparr>ms_ctx := delete_context n (ms_di s)\<rparr>)) ?path"
    by (auto simp: tame_def modify_def on_path_def run_context_def ob_key_def)
  have maps: "tame_to (at_key k) ?path (bindp get_state (\<lambda>s. try_prog (on_world (delete_config_maps K (ms_ctx s)))) :: ('w, 'd, error + unit) mprog) ?path"
  proof (rule tame_read)
    fix s :: "('w, 'd) mstate" assume R: "?path (ms_ctx s) (ms_di s)"
    have "mc_namespace (ms_ctx s) = mc_namespace ?base" "mc_installation (ms_ctx s) = mc_installation ?base"
      using R run_context_names by (simp_all add: on_path_def)
    then have "OKey ConfigMapKind (mc_namespace (ms_ctx s)) (create_config_map_common_name (ms_ctx s)) \<noteq> k"
      "OKey ConfigMapKind (mc_namespace (ms_ctx s)) (create_config_map_common_users_name (ms_ctx s)) \<noteq> k"
      using keys by (auto simp: installation_keys_def config_map_names)
    then have "leaves_any (at_key k) (delete_config_maps K (ms_ctx s))"
      unfolding delete_config_maps_def by (auto intro!: footprint_rules split: sum.split)
    then show "tame_to (at_key k) (\<lambda>ctx di. ?path ctx di \<and> ctx = ms_ctx s \<and> di = ms_di s)
        (try_prog (on_world (delete_config_maps K (ms_ctx s)))) ?path"
      by (intro tame_weaken [OF tame_try_world, where R = "\<lambda>ctx di. ?path ctx di \<and> ctx = ms_ctx s \<and> di = ms_di s"]) auto
  qed
  have service: "tame_to (at_key k) ?path (delete_service_for_installation D) ?path"
    unfolding delete_service_for_installation_def D
  proof (rule tame_read)
    fix s :: "('w, 'd) mstate" assume R: "?path (ms_ctx s) (ms_di s)"
    then have "mc_namespace (ms_ctx s) = mc_namespace ?base" "di_name (ms_di s) = di_name d"
      using run_context_names by (simp_all add: on_path_def ob_key_def meta_key_def)
    then have "OKey ServiceKind (mc_namespace (ms_ctx s)) (create_installation_service_name (ms_di s)) \<noteq> k"
      using keys by (auto simp: installation_keys_def installation_service_name)
    from tame_world [OF leaves_delete_service [OF this]]
    show "tame_to (at_key k) (\<lambda>ctx di. ?path ctx di \<and> ctx = ms_ctx s \<and> di = ms_di s)
        (on_world (delete_service K (OKey ServiceKind (mc_namespace (ms_ctx s)) (create_installation_service_name (ms_di s))))) ?path"
      by (rule tame_weaken [where R' = ?path and Q' = "\<lambda>_. ?path"]) auto
  qed
  have finish: "tame_to (at_key k) ?path (on_status (\<lambda>st. st\<lparr>is_state := status_completed\<rparr>)) (own_key d)"
    by (rule tame_on_status) (simp add: on_path_def ob_key_def)
  have report: "tame (at_key k) (own_key d) (try_prog (update_installation_status D True)) (\<lambda>r ctx di. \<forall>x. r = Inr x \<longrightarrow> own_key d ctx di)"
    by (rule tame_try [OF tame_update_status [OF D own]]) auto
  have release: "tame_to (at_key k) (own_key d) (andthen (set_di remove_finalizer) (update_di D)) (own_key d)"
    by (rule tame_bind [OF tame_set_di tame_update_di [OF D own]]) simp
  have last: "tame (at_key k) (\<lambda>ctx di. \<forall>x. r = Inr x \<longrightarrow> own_key d ctx di) (case r of
      Inl e \<Rightarrow> throw (if is_conflict e then RequeueError ''Conflict while updating status'' else e)
    | Inr _ \<Rightarrow> andthen (set_di remove_finalizer) (update_di D)) (\<lambda>_. own_key d)" for r :: "error + unit"
    using release by (cases r) (simp_all add: tame_basic)
  show ?thesis
    unfolding delete_normalized_def D
    by (rule tame_weaken [OF tame_bind [OF start tame_bind [OF enter tame_then [OF tame_delete_clusters [OF D kind own walk]
      tame_then [OF maps tame_then [OF service tame_bind [OF finish tame_bind [OF report last]]]]]]]]) auto
qed

end

interpretation echo: kube_echo server_kube store
proof
  show "kc_update_status server_kube (KInstallation d) w = (Inr ob, w') \<Longrightarrow>
      \<exists>d'. ob = KInstallation d' \<and> di_status d' = di_status d" for d w ob w'
    by (auto simp: server_kube_def elim!: guarded_cases split: if_splits)
qed

section \<open>Properties\<close>

definition touched :: "norm_env \<Rightarrow> operator_config \<Rightarrow> daisy_installation \<Rightarrow> okey list" where
  "touched E conf d =
     (if om_deletion_timestamp (di_meta d) \<noteq> None
      then (case fst (get_installation_from_template E conf d True) of None \<Rightarrow> [] | Some n \<Rightarrow> removal_footprint n d)
      else (case fst (get_installation_from_template E conf (add_finalizer d) True) of
          None \<Rightarrow> [] | Some n \<Rightarrow> sync_footprint n (add_finalizer d)))"

lemma installation_touches:
  fixes D :: "('w, 'd) deps" and s :: "('w, 'd) mstate"
  assumes K: "kube_echo (dp_kube D) objs" and run: "sync_installation D s = Some (res, s')"
    and k: "ok_kind k \<noteq> PvcKind" "k \<notin> set (touched (dp_norm D) (ms_conf s) (ms_di s))"
  shows "objs (ms_world s') k = objs (ms_world s) k"
proof (cases "om_deletion_timestamp (di_meta (ms_di s)) = None")
  case False
  show ?thesis
  proof (cases "in_array daisy_finalizer (om_finalizers (di_meta (ms_di s)))")
    case True
    then obtain n conf where n: "get_installation_from_template (dp_norm D) (ms_conf s) (ms_di s) True = (Some n, conf)"
      "delete_normalized D n (s\<lparr>ms_conf := conf\<rparr>) = (res, s')"
      using False run by (auto simp: sync_installation_def delete_installation_def normalize_def split: prod.splits option.splits)
    have "k \<notin> set (removal_footprint n (ms_di s))" using k(2) False n(1) by (simp add: touched_def)
    from tame_run [OF kube_echo.tame_delete_normalized [OF K refl k(1) this] n(2)] show ?thesis by simp
  qed (use False run in \<open>auto simp: sync_installation_def delete_installation_def ret_def\<close>)
next
  case True
  let ?d = "add_finalizer (ms_di s)"
  obtain n conf where n: "get_installation_from_template (dp_norm D) (ms_conf s) ?d True = (Some n, conf)"
    "sync_normalized D (ms_status s) n (s\<lparr>ms_di := ?d, ms_conf := conf\<rparr>) = (res, s')"
    using True run by (auto simp: sync_installation_def normalize_def Let_def split: prod.splits option.splits)
  have "k \<notin> set (sync_footprint n ?d)" using k(2) True n(1) by (simp add: touched_def)
  from tame_run [OF kube_echo.tame_sync_normalized [OF K refl k(1) this] n(2)] show ?thesis by simp
qed

text \<open>
  C7: A reconciliation touches nothing but its own objects, whatever requests fail and however it
  ends, by success, error or panic: an object that is not among the keys \<open>touched\<close> is exactly as
  before. For an installation that is kept these are the installation, its common config maps and
  service, and the stateful set, config map, service and pod of each replica that is specified or
  has gone from a shard still specified; for one that is deleted, the objects of its specified
  replicas. Claims are excepted: they are found by labels. In particular the replicas of shards and
  clusters taken out of the specification are left running for ever.
\<close>

theorem touches_own_objects:
  fixes D :: "('w, 'd) deps" and s :: "('w, 'd) mstate"
  assumes "kube_echo (dp_kube D) objs" "reconcile_installation D ns name s = Some (res, s')"
    and "objs (ms_world s) (OKey InstallationKind ns name) = Some (KInstallation d)"
    and "ok_kind k \<noteq> PvcKind" "k \<notin> set (touched (dp_norm D) (ms_conf s) d)"
  shows "objs (ms_world s') k = objs (ms_world s) k"
proof -
  note K = kube_echo.axioms(1) [OF assms(1)]
  let ?get = "decoded as_installation (kc_get (dp_kube D) (OKey InstallationKind ns name))"
  obtain out w where look: "?get (ms_world s) = (out, w)" by fastforce
  then have w: "objs w k = objs (ms_world s) k" using kube_api.leaves_found_any [OF K] by (fastforce simp: leaves_def)
  show ?thesis
  proof (cases out)
    case (Done cur)
    then have "cur = d"
      using look assms(3)
      by (auto simp: decoded_def bindp_def api_def as_installation_def ret_def throw_def dest!: kube_api.get_ok [OF K]
          split: prod.splits sum.splits option.splits kobject.splits)
    moreover from this obtain r where "sync_installation D (s\<lparr>ms_world := w, ms_di := d\<rparr>) = Some (r, s')"
      using look Done assms(2) by (auto simp: reconcile_installation_def split: option.splits outcome.splits prod.splits)
    ultimately show ?thesis using installation_touches [OF assms(1) _ assms(4)] assms(5) w by fastforce
  qed (use look w assms(2) in \<open>auto simp: reconcile_installation_def\<close>)
qed

text \<open>A run: the specification applied last had a second shard, whose stateful set is still there.\<close>

definition specified :: "int \<Rightarrow> normalized_spec" where
  "specified shards = the (fst (get_installation_from_template pure_env zero_operator_config
     (add_finalizer (zero_installation\<lparr>di_spec := zero_spec\<lparr>sp_configuration := zero_configuration\<lparr>cf_clusters :=
       Some [(''cluster'', zero_cluster\<lparr>cl_name := ''cluster'', cl_layout := zero_layout\<lparr>lo_shards_count := shards\<rparr>\<rparr>)]\<rparr>\<rparr>\<rparr>)) True))"

definition shrunk :: daisy_installation where
  "shrunk = zero_installation\<lparr>di_status := (di_status zero_installation)\<lparr>is_prev_spec := no_spec (specified 2)\<rparr>\<rparr>"

definition left_set :: stateful_set where
  "left_set = (example_set [])\<lparr>set_meta := zero_meta\<lparr>om_name := ''-cluster-1-0''\<rparr>\<rparr>"

definition left_server :: server where
  "left_server = \<lparr>sr_objects = map (\<lambda>ob. (ob_key ob, ob)) [KStatefulSet left_set, KInstallation shrunk], sr_faults = []\<rparr>"

definition left_out :: "okey \<Rightarrow> bool" where
  "left_out k \<longleftrightarrow> k \<in> set (map (\<lambda>p. set_key (fst p) (snd p)) (walk (specified 2) shrunk))
     \<and> k \<notin> set (touched pure_env zero_operator_config shrunk)"

lemma second_set_left_out: "left_out (OKey StatefulSetKind [] ''-cluster-1-0'')"
  by code_simp

theorem touches_own_objects_witness:
  "OKey StatefulSetKind [] ''-cluster-1-0'' \<in> set (map (\<lambda>p. set_key (fst p) (snd p)) (walk (specified 2) shrunk))
   \<and> (\<exists>res s'. reconcile_installation example_deps [] [] (example_state left_server zero_installation) = Some (res, s')
      \<and> store (ms_world s') (OKey StatefulSetKind [] ''-cluster-1-0'') = Some (KStatefulSet left_set))"
proof -
  let ?s = "example_state left_server zero_installation" and ?k = "OKey StatefulSetKind [] ''-cluster-1-0''"
  have there: "store left_server ?k = Some (KStatefulSet left_set)"
    "store left_server (OKey InstallationKind [] []) = Some (KInstallation shrunk)"
    by (simp_all add: store_def left_server_def left_set_def shrunk_def zero_installation_def ob_key_def meta_key_def zero_meta_def)
  have "fst (get_installation_from_template pure_env zero_operator_config (add_finalizer shrunk) True) \<noteq> None"
    by (rule get_installation_returns) (simp add: shrunk_def add_finalizer_def zero_defs)
  then obtain n conf where "get_installation_from_template pure_env zero_operator_config (add_finalizer shrunk) True = (Some n, conf)"
    by (auto simp: prod_eq_iff)
  then have "sync_installation example_deps (?s\<lparr>ms_world := w, ms_di := shrunk\<rparr>) \<noteq> None" for w
    by (simp add: sync_installation_def normalize_def Let_def example_deps_def example_state_def shrunk_def
        zero_installation_def zero_meta_def add_finalizer_def)
  moreover have "kc_get server_kube (OKey InstallationKind [] []) left_server = (Inr (KInstallation shrunk), left_server)"
    using there(2) by (simp add: server_kube_def guarded_def next_fault_def left_server_def)
  ultimately have "reconcile_installation example_deps [] [] ?s \<noteq> None"
    by (simp add: reconcile_installation_def decoded_def bindp_def api_def as_installation_def ret_def
        split: option.splits prod.splits outcome.splits)
  then obtain res s' where "reconcile_installation example_deps [] [] ?s = Some (res, s')" by auto
  moreover from this have "store (ms_world s') ?k = store (ms_world ?s) ?k"
    by (rule touches_own_objects [rotated]) (use second_set_left_out there echo.kube_echo_axioms in
      \<open>auto simp: left_out_def example_state_def example_deps_def\<close>)
  ultimately show ?thesis using second_set_left_out there by (simp add: left_out_def)
qed

end
