(* ===== verification/Test_Helpers.thy ===== *)
theory Test_Helpers
  imports Member_Manager
begin

text \<open>
  The fixtures and checkers of the unit tests, \<open>controllers/daisymanager/test_fixtures.go\<close> and
  \<open>test_util.go\<close>. Parsing of quantities and JSON encoding belong to other packages and are
  parameters; an assertion is a boolean. The layout the tests fill in by hand is a reference for the
  layout the normalizer generates.
\<close>

section \<open>Fixtures\<close>

definition pvcs_to_obj :: "pvc list \<Rightarrow> kobject list" where
  "pvcs_to_obj ps = map KPvc ps"

definition tps_to_obj :: "daisy_installation list \<Rightarrow> kobject list" where
  "tps_to_obj ts = map KTemplate ts"

definition new_use_template :: "string \<Rightarrow> string \<Rightarrow> use_template" where
  "new_use_template name namespace = \<lparr>ut_name = name, ut_namespace = namespace, ut_use_type = ''None''\<rparr>"

definition new_template :: "string \<Rightarrow> string \<Rightarrow> pod_template list \<Rightarrow> volume_claim_template list \<Rightarrow> daisy_installation" where
  "new_template name namespace pods vols =
     zero_installation\<lparr>di_kind := ''DaisyCluster'', di_api_version := ''daisy.com/v1'',
       di_meta := zero_meta\<lparr>om_name := name, om_namespace := namespace, om_uid := ''test-template''\<rparr>,
       di_spec := zero_spec\<lparr>sp_templates := \<lparr>tp_pod_templates = Some pods, tp_volume_claim_templates = Some vols\<rparr>\<rparr>\<rparr>"

definition fixture_container :: "string \<Rightarrow> container" where
  "fixture_container name =
     \<lparr>ct_name = name, ct_image = name @ ''-image:latest'', ct_command = [], ct_args = [], ct_ports = [],
      ct_volume_mounts = [], ct_liveness_probe = None, ct_readiness_probe = None, ct_other = []\<rparr>"

definition new_pod_template :: "string \<Rightarrow> string list \<Rightarrow> pod_template" where
  "new_pod_template name containers =
     \<lparr>pt_name = name, pt_generate_name = [], pt_object_meta = [],
      pt_spec = \<lparr>ps_containers = map fixture_container containers, ps_volumes = [], ps_host_aliases = [], ps_other = []\<rparr>\<rparr>"

text \<open>\<open>quantity\<close> is \<open>resource.MustParse\<close> on the texts of the fixtures.\<close>

definition with_storage_req :: "(string \<Rightarrow> int) \<Rightarrow> pvc \<Rightarrow> string \<Rightarrow> pvc" where
  "with_storage_req quantity claim sz = claim\<lparr>pc_spec := (pc_spec claim)\<lparr>pv_storage := Some (quantity sz)\<rparr>\<rparr>"

definition new_pvc :: "(string \<Rightarrow> int) \<Rightarrow> string \<Rightarrow> string \<Rightarrow> string \<Rightarrow> pvc" where
  "new_pvc quantity name sz sc =
     with_storage_req quantity
       \<lparr>pc_kind = [], pc_api_version = [], pc_meta = zero_meta\<lparr>om_name := name\<rparr>,
        pc_spec = \<lparr>pv_storage = Some (quantity ''1Gi''), pv_storage_class_name = Some sc,
          pv_volume_mode = Some ''Filesystem'', pv_other = ''ReadWriteOnce''\<rparr>\<rparr> sz"

definition new_volume_claim_template :: "(string \<Rightarrow> int) \<Rightarrow> string \<Rightarrow> string \<Rightarrow> string \<Rightarrow> volume_claim_template" where
  "new_volume_claim_template quantity name sz sc = \<lparr>vt_name = name, vt_spec = pc_spec (new_pvc quantity name sz sc)\<rparr>"

definition new_test_templates :: "(string \<Rightarrow> int) \<Rightarrow> daisy_installation list" where
  "new_test_templates quantity =
     [new_template ''tp1'' ''default''
        [new_pod_template ''pod1-tp1'' [''daisy1-v1''], new_pod_template ''pod1-tp2'' [''daisy1-v2'']]
        [new_volume_claim_template quantity ''vol1-data-tp1'' ''5Gi'' ''standard'',
         new_volume_claim_template quantity ''vol1-data-tp2'' ''10Gi'' ''expand'',
         new_volume_claim_template quantity ''vol1-log-tp1'' ''100M'' ''standard'',
         new_volume_claim_template quantity ''vol1-log-tp2'' ''200M'' ''expand''],
      new_template ''tp2'' ''default''
        [new_pod_template ''pod2-tp1'' [''daisy2-v1''], new_pod_template ''pod2-tp2'' [''daisy2-v2'']]
        [new_volume_claim_template quantity ''vol2-data-tp1'' ''5Gi'' ''standard'',
         new_volume_claim_template quantity ''vol2-data-tp2'' ''10Gi'' ''expand'',
         new_volume_claim_template quantity ''vol2-log-tp1'' ''100M'' ''standard'',
         new_volume_claim_template quantity ''vol2-log-tp2'' ''200M'' ''expand'']]"

definition new_test_installation :: "int \<Rightarrow> int \<Rightarrow> daisy_installation" where
  "new_test_installation shard_num replica_num =
     zero_installation\<lparr>di_kind := ''DaisyCluster'', di_api_version := ''daisy.com/v1'',
       di_meta := zero_meta\<lparr>om_name := ''test-installation'', om_namespace := ''default'', om_uid := ''test''\<rparr>,
       di_spec := zero_spec\<lparr>sp_pv_reclaim_policy := ''Delete'',
         sp_configuration := zero_configuration\<lparr>cf_clusters :=
           Some [(''cluster'', zero_cluster\<lparr>cl_name := ''cluster'',
             cl_layout := zero_layout\<lparr>lo_shards_count := shard_num, lo_replicas_count := replica_num\<rparr>\<rparr>)]\<rparr>\<rparr>\<rparr>"

definition on_spec :: "(installation_spec \<Rightarrow> installation_spec) \<Rightarrow> daisy_installation \<Rightarrow> daisy_installation" where
  "on_spec f di = di\<lparr>di_spec := f (di_spec di)\<rparr>"

definition add_templates :: "(string \<Rightarrow> int) \<Rightarrow> daisy_installation \<Rightarrow> daisy_installation" where
  "add_templates quantity = on_spec (\<lambda>sp. sp\<lparr>sp_templates :=
     \<lparr>tp_pod_templates = Some [new_pod_template ''pod-tp01'' [''daisy''], new_pod_template ''pod-tp02'' [''daisy-01'']],
      tp_volume_claim_templates = Some [new_volume_claim_template quantity ''log-tp01'' ''100M'' ''standard'',
        new_volume_claim_template quantity ''data-tp01'' ''5Gi'' ''standard'',
        new_volume_claim_template quantity ''extra'' ''100M'' ''standard'']\<rparr>\<rparr>)"

text \<open>The contents of the three files are carried along as \<open>texts\<close>.\<close>

definition add_settings :: "(string \<Rightarrow> string) \<Rightarrow> daisy_installation \<Rightarrow> daisy_installation" where
  "add_settings texts = on_spec (\<lambda>sp.
     let cf = sp_configuration sp; file = (\<lambda>name. (name, new_scalar_setting (texts name)))
     in sp\<lparr>sp_configuration := cf
       \<lparr>cf_zookeeper := zookeeper_merge_from (cf_zookeeper cf)
          (zero_zookeeper\<lparr>zk_nodes := [\<lparr>zn_host = ''zk01.svc.cluster.local'', zn_port = 2180\<rparr>]\<rparr>),
        cf_users := merge_from (cf_users cf) (Some
          [(''test/password'', new_scalar_setting ''qwerty''),
           (''test/networks/ip'', new_vector_setting [''127.0.0.1/32'', ''192.168.74.1/24'']),
           (''test/profile'', new_scalar_setting ''test_profile''), (''test/quota'', new_scalar_setting ''test_quota'')]),
        cf_profiles := merge_from (cf_profiles cf) (Some
          [(''test_profile/max_memory_usage'', new_scalar_setting ''1000000000''),
           (''test_profile/readonly'', new_scalar_setting ''1''), (''readonly/readonly'', new_scalar_setting ''1'')]),
        cf_quotas := merge_from (cf_quotas cf) (Some [(''test_quota/interval/duration'', new_scalar_setting ''3600'')]),
        cf_settings := merge_from (cf_settings cf) (Some
          [(''compression/case/method'', new_scalar_setting ''zstd''), (''disable_internal_dns_cache'', new_scalar_setting ''1'')]),
        cf_files := merge_from (cf_files cf) (Some
          [file ''COMMON/dict1.xml'', file ''COMMON/source1.csv'', file ''HOST/users_prefixed_1.file''])\<rparr>\<rparr>)"

definition modify_defaults :: "daisy_installation \<Rightarrow> string \<Rightarrow> string \<Rightarrow> string \<Rightarrow> daisy_installation" where
  "modify_defaults di pod_tp data_tp log_tp = on_spec (\<lambda>sp. sp\<lparr>sp_defaults := (sp_defaults sp)\<lparr>df_templates :=
     \<lparr>tn_pod_template = pod_tp, tn_data_volume_claim_template = data_tp, tn_log_volume_claim_template = log_tp\<rparr>\<rparr>\<rparr>) di"

definition add_defaults :: "daisy_installation \<Rightarrow> daisy_installation" where
  "add_defaults di = on_spec (\<lambda>sp. sp\<lparr>sp_defaults := (sp_defaults sp)\<lparr>df_templates :=
     \<lparr>tn_pod_template = ''pod-tp01'', tn_data_volume_claim_template = ''data-tp01'',
      tn_log_volume_claim_template = ''log-tp01''\<rparr>\<rparr>\<rparr>) di"

definition with_use_template :: "daisy_installation \<Rightarrow> use_template list \<Rightarrow> daisy_installation" where
  "with_use_template di tps = on_spec (\<lambda>sp. sp\<lparr>sp_use_templates := sp_use_templates sp @ tps\<rparr>) di"

definition add_use_templates :: "daisy_installation \<Rightarrow> daisy_installation" where
  "add_use_templates = on_spec (\<lambda>sp. sp\<lparr>sp_use_templates := [new_use_template ''tp1'' ''default'', new_use_template ''tp2'' ''default'']\<rparr>)"

text \<open>\<open>marshal\<close> is \<open>json.Marshal\<close> of a list of strings.\<close>

definition with_delete_slots :: "(string list \<Rightarrow> string option) \<Rightarrow> daisy_installation \<Rightarrow> string list \<Rightarrow> daisy_installation" where
  "with_delete_slots marshal di slots =
     (case marshal slots of
        None \<Rightarrow> di
      | Some b \<Rightarrow> di\<lparr>di_meta := (di_meta di)\<lparr>om_annotations :=
          Some (put delete_slots_ann b (mmake (om_annotations (di_meta di))))\<rparr>\<rparr>)"

definition with_volume_expansion :: "storage_class \<Rightarrow> storage_class" where
  "with_volume_expansion sc = sc\<lparr>sc_allow_expansion := Some True\<rparr>"

section \<open>Layouts\<close>

text \<open>Writing a cluster back into the specification panics when there are no clusters: \<open>None\<close>.\<close>

definition write_cluster :: "string \<Rightarrow> (cluster \<Rightarrow> cluster) \<Rightarrow> daisy_installation \<Rightarrow> daisy_installation option" where
  "write_cluster name f di =
     map_option (\<lambda>es. on_spec (\<lambda>sp. sp\<lparr>sp_configuration := (sp_configuration sp)\<lparr>cf_clusters :=
         Some (put name (f (mget_or zero_cluster (Some es) name)) es)\<rparr>\<rparr>) di)
       (cf_clusters (di_configuration di))"

definition filled_shard :: "layout \<Rightarrow> string \<Rightarrow> shard" where
  "filled_shard l shard_name = zero_shard\<lparr>sh_name := shard_name, sh_replicas :=
     Some (fold (\<lambda>j es. let name = create_replica_name shard_name (int j) {}
                         in put name (zero_replica\<lparr>rp_name := name\<rparr>) es) [0..<nat (lo_replicas_count l)] [])\<rparr>"

definition fill_layout :: "string \<Rightarrow> daisy_installation \<Rightarrow> daisy_installation option" where
  "fill_layout cluster_name di =
     write_cluster cluster_name (\<lambda>c. c\<lparr>cl_layout := (cl_layout c)\<lparr>lo_shards :=
       Some (fold (\<lambda>i es. let name = dashed (di_name di @ ''-'' @ cluster_name) (int i)
                           in put name (filled_shard (cl_layout c) name) es)
          [0..<nat (lo_shards_count (cl_layout c))] [])\<rparr>\<rparr>) di"

definition scale_in_by_shard :: "daisy_installation \<Rightarrow> string \<Rightarrow> int \<Rightarrow> daisy_installation option" where
  "scale_in_by_shard di name num = write_cluster name (\<lambda>c. c\<lparr>cl_layout :=
     (cl_layout c)\<lparr>lo_shards_count := lo_shards_count (cl_layout c) - num\<rparr>\<rparr>) di"

definition scale_by_replica :: "daisy_installation \<Rightarrow> string \<Rightarrow> int \<Rightarrow> daisy_installation option" where
  "scale_by_replica di name num = write_cluster name (\<lambda>c. c\<lparr>cl_layout :=
     (cl_layout c)\<lparr>lo_replicas_count := lo_replicas_count (cl_layout c) + num\<rparr>\<rparr>) di"

section \<open>Checkers\<close>

definition new_checker :: "daisy_installation \<Rightarrow> member_context" where
  "new_checker di = name_context (di_namespace di) (di_name di)"

text \<open>Dereferencing a nil count panics, which fails the test as an assertion does.\<close>

definition check_stateful_set_spec :: "stateful_set \<Rightarrow> bool" where
  "check_stateful_set_spec s \<longleftrightarrow> sx_replicas (set_spec s) = Some 1 \<and> sx_history_limit (set_spec s) = Some 10
     \<and> mget (sx_selector (set_spec s)) = mget (om_labels (set_meta s))
     \<and> sx_service_name (set_spec s) = om_name (set_meta s)
     \<and> mget (tm_labels (sx_template (set_spec s))) = mget (om_labels (set_meta s))"

definition check_labels :: "member_context \<Rightarrow> string gomap \<Rightarrow> bool" where
  "check_labels ctx l \<longleftrightarrow> mget_or [] l ''app.kubernetes.io/name'' = ''daisy''
     \<and> mget_or [] l ''app.kubernetes.io/instance'' = mc_installation ctx
     \<and> mget_or [] l ''app.kubernetes.io/managed-by'' = ''daisy-operator''"

definition check_stateful_set :: "member_context \<Rightarrow> stateful_set \<Rightarrow> bool" where
  "check_stateful_set ctx s \<longleftrightarrow> check_labels ctx (om_labels (set_meta s)) \<and> check_stateful_set_spec s"

definition check_owner_ref :: "member_context \<Rightarrow> owner_ref list \<Rightarrow> bool" where
  "check_owner_ref ctx refs \<longleftrightarrow> list_ex (\<lambda>r. or_name r = mc_installation ctx) refs"

text \<open>The lists are asked of the client; a failed request fails the test.\<close>

definition list_check :: "'w kube \<Rightarrow> kind \<Rightarrow> string \<Rightarrow> (kobject list \<Rightarrow> bool) \<Rightarrow> ('w, bool) prog" where
  "list_check K kd ns P = bindp (try_prog (api (kc_list K kd ns []))) (\<lambda>r. ret (case r of Inl _ \<Rightarrow> False | Inr obs \<Rightarrow> P obs))"

definition verify_replicas :: "'w kube \<Rightarrow> member_context \<Rightarrow> ('w, bool) prog" where
  "verify_replicas K ctx = list_check K StatefulSetKind ''default''
     (\<lambda>obs. list_all (check_stateful_set ctx) (List.map_filter as_stateful_set obs))"

definition verify_any_replica :: "'w kube \<Rightarrow> (stateful_set \<Rightarrow> bool) \<Rightarrow> ('w, bool) prog" where
  "verify_any_replica K f = list_check K StatefulSetKind ''default''
     (\<lambda>obs. case List.map_filter as_stateful_set obs of [] \<Rightarrow> False | s # _ \<Rightarrow> f s)"

definition check_service_count :: "'w kube \<Rightarrow> member_context \<Rightarrow> nat \<Rightarrow> ('w, bool) prog" where
  "check_service_count K ctx n = list_check K ServiceKind (mc_namespace ctx) (\<lambda>obs. length obs = n)"

definition check_config_map_count :: "'w kube \<Rightarrow> member_context \<Rightarrow> nat \<Rightarrow> ('w, bool) prog" where
  "check_config_map_count K ctx n = list_check K ConfigMapKind (mc_namespace ctx) (\<lambda>obs. length obs = n)"

definition check_stateful_set_count :: "'w kube \<Rightarrow> member_context \<Rightarrow> nat \<Rightarrow> ('w, bool) prog" where
  "check_stateful_set_count K ctx n = list_check K StatefulSetKind (mc_namespace ctx) (\<lambda>obs. length obs = n)"

section \<open>Driving the operator\<close>

text \<open>\<open>NewFakeSchemer\<close>: without the defaults of \<open>NewSchemer\<close>, and with a fake connection.\<close>

definition new_fake_schemer :: "string \<Rightarrow> string \<Rightarrow> int \<Rightarrow> schemer \<times> 'r fake_pool \<times> 'r fake_connection" where
  "new_fake_schemer username password port =
     (\<lparr>sm_username = username, sm_password = password, sm_port = port\<rparr>,
      \<lparr>fp_conn = Some new_fake_connection\<rparr>, new_fake_connection)"

text \<open>
  \<open>newFakeDaisyMemberManager\<close>: the fake client starts with the given objects and serves every request;
  it and the rest of the dependencies are \<open>D\<close>. \<open>None\<close> when the configuration cannot be read.
\<close>

definition fake_client :: "kobject list \<Rightarrow> server" where
  "fake_client objs = \<lparr>sr_objects = fold (\<lambda>ob. insert_object (ob_key ob) ob) objs [], sr_faults = []\<rparr>"

definition new_fake_daisy_member_manager ::
  "(server, 'd) deps \<Rightarrow> (config_error + config_manager) \<Rightarrow> kobject list \<Rightarrow> ((server, 'd) deps \<times> server) option" where
  "new_fake_daisy_member_manager D cfg_mgr init_objs =
     (case cfg_mgr of
        Inl err \<Rightarrow> None
      | Inr cm \<Rightarrow> map_option (\<lambda>c.
          (D\<lparr>dp_kube := server_kube, dp_schemer := fst (new_fake_schemer (oc_username c) (oc_password c) (oc_port c))\<rparr>,
           fake_client init_objs)) (config_manager_config cm))"

definition get_key :: "object_meta \<Rightarrow> string \<times> string" where
  "get_key m = (om_namespace m, om_name m)"

text \<open>A set without a replica count panics; a request that fails stops the loop.\<close>

definition all_ready :: "stateful_set \<Rightarrow> stateful_set option" where
  "all_ready s = map_option (\<lambda>n. s\<lparr>set_status := (set_status s)\<lparr>ss_ready_replicas := n, ss_current_replicas := n,
     ss_updated_replicas := n, ss_observed_generation := om_generation (set_meta s)\<rparr>\<rparr>) (sx_replicas (set_spec s))"

definition update_all_sts_to_ready :: "'w kube \<Rightarrow> daisy_installation \<Rightarrow> ('w, unit) prog" where
  "update_all_sts_to_ready K di =
     bindp (api (kc_list K StatefulSetKind (di_namespace di) [])) (\<lambda>obs.
       each (\<lambda>s. case all_ready s of
           None \<Rightarrow> panic ''nil pointer''
         | Some s' \<Rightarrow> andthen (api (kc_update_status K (KStatefulSet s'))) (ret ()))
         (List.map_filter as_stateful_set obs))"

text \<open>\<open>Sync\<close> again and again until it does not ask for another call; \<open>None\<close> when that never ends.\<close>

partial_function (option) sync_until ::
  "('w, 'd) deps \<Rightarrow> ('w, 'd) mstate \<Rightarrow> (unit outcome \<times> ('w, 'd) mstate) option" where
  "sync_until D s =
     (case sync_installation D s of
        None \<Rightarrow> None
      | Some (Err (RequeueError msg), s') \<Rightarrow> sync_until D s'
      | Some (res, s') \<Rightarrow> Some (res, s'))"

definition run_sync :: "('w, 'd) deps \<Rightarrow> bool \<Rightarrow> ('w, 'd) mstate \<Rightarrow> ('w, 'd) mstate option" where
  "run_sync D not_once s = map_option snd (if not_once then sync_until D s else sync_installation D s)"

definition prepare_resource_for_installation ::
  "('w, 'd) deps \<Rightarrow> bool \<Rightarrow> ('w, 'd) mstate \<Rightarrow> (bool \<times> ('w, 'd) mstate) option" where
  "prepare_resource_for_installation D to_complete s =
     (case sync_until D s of
        None \<Rightarrow> None
      | Some (Panic _, s1) \<Rightarrow> Some (False, s1)
      | Some (_, s1) \<Rightarrow>
          if \<not> to_complete then Some (True, s1)
          else (case on_world (update_all_sts_to_ready (dp_kube D) (ms_di s1)) s1 of
              (Done _, s2) \<Rightarrow>
                map_option (\<lambda>(res, s3). (res = Done () \<and> is_state (ms_status s3) = status_completed, s3)) (sync_installation D s2)
            | (_, s2) \<Rightarrow> Some (False, s2)))"

section \<open>The layout the tests expect\<close>

text \<open>The names in a layout: of the shards, with their keys, and of their replicas.\<close>

definition layout_names :: "layout \<Rightarrow> (string \<times> string \<times> (string \<times> string) list) list" where
  "layout_names l = map (\<lambda>(k, sh). (k, sh_name sh, map (\<lambda>(q, r). (q, rp_name r)) (mentries (sh_replicas sh))))
     (mentries (lo_shards l))"

definition generated_names :: "string \<Rightarrow> string \<Rightarrow> int \<Rightarrow> int \<Rightarrow> (string \<times> string \<times> (string \<times> string) list) list" where
  "generated_names inst c shards replicas = map (\<lambda>i. let sh = create_shard_name inst c (int i) in
     (sh, sh, map (\<lambda>j. let r = create_replica_name sh (int j) {} in (r, r)) [0..<nat replicas])) [0..<nat shards]"

lemma fold_put_named:
  assumes "\<And>i j. f i = f j \<longleftrightarrow> i = j" "distinct (map fst es @ map f xs)"
  shows "fold (\<lambda>i es. put (f i) (g i) es) xs es = es @ map (\<lambda>i. (f i, g i)) xs"
  using assms(2)
proof (induction xs arbitrary: es)
  case (Cons x xs)
  have "put (f x) (g x) es = es @ [(f x, g x)]" by (rule put_new) (use Cons.prems in auto)
  then show ?case using Cons.IH [of "es @ [(f x, g x)]"] Cons.prems by (simp add: insert_commute)
qed simp

lemma no_slots: "mget (om_annotations meta) delete_slots_ann = None \<Longrightarrow> get_delete_slots_for_shard parse meta name = {}"
  by (simp add: get_delete_slots_for_shard_def)

lemma normalized_shard_names:
  assumes "normalize_shard parse meta dflt c (zero_shard\<lparr>sh_name := name\<rparr>) = Some sh"
    and "mget (om_annotations meta) delete_slots_ann = None" "0 < lo_replicas_count (cl_layout c)"
  shows "sh_name sh = name \<and> map (\<lambda>(q, r). (q, rp_name r)) (mentries (sh_replicas sh))
    = map (\<lambda>j. let r = create_replica_name name (int j) {} in (r, r)) [0..<nat (lo_replicas_count (cl_layout c))]"
  using assms
  by (auto simp: normalize_shard_unfold Let_def no_slots normalize_replicas_fresh zero_shard_def replica_name_at_def
      normalize_shard_internal_replication_def)

lemma update_each_map_eq:
  assumes "update_each (\<lambda>_. f) (map (\<lambda>i. (k i, v i)) xs) = Some ys" "\<And>i y. f (v i) = Some y \<Longrightarrow> h (k i, y) = g i"
  shows "map h ys = map g xs"
  using assms(1)
proof (induction xs arbitrary: ys)
  case (Cons x xs)
  then show ?case using assms(2) by (auto split: option.splits)
qed simp

lemma normalized_cluster_names:
  assumes c: "normalize_cluster parse di dflt c = Some c'" and fresh: "mlen (lo_shards (cl_layout c)) = 0"
    and meta: "mget (om_annotations (di_meta di)) delete_slots_ann = None"
    and counts: "0 < lo_shards_count (cl_layout c)" "0 < lo_replicas_count (cl_layout c)"
  shows "layout_names (cl_layout c') = generated_names (di_name di) (cl_name c) (lo_shards_count (cl_layout c)) (lo_replicas_count (cl_layout c))"
proof -
  define c3 where "c3 = normalize_cluster_sections di c"
  have c3: "cl_layout c3 = cl_layout c" "cl_name c3 = cl_name c"
    using counts by (auto simp: c3_def normalize_cluster_sections_def Let_def cluster_inherit_files_def
        cluster_inherit_zookeeper_def normalize_layout_counts_def)
  let ?sh = "\<lambda>i. create_shard_name (di_name di) (cl_name c) (int i)"
  let ?es = "map (\<lambda>i. (?sh i, zero_shard\<lparr>sh_name := ?sh i\<rparr>)) [0..<nat (lo_shards_count (cl_layout c))]"
  let ?c4 = "c3\<lparr>cl_layout := (cl_layout c)\<lparr>lo_shards := Some ?es\<rparr>\<rparr>"
  have "ensure_cluster_layout_shards (di_name di) c3 = Some ?c4"
    using ensure_shards_fresh [of c3 "di_name di"] fresh c3 by simp
  then obtain ss where ss: "enumerate_shards (normalize_shard parse (di_meta di) dflt ?c4) ?es = Some ss"
    and c': "c' = ?c4\<lparr>cl_layout := (cl_layout ?c4)\<lparr>lo_shards := Some ss\<rparr>\<rparr>"
    using c by (auto simp: normalize_cluster_def simp flip: c3_def)
  have "map (\<lambda>(k, sh). (k, sh_name sh, map (\<lambda>(q, r). (q, rp_name r)) (mentries (sh_replicas sh)))) ss
      = map (\<lambda>i. (?sh i, ?sh i, map (\<lambda>j. let r = create_replica_name (?sh i) (int j) {} in (r, r))
          [0..<nat (lo_replicas_count (cl_layout c))])) [0..<nat (lo_shards_count (cl_layout c))]"
  proof (rule update_each_map_eq)
    show "update_each (\<lambda>_. normalize_shard parse (di_meta di) dflt ?c4) ?es = Some ss" using ss by (simp add: enumerate_shards_def)
    show "(case (?sh i, sh) of (k, sh) \<Rightarrow> (k, sh_name sh, map (\<lambda>(q, r). (q, rp_name r)) (mentries (sh_replicas sh))))
        = (?sh i, ?sh i, map (\<lambda>j. let r = create_replica_name (?sh i) (int j) {} in (r, r)) [0..<nat (lo_replicas_count (cl_layout c))])"
      if "normalize_shard parse (di_meta di) dflt ?c4 (zero_shard\<lparr>sh_name := ?sh i\<rparr>) = Some sh" for i sh
      using normalized_shard_names [OF that meta] counts(2) by simp
  qed
  then show ?thesis unfolding c' by (simp add: layout_names_def generated_names_def Let_def)
qed

lemma filled_names:
  "layout_names ((cl_layout cl)\<lparr>lo_shards := Some (fold (\<lambda>i es. let name = dashed (inst @ ''-'' @ c) (int i)
      in put name (filled_shard (cl_layout cl) name) es) [0..<nat (lo_shards_count (cl_layout cl))] [])\<rparr>)
    = generated_names inst c (lo_shards_count (cl_layout cl)) (lo_replicas_count (cl_layout cl))"
proof -
  have replicas: "fold (\<lambda>j es. put (create_replica_name sh (int j) {}) (g j) es) xs []
      = map (\<lambda>j. (create_replica_name sh (int j) {}, g j)) xs" if "distinct xs" for sh xs and g :: "nat \<Rightarrow> replica"
    using that by (subst fold_put_named) (auto simp: create_replica_name_inject distinct_map inj_on_def)
  have shards: "fold (\<lambda>i es. put (dashed p (int i)) (g i) es) xs [] = map (\<lambda>i. (dashed p (int i), g i)) xs"
    if "distinct xs" for p xs and g :: "nat \<Rightarrow> shard"
    using that by (subst fold_put_named) (auto simp: distinct_map inj_on_def dashed_inject)
  show ?thesis
    by (simp add: layout_names_def generated_names_def Let_def shards replicas filled_shard_def create_shard_name_def)
qed

lemma configuration_clusters:
  assumes "normalize_configuration parse conf x d = Some d2"
  shows "\<exists>d1 es. di_meta d1 = di_meta d \<and> cf_clusters (di_configuration d2) = Some es
    \<and> enumerate_clusters (normalize_cluster parse d1 x) (ensure_cluster (cf_clusters (di_configuration d))) = Some es"
  using assms unfolding normalize_configuration_def Let_def map_option_eq_Some by (elim exE conjE) (intro exI conjI, auto)

lemma merge_meta: "di_meta (installation_merge_from mg acc di ty) = di_meta di"
  by (simp add: installation_merge_from_def)

lemma installation_configured:
  assumes "get_installation_from_template env conf d b = (Some n, conf')"
  shows "\<exists>merged x d2 conf1. di_meta merged = di_meta d
    \<and> cf_clusters (di_configuration merged) = cf_clusters (di_configuration d)
    \<and> normalize_configuration (nv_parse_strings env) conf1 x merged = Some d2 \<and> no_spec n = di_spec d2"
proof -
  obtain acc conf1 x d2 where "normalize_configuration (nv_parse_strings env) conf1 x
      (installation_merge_from (nv_mergo env) acc d MergeTypeOverrideByNonEmptyValues) = Some d2" "no_spec n = di_spec d2"
    using assms by (auto simp: get_installation_from_template_def Let_def normalize_installation_def split: prod.splits)
  then show ?thesis using merge_meta normalized_clusters_of_merge by blast
qed

text \<open>
  C39: The layout the tests fill in by hand is the one the normalizer generates: for a cluster that
  has no other name than its key and gives only positive counts, in an installation without delete slots,
  \<open>fillLayout\<close> succeeds, and both have the same shards with the same replicas under the same names,
  in the same order.
\<close>

theorem filled_layout_is_generated:
  assumes "get_installation_from_template env conf d b = (Some n, conf')"
    and "mget (cf_clusters (di_configuration d)) c = Some cl" "cl_name cl \<in> {[], c}" "mlen (lo_shards (cl_layout cl)) = 0"
    and "mget (om_annotations (di_meta d)) delete_slots_ann = None"
    and "0 < lo_shards_count (cl_layout cl)" "0 < lo_replicas_count (cl_layout cl)"
  shows "\<exists>d' cl1 cl2. fill_layout c d = Some d' \<and> mget (cf_clusters (di_configuration d')) c = Some cl1
    \<and> mget (cf_clusters (sp_configuration (no_spec n))) c = Some cl2
    \<and> layout_names (cl_layout cl1) = layout_names (cl_layout cl2)"
proof -
  let ?names = "generated_names (di_name d) c (lo_shards_count (cl_layout cl)) (lo_replicas_count (cl_layout cl))"
  obtain es where es: "cf_clusters (di_configuration d) = Some es" "map_of es c = Some cl"
    using assms(2) by (cases "cf_clusters (di_configuration d)") auto
  have filled: "\<exists>d' cl1. fill_layout c d = Some d' \<and> mget (cf_clusters (di_configuration d')) c = Some cl1
      \<and> layout_names (cl_layout cl1) = ?names"
    using es filled_names [of "di_name d" c cl]
    by (simp add: fill_layout_def write_cluster_def on_spec_def mget_or_def)
  have some: "es \<noteq> []" using es by auto
  obtain merged x d2 conf1 where merged: "di_meta merged = di_meta d" "cf_clusters (di_configuration merged) = Some es"
    and d2: "normalize_configuration (nv_parse_strings env) conf1 x merged = Some d2" "no_spec n = di_spec d2"
    using installation_configured [OF assms(1)] es(1) by auto
  obtain d1 es' where "di_meta d1 = di_meta d"
    and es': "enumerate_clusters (normalize_cluster (nv_parse_strings env) d1 x) es = Some es'"
    and n: "cf_clusters (sp_configuration (no_spec n)) = Some es'"
    using configuration_clusters [OF d2(1)] merged d2(2) some by (auto simp: ensure_cluster_def Let_def)
  let ?cl = "if cl_name cl = [] then cl\<lparr>cl_name := c\<rparr> else cl"
  have cl: "cl_name ?cl = c" "cl_layout ?cl = cl_layout cl" using assms(3) by auto
  obtain cl2 where cl2: "normalize_cluster (nv_parse_strings env) d1 x ?cl = Some cl2" "map_of es' c = Some cl2"
    using update_each_lookup [of _ es es' c] es' es(2) by (fastforce simp: enumerate_clusters_def)
  have "layout_names (cl_layout cl2) = ?names"
    using normalized_cluster_names [OF cl2(1)] assms(4-7) \<open>di_meta d1 = di_meta d\<close> unfolding cl by simp
  then show ?thesis using filled n cl2(2) by auto
qed

theorem filled_layout_is_generated_witness:
  "\<exists>n d' cl1 cl2. fst (get_installation_from_template pure_env zero_operator_config (new_test_installation 2 3) True) = Some n
    \<and> fill_layout ''cluster'' (new_test_installation 2 3) = Some d'
    \<and> mget (cf_clusters (di_configuration d')) ''cluster'' = Some cl1
    \<and> mget (cf_clusters (sp_configuration (no_spec n))) ''cluster'' = Some cl2
    \<and> layout_names (cl_layout cl1) = layout_names (cl_layout cl2)"
proof -
  let ?d = "new_test_installation 2 3"
  have "fst (get_installation_from_template pure_env zero_operator_config ?d True) \<noteq> None"
    by (rule get_installation_returns) (simp add: new_test_installation_def zero_defs)
  then obtain n conf where n: "get_installation_from_template pure_env zero_operator_config ?d True = (Some n, conf)"
    by (auto simp: prod_eq_iff)
  show ?thesis
    using filled_layout_is_generated [where c = "''cluster''", OF n] n
    by (auto simp: new_test_installation_def zero_defs delete_slots_ann_def)
qed

text \<open>The sets the operator creates pass the checks of the tests.\<close>

lemma wanted_set_passes:
  assumes "mc_installation ctx = mc_installation chk"
  shows "check_stateful_set chk (get_stateful_set_for_replica ctx di r)"
proof -
  let ?s = "get_stateful_set_for_replica ctx di r"
  let ?bare = "apply_pod_template ctx (bare_stateful_set ctx di r) (get_pod_template ctx r) r"
  have head: "set_head ?s = set_head ?bare" by (rule wanted_head)
  have "mget (tm_labels (sx_template (set_spec ?bare))) k = map_of (label_replica ctx r) k" for k
    by (simp add: apply_pod_template_def bare_stateful_set_def merge_string_maps_all split: option.splits)
  then show ?thesis
    using head assms
    by (simp add: check_stateful_set_def check_stateful_set_spec_def check_labels_def set_head_def apply_pod_template_def
        bare_stateful_set_def fun_eq_iff mget_or_def label_replica_def label_ops label_keys label_new_def
        create_stateful_set_service_name_def)
qed

end
