(* ===== verification/Spec2Isabelle.thy ===== *)
theory Spec2Isabelle
  imports Sha256 Component_Properties Own_Objects Test_Helpers Webhook
begin

text \<open>
  The operator that runs installations of a clustered database on Kubernetes: the Go code under
  \<open>src/\<close>, without its generated and its wiring code.

  \<^bold>\<open>The program.\<close> A user creates a \<open>DaisyInstallation\<close>. The admission webhook fills in defaults and
  validates it (\<open>api/v1/daisyinstallation_webhook.go\<close>). The controller
  (\<open>controllers/daisyinstallation_controller.go\<close>) is asked to reconcile it, again and again; it reads
  the installation and calls \<open>Sync\<close> of the member manager (\<open>controllers/daisymanager\<close>). \<open>Sync\<close> has the
  normalizer merge templates and expand the specification into clusters, shards and replicas; it
  writes the configuration files into config maps, creates or updates one stateful set and one service
  per replica, one replica at a time, runs the schema statements on replicas that have become ready
  (the schemer, over \<open>pkg/daisy\<close>), removes surplus replicas, and reports what it found in the status.
  A finalizer makes a deletion pass through \<open>deleteDaisyInstallation\<close>.

  \<^bold>\<open>The state.\<close> What a reconciliation changes is the record \<open>mstate\<close> (\<open>Manager_State\<close>): the world behind
  the Kubernetes client, the databases and connections, the installation with its status, the context
  (\<open>memberContext\<close>) and the operator's configuration. What it is given is the record \<open>deps\<close>. Code that is
  not in the repository is a parameter: the client is a record \<open>kube\<close> of calls on any world, the
  database driver a record \<open>driver\<close>, JSON encoding and semantic equality of Kubernetes types a record
  \<open>codec\<close>, the mergo package, SHA-1, the clock, the file system, the order of one \<open>range\<close> statement over
  a map. Go maps are \<open>None\<close> (nil) or association lists; a write into a nil map is a panic, an outcome of its
  own beside success and error (\<open>Prog\<close>). The state after an error or a panic is kept, as in Go.

  \<^bold>\<open>The theories, in the order of the code.\<close>
    \<^item> \<open>Prelude\<close>, \<open>Go_Strings\<close>, \<open>Prog\<close>: Go maps (locale \<open>keyed_store\<close>), the string functions the code uses,
      programs with errors and panics and their triples \<open>valid\<close>, \<open>gives\<close>, \<open>keeps\<close>.
    \<^item> \<open>Pkg_Util\<close>, \<open>Sha256\<close>, \<open>Pkg_Label\<close>, \<open>Xml_Builder\<close>, \<open>Daisy_Db\<close>: \<open>pkg/util\<close>, the digest of passwords,
      \<open>pkg/label\<close>, \<open>pkg/util/xml\<close>, \<open>pkg/daisy\<close>.
    \<^item> \<open>Settings\<close>, \<open>Api_Types\<close>, \<open>Installation\<close>, \<open>Status\<close>, \<open>Operator_Config\<close>: \<open>api/v1\<close> and
      \<open>config_manager.go\<close>; the records have the fields of the Go types.
    \<^item> \<open>Member_Context\<close>, \<open>Naming\<close>, \<open>Normalizer\<close>, \<open>Config_Generator\<close>, \<open>Statefulset_Util\<close>, \<open>Schemer\<close>:
      the files of \<open>controllers/daisymanager\<close> of these names (names: \<open>util.go\<close>).
    \<^item> \<open>K8s_Api\<close>, \<open>K8s_Utils\<close>: the objects, the client and a server; \<open>pkg/k8s\<close> and \<open>validation.go\<close>.
    \<^item> \<open>Manager_State\<close>, \<open>Replica_Sync\<close>, \<open>Replica_Delete\<close>, \<open>Member_Manager\<close>: \<open>daisy_member_manager.go\<close> from
      single requests up to \<open>Sync\<close> and \<open>deleteDaisyInstallation\<close>.
    \<^item> \<open>Controllers\<close>, \<open>Webhook\<close>: \<open>Reconcile\<close> of both controllers, runs of the operator in which requests
      alternate with changes by others (\<open>operator_step\<close>, \<open>operator_run\<close>), the webhook.
    \<^item> \<open>Test_Helpers\<close>: fixtures and checkers of the unit tests (\<open>test_fixtures.go\<close>, \<open>test_util.go\<close>).

  \<^bold>\<open>The interfaces.\<close> What the operator relies on is stated in locales; each law is documented behaviour of
  the API server, and each locale is interpreted on \<open>server_kube\<close>, a server that keeps objects in the order of
  their keys and lets any request fail on a schedule.
    \<^item> \<open>kube_api\<close> (\<open>K8s_Api\<close>): a read returns what is stored, a failed request changes nothing, a write
      changes one object. \<open>kube_removals\<close> and \<open>kube_answers\<close> (\<open>Kube_Answers\<close>) add an invariant of the stored
      objects, \<open>kube_echo\<close> (\<open>Footprint\<close>) that a status update answers with the status it was given.
    \<^item> \<open>kube_reads\<close>, \<open>kube_serves\<close> (\<open>Serving\<close>) and \<open>kube_clears\<close> (\<open>Clearing\<close>): a server that serves the
      requests in its good states; the liveness properties rest on these, the safety properties do not.
    \<^item> \<open>replica_relations\<close>, \<open>replica_walk\<close>, \<open>removal_relation\<close> (\<open>Replica_Safety\<close>): what a relation between
      context and status must satisfy so that the steps of a replica carry it along; interpreted on the
      counts of the status and on the state machine of a replica.
    \<^item> \<open>named_merge\<close>, \<open>name_supply\<close>, \<open>independent_updates\<close>: merging of named lists, loops that fill a map
      with fresh names, loops whose order does not matter.

  \<^bold>\<open>What is proved.\<close>
    \<^item> No panic: \<open>Replica_Safety\<close> and \<open>Sync_Safety\<close> carry an invariant of status and world through all steps
      of \<open>Sync\<close>, whatever requests fail; \<open>Deletion\<close> does so for deletions of installations whose status
      lists their clusters, and shows the panic of the others; \<open>Controllers\<close> extends both to runs.
    \<^item> Life of a replica: \<open>Replica_Machine\<close> gives the state machine over phase and sync state, shows that
      the code refines it, and proves its invariant by rule induction.
    \<^item> Frame: \<open>Footprint\<close> and \<open>Own_Objects\<close> bound the objects a reconciliation can change at all, by the
      triple \<open>tame\<close>, which speaks of errors and panics, too.
    \<^item> Progress: \<open>Completion\<close> (one reconciliation with all pods ready completes the installation),
      \<open>Bring_Up\<close> and \<open>Rounds\<close> (each reconciliation creates exactly the first missing set, so a fresh
      installation completes), \<open>Clearing\<close> and \<open>Deletion_Completes\<close> (one reconciliation deletes it all), by the
      triples \<open>brings\<close> and \<open>stops\<close>. \<open>Config_Kept\<close> shows that later rounds normalize alike.
    \<^item> Components: round trips of settings, completeness of generated files, convergence of stateful set
      updates, immutable fields, passwords never left in the clear, claims that never shrink, validation,
      naming and delete slots, at the end of their theories and in \<open>Component_Properties\<close>.

  \<^bold>\<open>Loops and fuel.\<close> The loops of the normalizer that fill a map up to a count need not end: \<open>fill_loop\<close> is a
  partial function into options, \<open>ensure_shards_terminates\<close> decides when it returns, and
  \<open>normalizer_returns\<close> gives a condition under which the whole normalizer does. Everything after it is
  total. \<open>reconciles\<close> (\<open>Rounds\<close>) takes a number of rounds; as many as there are missing stateful sets, and
  one more, are shown to be enough. \<open>Retry\<close> of the schemer is bounded by its number of tries.

  \<^bold>\<open>Not modelled.\<close> Generated deep copies (\<open>zz_generated.deepcopy.go\<close>): values of the model are immutable, so a
  copy is the value. \<open>main.go\<close>, scheme registration, list types and the registration of controllers and
  webhook: wiring of the controller runtime. Logging, events and metrics, which decide nothing. Fields of
  Kubernetes types the operator does not touch are carried along as one opaque field. \<open>serialize\<close>,
  \<open>Fingerprint\<close>, \<open>Equal\<close> and \<open>Diff\<close> of \<open>pkg/util\<close>: wrappers of third-party code that nothing modelled
  calls. The bodies of \<open>normalizePodTemplate\<close>, \<open>normalizeVolumeClaimTemplate\<close> and \<open>annotateForRecreation\<close>
  are commented out in the source and do in the model what is left of them. Requests are served one after
  the other, as the controller does with its single worker; between two of them other clients may change
  the cluster in any way.
\<close>

end
